(* ===== verification/Prelude.thy ===== *)
theory Prelude
  imports Main "HOL-Library.AList" "HOL-Library.Multiset" "HOL-Library.Sublist"
begin

text \<open>
  Shared vocabulary of the development: the theorem collections the component
  theories fill, the abbreviations for error results, and generic facts on
  association lists (the model of a Go \<open>map\<close> together with one iteration order)
  and on sums over them.
\<close>

named_theorems go_str \<open>characterisations of the Go string functions by append and membership\<close>
named_theorems cache_upd \<open>how the cache operations act on each field of the cache\<close>
named_theorems wf_intros \<open>preservation of the component invariants by the operations\<close>

text \<open>Bytes are characters, byte slices and Go strings are character lists.\<close>

type_synonym bytes = string

section \<open>Association lists\<close>

abbreviation keys :: "('k \<times> 'v) list \<Rightarrow> 'k list" where
  "keys xs \<equiv> map fst xs"

lemma map_of_Some_in_set [dest]: "map_of xs k = Some v \<Longrightarrow> (k, v) \<in> set xs"
  by (rule map_of_SomeD)

lemma map_of_None_notin: "map_of xs k = None \<longleftrightarrow> k \<notin> set (keys xs)"
  by (simp add: map_of_eq_None_iff)

lemma delete_as_filter: "AList.delete k xs = filter (\<lambda>p. fst p \<noteq> k) xs"
  by (auto simp: AList.delete_eq intro: filter_cong)

lemma set_delete: "set (AList.delete k xs) = {p \<in> set xs. fst p \<noteq> k}"
  by (auto simp: delete_as_filter)

lemma distinct_keys_delete [intro]:
  "distinct (keys xs) \<Longrightarrow> distinct (keys (AList.delete k xs))"
  by (rule distinct_delete)

lemma distinct_keys_update [intro]:
  "distinct (keys xs) \<Longrightarrow> distinct (keys (AList.update k v xs))"
  by (rule distinct_update)

lemma set_update_distinct:
  "distinct (keys xs) \<Longrightarrow>
    set (AList.update k v xs) = insert (k, v) {p \<in> set xs. fst p \<noteq> k}"
  by (induction xs) (auto simp: image_iff)

lemma map_of_filter_keys:
  "map_of (filter (\<lambda>p. P (fst p)) xs) k = (if P k then map_of xs k else None)"
  by (induction xs) auto

section \<open>Sums over association lists\<close>

text \<open>The bytes tracked by a map are the sum of a measure over its values.\<close>

definition vsum :: "('v \<Rightarrow> int) \<Rightarrow> ('k \<times> 'v) list \<Rightarrow> int" where
  "vsum f xs = (\<Sum>p\<leftarrow>xs. f (snd p))"

lemma vsum_Nil [simp]: "vsum f [] = 0"
  by (simp add: vsum_def)

lemma vsum_Cons [simp]: "vsum f (p # xs) = f (snd p) + vsum f xs"
  by (simp add: vsum_def)

lemma vsum_delete_notin: "k \<notin> set (keys xs) \<Longrightarrow> vsum f (AList.delete k xs) = vsum f xs"
  by (simp add: delete_notin_dom)

lemma delete_notin_keys [simp]: "k \<notin> fst ` set xs \<Longrightarrow> AList.delete k xs = xs"
  by (induction xs) auto

lemma vsum_delete:
  "distinct (keys xs) \<Longrightarrow> map_of xs k = Some v \<Longrightarrow>
    vsum f (AList.delete k xs) = vsum f xs - f v"
  by (induction xs) (auto split: if_splits)

lemma vsum_update_new:
  "map_of xs k = None \<Longrightarrow> vsum f (AList.update k v xs) = vsum f xs + f v"
  by (induction xs) (auto split: if_splits)

lemma vsum_update_old:
  "distinct (keys xs) \<Longrightarrow> map_of xs k = Some w \<Longrightarrow>
    vsum f (AList.update k v xs) = vsum f xs - f w + f v"
  by (induction xs) (auto split: if_splits)

lemma vsum_nonneg: "(\<And>k v. (k, v) \<in> set xs \<Longrightarrow> 0 \<le> f v) \<Longrightarrow> 0 \<le> vsum f xs"
  by (induction xs) fastforce+

lemma vsum_ge_member:
  "(\<And>k v. (k, v) \<in> set xs \<Longrightarrow> 0 \<le> f v) \<Longrightarrow> (k, v) \<in> set xs \<Longrightarrow> f v \<le> vsum f xs"
proof (induction xs)
  case Nil
  then show ?case by simp
next
  case (Cons p xs)
  have "0 \<le> vsum f xs" and "0 \<le> f (snd p)"
    using Cons.prems(1) by (auto intro!: vsum_nonneg) (metis list.set_intros(1) prod.collapse)
  with Cons show ?case by (cases p) fastforce
qed

section \<open>Lists\<close>

lemma sorted_key_last_max:
  "sorted (map f xs) \<Longrightarrow> x \<in> set xs \<Longrightarrow> f x \<le> f (last xs)"
  by (induction xs) auto

section \<open>Separators\<close>

lemma sep_first_inject:
  "c \<notin> set a \<Longrightarrow> c \<notin> set b \<Longrightarrow> a @ c # x = b @ c # y \<longleftrightarrow> a = b \<and> x = y"
proof (induction a arbitrary: b)
  case Nil
  then show ?case by (cases b) auto
next
  case (Cons z a)
  then show ?case by (cases b) auto
qed

lemma sep_last_inject:
  assumes "c \<notin> set a" "c \<notin> set b"
  shows "x @ c # a = y @ c # b \<longleftrightarrow> x = y \<and> a = b"
proof -
  have "x @ c # a = y @ c # b \<longleftrightarrow> rev a @ c # rev x = rev b @ c # rev y"
    by (subst rev_is_rev_conv [symmetric]) simp
  also have "\<dots> \<longleftrightarrow> x = y \<and> a = b" using assms by (subst sep_first_inject) auto
  finally show ?thesis .
qed

end
