(* ===== verification/Go_Strings.thy ===== *)
theory Go_Strings
  imports Prelude
begin

text \<open>
  The functions of Go's \<open>strings\<close>, \<open>bytes\<close> and \<open>strconv\<close> packages that the program
  calls, on byte strings. Case folding and white space are those of ASCII: the bytes of a
  multi-byte UTF-8 rune are neither letters nor spaces here. Separators of \<open>Split\<close>
  and \<open>SplitN\<close> are single bytes, as at every call in the program.
\<close>

section \<open>Prefixes and suffixes\<close>

definition has_prefix :: "string \<Rightarrow> string \<Rightarrow> bool" where
  "has_prefix s p = (take (length p) s = p)"

definition has_suffix :: "string \<Rightarrow> string \<Rightarrow> bool" where
  "has_suffix s x = (length x \<le> length s \<and> drop (length s - length x) s = x)"

definition trim_prefix :: "string \<Rightarrow> string \<Rightarrow> string" where
  "trim_prefix s p = (if has_prefix s p then drop (length p) s else s)"

definition trim_suffix :: "string \<Rightarrow> string \<Rightarrow> string" where
  "trim_suffix s x = (if has_suffix s x then take (length s - length x) s else s)"

text \<open>\<open>CutPrefix\<close> and \<open>CutSuffix\<close>: the rest, or \<open>None\<close> where Go returns \<open>ok = false\<close>.\<close>

definition cut_prefix :: "string \<Rightarrow> string \<Rightarrow> string option" where
  "cut_prefix s p = (if has_prefix s p then Some (drop (length p) s) else None)"

definition cut_suffix :: "string \<Rightarrow> string \<Rightarrow> string option" where
  "cut_suffix s x = (if has_suffix s x then Some (take (length s - length x) s) else None)"

lemma has_prefix_iff [go_str]: "has_prefix s p \<longleftrightarrow> (\<exists>t. s = p @ t)"
  unfolding has_prefix_def by (metis append_eq_conv_conj)

lemma has_suffix_iff [go_str]: "has_suffix s x \<longleftrightarrow> (\<exists>t. s = t @ x)"
proof
  assume "has_suffix s x"
  then have "s = take (length s - length x) s @ x"
    unfolding has_suffix_def by (metis append_take_drop_id)
  then show "\<exists>t. s = t @ x" ..
qed (auto simp: has_suffix_def)

lemma has_prefix_append [simp]: "has_prefix (p @ t) p"
  by (auto simp: go_str)

lemma has_suffix_append [simp]: "has_suffix (t @ x) x"
  by (auto simp: go_str)

lemma has_prefix_Nil [simp]: "has_prefix s []"
  by (simp add: has_prefix_def)

lemma has_prefix_Cons [simp]:
  "has_prefix (c # s) (d # p) \<longleftrightarrow> c = d \<and> has_prefix s p"
  by (auto simp: has_prefix_def)

lemma has_prefix_Nil_Cons [simp]: "\<not> has_prefix [] (d # p)"
  by (simp add: has_prefix_def)

lemma trim_prefix_append [simp]: "trim_prefix (p @ t) p = t"
  by (simp add: trim_prefix_def)

lemma trim_suffix_append [simp]: "trim_suffix (t @ x) x = t"
  by (simp add: trim_suffix_def)

lemma cut_prefix_Some [go_str]: "cut_prefix s p = Some t \<longleftrightarrow> s = p @ t"
  by (auto simp: cut_prefix_def go_str)

lemma cut_prefix_append [simp]: "cut_prefix (p @ t) p = Some t"
  by (simp add: cut_prefix_Some)

lemma cut_suffix_Some [go_str]: "cut_suffix s x = Some t \<longleftrightarrow> s = t @ x"
  by (auto simp: cut_suffix_def go_str)

section \<open>Searching\<close>

fun index_of :: "string \<Rightarrow> string \<Rightarrow> nat option" where
  "index_of [] sub = (if sub = [] then Some 0 else None)"
| "index_of (c # cs) sub =
     (if has_prefix (c # cs) sub then Some 0 else map_option Suc (index_of cs sub))"

fun last_index :: "string \<Rightarrow> string \<Rightarrow> nat option" where
  "last_index [] sub = (if sub = [] then Some 0 else None)"
| "last_index (c # cs) sub =
     (case last_index cs sub of
        Some i \<Rightarrow> Some (Suc i)
      | None \<Rightarrow> if has_prefix (c # cs) sub then Some 0 else None)"

definition contains :: "string \<Rightarrow> string \<Rightarrow> bool" where
  "contains s sub = (index_of s sub \<noteq> None)"

text \<open>\<open>strings.Cut\<close>: before and after the first separator, and whether it was found.\<close>

definition cut :: "string \<Rightarrow> string \<Rightarrow> string \<times> string \<times> bool" where
  "cut s sep =
     (case index_of s sep of
        Some i \<Rightarrow> (take i s, drop (i + length sep) s, True)
      | None \<Rightarrow> (s, [], False))"

lemma index_of_Some_append:
  "index_of s sub = Some i \<Longrightarrow> s = take i s @ sub @ drop (i + length sub) s"
proof (induction s arbitrary: i)
  case Nil
  then show ?case by (simp split: if_splits)
next
  case (Cons c cs)
  show ?case
  proof (cases "has_prefix (c # cs) sub")
    case True
    with Cons.prems show ?thesis by (auto simp: go_str)
  next
    case False
    with Cons.prems obtain j where "index_of cs sub = Some j" and "i = Suc j" by auto
    with Cons.IH show ?thesis by simp
  qed
qed

lemma index_of_append: "\<exists>i. index_of (a @ sub @ b) sub = Some i \<and> i \<le> length a"
proof (induction a)
  case Nil
  show ?case using has_prefix_append [of sub b] by (cases "sub @ b") auto
next
  case (Cons c a)
  then show ?case by auto
qed

lemma index_of_None: "index_of s sub = None \<longleftrightarrow> \<not> (\<exists>a b. s = a @ sub @ b)"
  by (metis index_of_Some_append index_of_append not_None_eq option.distinct(1))

lemma contains_iff [go_str]: "contains s sub \<longleftrightarrow> (\<exists>a b. s = a @ sub @ b)"
  unfolding contains_def using index_of_None by metis

text \<open>The first occurrence of a one-byte separator follows a part without it.\<close>

lemma index_of_char [simp]: "c \<notin> set a \<Longrightarrow> index_of (a @ c # b) [c] = Some (length a)"
  by (induction a) auto

lemma index_of_char_None [simp]: "c \<notin> set s \<Longrightarrow> index_of s [c] = None"
  by (induction s) auto

lemma cut_char [simp]: "c \<notin> set a \<Longrightarrow> cut (a @ c # b) [c] = (a, b, True)"
  by (simp add: cut_def)

text \<open>The first place a separator can start at is its first byte.\<close>

lemma cut_at_char:
  assumes "c \<notin> set a"
  shows "cut (a @ c # b) (c # sub) =
    (if has_prefix b sub then (a, drop (length sub) b, True)
     else case cut b (c # sub) of
       (x, y, True) \<Rightarrow> (a @ c # x, y, True) | (x, y, False) \<Rightarrow> (a @ c # b, [], False))"
proof -
  have skip: "index_of (a @ c # b) (c # sub) = map_option ((+) (length a)) (index_of (c # b) (c # sub))"
    using assms by (induction a) (auto simp: option.map_comp o_def)
  show ?thesis
    unfolding cut_def skip by (auto split: option.split)
qed

lemma cut_found: "cut s sep = (a, b, True) \<Longrightarrow> s = a @ sep @ b"
  unfolding cut_def by (auto split: option.splits dest: index_of_Some_append)

lemma cut_not_found: "cut s sep = (a, b, False) \<Longrightarrow> a = s \<and> b = []"
  unfolding cut_def by (auto split: option.splits)

lemma last_index_append:
  "last_index (a @ sub @ b) sub \<noteq> None"
proof (induction a)
  case Nil
  show ?case
    using has_prefix_append [of sub b] by (cases "sub @ b") (auto split: option.splits)
next
  case (Cons c a)
  then show ?case by (auto split: option.splits)
qed

lemma last_index_Some_append:
  "last_index s sub = Some i \<Longrightarrow> s = take i s @ sub @ drop (i + length sub) s"
proof (induction s arbitrary: i)
  case Nil
  then show ?case by (simp split: if_splits)
next
  case (Cons c cs)
  show ?case
  proof (cases "last_index cs sub")
    case None
    with Cons.prems show ?thesis by (auto simp: go_str split: if_splits)
  next
    case (Some j)
    with Cons.prems have "i = Suc j" by simp
    with Cons.IH [OF Some] show ?thesis by simp
  qed
qed

lemma last_index_None: "last_index s sub = None \<longleftrightarrow> \<not> (\<exists>a b. s = a @ sub @ b)"
  by (metis last_index_Some_append last_index_append not_None_eq)

section \<open>Splitting\<close>

fun split_on :: "char \<Rightarrow> string \<Rightarrow> string list" where
  "split_on c [] = [[]]"
| "split_on c (x # xs) =
     (if x = c then [] # split_on c xs
      else (case split_on c xs of [] \<Rightarrow> [[x]] | w # ws \<Rightarrow> (x # w) # ws))"

text \<open>\<open>strings.SplitN\<close>: at most \<open>n\<close> parts, the last one unsplit.\<close>

fun split_n :: "char \<Rightarrow> nat \<Rightarrow> string \<Rightarrow> string list" where
  "split_n c 0 s = []"
| "split_n c (Suc 0) s = [s]"
| "split_n c (Suc (Suc n)) s =
     (case cut s [c] of
        (a, b, True) \<Rightarrow> a # split_n c (Suc n) b
      | (a, b, False) \<Rightarrow> [s])"

fun join :: "string \<Rightarrow> string list \<Rightarrow> string" where
  "join sep [] = []"
| "join sep [w] = w"
| "join sep (w # v # ws) = w @ sep @ join sep (v # ws)"

lemma split_on_nonempty [simp]: "split_on c s \<noteq> []"
  by (induction s) (auto split: list.splits)

lemma split_on_no_sep [simp]: "c \<notin> set s \<Longrightarrow> split_on c s = [s]"
  by (induction s) auto

lemma split_on_append [simp]:
  "c \<notin> set a \<Longrightarrow> split_on c (a @ c # b) = a # split_on c b"
  by (induction a) auto

lemma split_on_parts: "w \<in> set (split_on c s) \<Longrightarrow> c \<notin> set w"
proof (induction s arbitrary: w)
  case Nil
  then show ?case by simp
next
  case (Cons x xs)
  then show ?case by (cases "split_on c xs") (auto split: if_splits)
qed

text \<open>Splitting undoes joining, and joining undoes splitting.\<close>

lemma split_on_join:
  "ws \<noteq> [] \<Longrightarrow> (\<And>w. w \<in> set ws \<Longrightarrow> c \<notin> set w) \<Longrightarrow> split_on c (join [c] ws) = ws"
  by (induction "[c]" ws rule: join.induct) auto

lemma join_split_on: "join [c] (split_on c s) = s"
proof (induction s)
  case Nil
  then show ?case by simp
next
  case (Cons x xs)
  then show ?case by (cases "split_on c xs" rule: list.exhaust; cases "tl (split_on c xs)") auto
qed

section \<open>Trimming, fields and case\<close>

definition is_space :: "char \<Rightarrow> bool" where
  "is_space c = (c \<in> {CHR 0x20, CHR 0x09, CHR 0x0A, CHR 0x0B, CHR 0x0C, CHR 0x0D})"

definition trim_left :: "(char \<Rightarrow> bool) \<Rightarrow> string \<Rightarrow> string" where
  "trim_left P s = dropWhile P s"

definition trim_right :: "(char \<Rightarrow> bool) \<Rightarrow> string \<Rightarrow> string" where
  "trim_right P s = rev (dropWhile P (rev s))"

definition trim :: "(char \<Rightarrow> bool) \<Rightarrow> string \<Rightarrow> string" where
  "trim P s = trim_right P (trim_left P s)"

definition trim_space :: "string \<Rightarrow> string" where
  "trim_space s = trim is_space s"

text \<open>\<open>strings.Fields\<close>: the maximal runs without white space.\<close>

fun str_fields_acc :: "string \<Rightarrow> string \<Rightarrow> string list" where
  "str_fields_acc w [] = (if w = [] then [] else [rev w])"
| "str_fields_acc w (c # cs) =
     (if is_space c then (if w = [] then str_fields_acc [] cs else rev w # str_fields_acc [] cs)
      else str_fields_acc (c # w) cs)"

definition str_fields :: "string \<Rightarrow> string list" where
  "str_fields s = str_fields_acc [] s"

definition lower_char :: "char \<Rightarrow> char" where
  "lower_char c =
     (let n = (of_char c :: nat) in if 65 \<le> n \<and> n \<le> 90 then char_of (n + 32) else c)"

definition upper_char :: "char \<Rightarrow> char" where
  "upper_char c =
     (let n = (of_char c :: nat) in if 97 \<le> n \<and> n \<le> 122 then char_of (n - 32) else c)"

definition to_lower :: "string \<Rightarrow> string" where
  "to_lower s = map lower_char s"

definition to_upper :: "string \<Rightarrow> string" where
  "to_upper s = map upper_char s"

definition equal_fold :: "string \<Rightarrow> string \<Rightarrow> bool" where
  "equal_fold a b = (to_lower a = to_lower b)"

lemma lower_char_idem [simp]: "lower_char (lower_char c) = lower_char c"
  by (simp add: lower_char_def Let_def)

lemma to_lower_idem [simp]: "to_lower (to_lower s) = to_lower s"
  by (simp add: to_lower_def)

lemma to_lower_append [simp]: "to_lower (a @ b) = to_lower a @ to_lower b"
  by (simp add: to_lower_def)

lemma to_lower_Nil [simp]: "to_lower [] = []"
  by (simp add: to_lower_def)

lemma to_lower_Nil_iff [simp]: "to_lower s = [] \<longleftrightarrow> s = []"
  by (simp add: to_lower_def)

lemma equal_fold_refl [simp]: "equal_fold s s"
  by (simp add: equal_fold_def)

lemma str_fields_acc_parts: "w \<in> set (str_fields_acc v s) \<Longrightarrow> (\<forall>c\<in>set v. \<not> is_space c) \<Longrightarrow>
    w \<noteq> [] \<and> (\<forall>c\<in>set w. \<not> is_space c)"
proof (induction v s rule: str_fields_acc.induct)
  case (1 v)
  then show ?case by (cases "v = []") auto
next
  case (2 v c cs)
  show ?case
  proof (cases "is_space c")
    case True
    show ?thesis
    proof (cases "v = []")
      case nil: True
      with True "2.prems" have "w \<in> set (str_fields_acc [] cs)" by simp
      then show ?thesis using "2.IH"(1) [OF True nil] by simp
    next
      case False
      with True "2.prems" have "w = rev v \<or> w \<in> set (str_fields_acc [] cs)" by simp
      then show ?thesis using "2.IH"(2) [OF True False] False "2.prems"(2) by auto
    qed
  next
    case False
    with "2.prems" have "w \<in> set (str_fields_acc (c # v) cs)" by simp
    then show ?thesis using "2.IH"(3) [OF False] False "2.prems"(2) by simp
  qed
qed

lemma str_fields_parts: "w \<in> set (str_fields s) \<Longrightarrow> w \<noteq> [] \<and> (\<forall>c\<in>set w. \<not> is_space c)"
  unfolding str_fields_def by (rule str_fields_acc_parts) auto

lemma trim_left_self: "(s = [] \<or> \<not> P (hd s)) \<Longrightarrow> trim_left P s = s"
  by (cases s) (auto simp: trim_left_def)

lemma trim_right_self: "(s = [] \<or> \<not> P (last s)) \<Longrightarrow> trim_right P s = s"
  by (cases s rule: rev_cases) (auto simp: trim_right_def)

lemma trim_self:
  assumes "s = [] \<or> \<not> P (hd s) \<and> \<not> P (last s)"
  shows "trim P s = s"
  using assms by (auto simp: trim_def trim_left_self trim_right_self)

lemma trim_space_no_space: "(\<And>c. c \<in> set s \<Longrightarrow> \<not> is_space c) \<Longrightarrow> trim_space s = s"
  unfolding trim_space_def by (rule trim_self) auto

lemma trim_space_Nil [simp]: "trim_space [] = []"
  by (rule trim_space_no_space) simp

section \<open>Replacing\<close>

text \<open>
  \<open>strings.ReplaceAll\<close>: leftmost, non-overlapping. An empty pattern matches before
  every byte and at the end.
\<close>

function replace_all :: "string \<Rightarrow> string \<Rightarrow> string \<Rightarrow> string" where
  "replace_all [] old new = (if old = [] then new else [])"
| "replace_all (c # cs) old new =
     (if old = [] then new @ c # replace_all cs old new
      else if has_prefix (c # cs) old
        then new @ replace_all (drop (length old - 1) cs) old new
      else c # replace_all cs old new)"
  by pat_completeness auto
termination
  by (relation "measure (\<lambda>(s, old, new). length s)") auto

lemma replace_all_match:
  "old \<noteq> [] \<Longrightarrow> replace_all (old @ s) old new = new @ replace_all s old new"
  by (cases old) auto

section \<open>Numbers\<close>

text \<open>The value of a digit in bases up to 36 (\<open>strconv\<close> accepts both letter cases).\<close>

definition digit_val :: "char \<Rightarrow> nat option" where
  "digit_val c =
     (let n = (of_char c :: nat) in
      if 48 \<le> n \<and> n \<le> 57 then Some (n - 48)
      else if 97 \<le> n \<and> n \<le> 122 then Some (n - 87)
      else if 65 \<le> n \<and> n \<le> 90 then Some (n - 55)
      else None)"

fun digits_val :: "nat \<Rightarrow> nat \<Rightarrow> string \<Rightarrow> nat option" where
  "digits_val base acc [] = Some acc"
| "digits_val base acc (c # cs) =
     (case digit_val c of
        Some d \<Rightarrow> if d < base then digits_val base (acc * base + d) cs else None
      | None \<Rightarrow> None)"

text \<open>
  \<open>strconv.ParseInt\<close> for an explicit base (so without underscores): an optional sign,
  at least one digit, and a value that fits the bit size. Syntax and range errors are both
  \<open>None\<close>: no caller in the program tells them apart.
\<close>

definition parse_int :: "nat \<Rightarrow> nat \<Rightarrow> string \<Rightarrow> int option" where
  "parse_int base bits s =
     (let neg = has_prefix s ''-'';
          ds = (if neg \<or> has_prefix s ''+'' then tl s else s)
      in if ds = [] then None
         else case digits_val base 0 ds of
                None \<Rightarrow> None
              | Some n \<Rightarrow>
                  let v = (if neg then - int n else int n)
                  in if - (2 ^ (bits - 1)) \<le> v \<and> v < 2 ^ (bits - 1) then Some v else None)"

lemma parse_int_range:
  "parse_int base bits s = Some v \<Longrightarrow> - (2 ^ (bits - 1)) \<le> v \<and> v < 2 ^ (bits - 1)"
  by (auto simp: parse_int_def Let_def split: if_splits option.splits)

text \<open>\<open>strconv.FormatInt\<close> in base 10.\<close>

definition digit_char :: "nat \<Rightarrow> char" where
  "digit_char d = char_of (48 + d)"

fun format_nat :: "nat \<Rightarrow> string" where
  "format_nat n =
     (if n < 10 then [digit_char n] else format_nat (n div 10) @ [digit_char (n mod 10)])"

declare format_nat.simps [simp del]

definition format_int :: "int \<Rightarrow> string" where
  "format_int i = (if i < 0 then CHR ''-'' # format_nat (nat (- i)) else format_nat (nat i))"

lemma digit_val_char [simp]: "d < 10 \<Longrightarrow> digit_val (digit_char d) = Some d"
  by (simp add: digit_val_def digit_char_def Let_def)

lemma digits_val_append:
  "digits_val base acc (a @ b) =
     (case digits_val base acc a of Some v \<Rightarrow> digits_val base v b | None \<Rightarrow> None)"
  by (induction base acc a rule: digits_val.induct) (auto split: option.splits)

lemma digits_val_format_nat: "digits_val 10 0 (format_nat n) = Some n"
proof (induction n rule: format_nat.induct)
  case (1 n)
  show ?case
  proof (cases "n < 10")
    case True
    then show ?thesis by (simp add: format_nat.simps [of n])
  next
    case False
    with 1 have "digits_val 10 0 (format_nat (n div 10)) = Some (n div 10)" by simp
    with False show ?thesis by (simp add: format_nat.simps [of n] digits_val_append)
  qed
qed

lemma format_nat_digits: "c \<in> set (format_nat n) \<Longrightarrow> \<exists>d<10. c = digit_char d"
proof (induction n rule: format_nat.induct)
  case (1 n)
  then show ?case
    by (cases "n < 10") (auto simp: format_nat.simps [of n] intro: exI [of _ "n mod 10"])
qed

lemma format_nat_nonempty [simp]: "format_nat n \<noteq> []"
  by (subst format_nat.simps) simp

lemma digit_char_ne:
  "d < 10 \<Longrightarrow> digit_char d \<noteq> CHR ''-''"
  "d < 10 \<Longrightarrow> digit_char d \<noteq> CHR ''+''"
  "d < 10 \<Longrightarrow> digit_char d \<noteq> CHR '',''"
  by (auto simp: digit_char_def dest!: arg_cong [where f = "of_char :: char \<Rightarrow> nat"])

lemma format_nat_no_sign:
  "CHR ''-'' \<notin> set (format_nat n)" "CHR ''+'' \<notin> set (format_nat n)"
  "CHR '','' \<notin> set (format_nat n)"
  using format_nat_digits digit_char_ne by metis+

lemma has_prefix_char: "has_prefix s [c] \<longleftrightarrow> s \<noteq> [] \<and> hd s = c"
  by (cases s) auto

lemma parse_format_nat:
  assumes "int n < 2 ^ (bits - 1)"
  shows "parse_int 10 bits (format_nat n) = Some (int n)"
proof -
  have "\<not> has_prefix (format_nat n) ''-''" "\<not> has_prefix (format_nat n) ''+''"
    using format_nat_no_sign [of n] by (auto simp: has_prefix_char) (metis hd_in_set format_nat_nonempty)+
  with assms show ?thesis
    by (simp add: parse_int_def digits_val_format_nat Let_def)
      (metis le_less_trans neg_le_0_iff_le of_nat_0_le_iff order_trans zero_le_numeral zero_le_power)
qed

end
