(* ===== verification/Go_Float.thy ===== *)
theory Go_Float
  imports Complex_Main "HOL-Library.Log_Nat"
begin

text \<open>
  The \<open>float64\<close> arithmetic the program does: a conversion from \<open>int64\<close>, one product and
  a conversion back, all on finite values far from overflow and underflow. Such
  a value is a rational number; every operation is the exact result rounded to 53 significant
  bits, ties to even.
\<close>

definition pow2 :: "int \<Rightarrow> rat" where
  "pow2 e = (if 0 \<le> e then 2 ^ nat e else 1 / 2 ^ nat (- e))"

text \<open>The binary exponent of a positive rational: \<open>2\<^sup>k \<le> x < 2\<^sup>k\<^sup>+\<^sup>1\<close>.\<close>

definition binary_exponent :: "rat \<Rightarrow> int" where
  "binary_exponent x =
     (let (p, q) = quotient_of x;
          k = int (floorlog 2 (nat p)) - int (floorlog 2 (nat q))
      in if pow2 k \<le> x then k else k - 1)"

definition round_half_even :: "rat \<Rightarrow> int" where
  "round_half_even x =
     (let n = \<lfloor>x\<rfloor>; f = x - of_int n
      in if f < 1 / 2 then n
         else if 1 / 2 < f then n + 1
         else if even n then n else n + 1)"

definition f64_round :: "rat \<Rightarrow> rat" where
  "f64_round x =
     (if x = 0 then 0
      else let e = binary_exponent \<bar>x\<bar> - 52
           in of_int (round_half_even (x * pow2 (- e))) * pow2 e)"

definition f64_of_int :: "int \<Rightarrow> rat" where
  "f64_of_int n = f64_round (of_int n)"

definition f64_mult :: "rat \<Rightarrow> rat \<Rightarrow> rat" where
  "f64_mult x y = f64_round (x * y)"

text \<open>Conversion to \<open>int64\<close> truncates towards zero.\<close>

definition int_of_f64 :: "rat \<Rightarrow> int" where
  "int_of_f64 x = (if x < 0 then \<lceil>x\<rceil> else \<lfloor>x\<rfloor>)"

section \<open>Powers of two and exponents\<close>

lemma pow2_pos [simp]: "0 < pow2 e"
  by (simp add: pow2_def)

lemma pow2_nonneg [simp]: "0 \<le> pow2 e"
  using pow2_pos [of e] by linarith

lemma pow2_ne [simp]: "pow2 e \<noteq> 0"
  using pow2_pos [of e] by linarith

lemma pow2_minus: "pow2 (- e) * pow2 e = 1"
  by (simp add: pow2_def)

lemma pow2_nat: "pow2 (int n) = 2 ^ n"
  by (simp add: pow2_def)

lemma pow2_Suc: "pow2 (e + 1) = 2 * pow2 e"
proof (cases "0 \<le> e")
  case True
  then show ?thesis by (simp add: pow2_def nat_add_distrib)
next
  case False
  then have "nat (- e) = Suc (nat (- (e + 1)))" by arith
  with False show ?thesis by (cases "e = -1") (simp_all add: pow2_def)
qed

lemma pow2_mono_Suc: "pow2 e < pow2 (e + 1)"
  using pow2_pos [of e] by (simp add: pow2_Suc)

lemma pow2_add_nat: "pow2 (e + int n) = pow2 e * 2 ^ n"
proof (induction n)
  case (Suc n)
  then show ?case using pow2_Suc [of "e + int n"] by (simp add: algebra_simps)
qed simp

lemma pow2_mono: "d \<le> e \<Longrightarrow> pow2 d \<le> pow2 e"
proof -
  assume "d \<le> e"
  then obtain n where "e = d + int n" by (metis zle_iff_zadd)
  moreover have "pow2 d * 1 \<le> pow2 d * 2 ^ n"
    by (intro mult_left_mono) (simp_all add: order_less_imp_le)
  ultimately show ?thesis by (simp add: pow2_add_nat)
qed

lemma floorlog_bounds: "0 < n \<Longrightarrow> 2 ^ (floorlog 2 n - 1) \<le> n \<and> n < 2 ^ floorlog 2 n \<and> 1 \<le> floorlog 2 n"
  for n :: nat
  using floorlog_bounds [of n 2] floorlog_ge_SucI [of 2 n 0] by (auto simp: floorlog_def)


lemma binary_exponent_bounds:
  assumes "0 < x"
  shows "pow2 (binary_exponent x) \<le> x \<and> x < pow2 (binary_exponent x + 1)"
proof -
  obtain p q where pq: "quotient_of x = (p, q)" by fastforce
  then have q: "0 < q" and x: "x = of_int p / of_int q"
    by (simp_all add: quotient_of_denom_pos quotient_of_div)
  with assms have p: "0 < p" by (simp add: zero_less_divide_iff)
  define a where "a = floorlog 2 (nat p)"
  define b where "b = floorlog 2 (nat q)"
  have "2 ^ (a - 1) \<le> nat p \<and> nat p < 2 ^ a \<and> 1 \<le> a"
    unfolding a_def using p by (intro floorlog_bounds) simp
  then have pa: "2 ^ (a - 1) \<le> p" "p < 2 ^ a" "1 \<le> a" using p by (auto simp: le_nat_iff nat_less_iff)
  have "2 ^ (b - 1) \<le> nat q \<and> nat q < 2 ^ b \<and> 1 \<le> b"
    unfolding b_def using q by (intro floorlog_bounds) simp
  then have qb: "2 ^ (b - 1) \<le> q" "q < 2 ^ b" "1 \<le> b" using q by (auto simp: le_nat_iff nat_less_iff)
  let ?k = "int a - int b"
  have rp: "(2::rat) ^ (a - 1) \<le> of_int p" "of_int p < (2::rat) ^ a"
    and rq: "(2::rat) ^ (b - 1) \<le> of_int q" "of_int q < (2::rat) ^ b"
    using pa qb by (metis of_int_le_iff of_int_less_iff of_int_numeral of_int_power)+
  have two: "pow2 (int b) = 2 * 2 ^ (b - 1)" "pow2 (int a) = 2 * 2 ^ (a - 1)"
    using pa(3) qb(3) by (simp_all add: pow2_nat flip: power_Suc)
  have ab: "pow2 ?k * pow2 (int b) = pow2 (int a)"
    using pow2_add_nat [of ?k b] by (simp add: pow2_nat)
  have up: "x < pow2 (?k + 1)"
  proof -
    have "of_int p < pow2 (int a)" using rp(2) by (simp add: pow2_nat)
    also have "\<dots> = 2 * pow2 ?k * 2 ^ (b - 1)" using ab two by simp
    also have "\<dots> \<le> 2 * pow2 ?k * of_int q"
      using rq(1) pow2_pos [of ?k] by (intro mult_left_mono) simp_all
    finally show ?thesis using q by (simp add: x pow2_Suc divide_less_eq)
  qed
  have low: "pow2 (?k - 1) \<le> x"
  proof -
    have h: "pow2 ?k = 2 * pow2 (?k - 1)" using pow2_Suc [of "?k - 1"] by simp
    have "pow2 (?k - 1) * of_int q \<le> pow2 (?k - 1) * pow2 (int b)"
      using rq(2) pow2_pos [of "?k - 1"] by (intro mult_left_mono) (simp_all add: pow2_nat)
    also have "\<dots> = 2 ^ (a - 1)" using ab two(2) h by simp
    also have "\<dots> \<le> of_int p" by (rule rp(1))
    finally show ?thesis using q by (simp add: x le_divide_eq)
  qed
  have be: "binary_exponent x = (if pow2 ?k \<le> x then ?k else ?k - 1)"
    by (simp add: binary_exponent_def pq a_def b_def)
  show ?thesis using up low by (simp add: be)
qed

lemma round_half_even_le: "x \<le> of_int n \<Longrightarrow> round_half_even x \<le> n"
proof -
  assume le: "x \<le> of_int n"
  have fl: "of_int \<lfloor>x\<rfloor> \<le> x" by simp
  with le have "\<lfloor>x\<rfloor> \<le> n" by (metis floor_mono floor_of_int)
  moreover have "\<lfloor>x\<rfloor> = n \<Longrightarrow> x - of_int \<lfloor>x\<rfloor> = 0" using le fl by simp
  ultimately show ?thesis unfolding round_half_even_def Let_def by (cases "\<lfloor>x\<rfloor> = n") auto
qed

lemma round_half_even_int [simp]: "round_half_even (of_int n) = n"
  by (simp add: round_half_even_def)

text \<open>Integers of at most 53 bits are \<open>float64\<close> values, and rounding never passes one.\<close>

lemma scaled_int:
  assumes "0 < x" "x < 2 ^ 53"
  obtains m where "pow2 (- (binary_exponent x - 52)) = of_int m" "0 < m"
proof -
  have "\<not> 53 \<le> binary_exponent x"
  proof
    assume "53 \<le> binary_exponent x"
    then have "pow2 53 \<le> pow2 (binary_exponent x)" by (rule pow2_mono)
    with binary_exponent_bounds [OF assms(1)] assms(2) show False by (simp add: pow2_def)
  qed
  then have "pow2 (- (binary_exponent x - 52)) = of_int (2 ^ nat (- (binary_exponent x - 52)))"
    by (simp add: pow2_def)
  then show thesis using that by (metis zero_less_numeral zero_less_power)
qed

lemma f64_round_le:
  assumes "x \<le> of_int n" "x < 2 ^ 53" "0 \<le> n"
  shows "f64_round x \<le> of_int n"
proof (cases "0 < x")
  case False
  let ?e = "binary_exponent \<bar>x\<bar> - 52"
  have "x * pow2 (- ?e) \<le> of_int 0" using False by (simp add: mult_le_0_iff)
  then have "round_half_even (x * pow2 (- ?e)) \<le> 0" by (rule round_half_even_le)
  then have "f64_round x \<le> 0" by (simp add: f64_round_def Let_def mult_le_0_iff)
  also have "0 \<le> (of_int n :: rat)" using assms(3) by simp
  finally show ?thesis .
next
  case True
  let ?e = "binary_exponent x - 52"
  obtain m where m: "pow2 (- ?e) = of_int m" "0 < m" using scaled_int [OF True assms(2)] .
  have "x * pow2 (- ?e) \<le> of_int (n * m)"
    using assms(1) m by (simp add: mult_right_mono)
  then have "round_half_even (x * pow2 (- ?e)) \<le> n * m" by (rule round_half_even_le)
  then have "of_int (round_half_even (x * pow2 (- ?e))) * pow2 ?e \<le> of_int (n * m) * pow2 ?e"
    by (intro mult_right_mono) (simp_all add: order_less_imp_le del: of_int_mult)
  also have "\<dots> = of_int n * (pow2 (- ?e) * pow2 ?e)" using m by simp
  also have "\<dots> = of_int n" by (simp only: pow2_minus mult_1_right)
  finally show ?thesis using True by (simp add: f64_round_def Let_def)
qed

lemma f64_of_int_exact: "0 \<le> n \<Longrightarrow> n < 2 ^ 53 \<Longrightarrow> f64_of_int n = of_int n"
proof (cases "n = 0")
  case False
  assume n: "0 \<le> n" "n < 2 ^ 53"
  let ?x = "of_int n :: rat" and ?e = "binary_exponent (of_int n) - 52"
  have x1: "0 < ?x" using False n by simp
  have "?x < of_int (2 ^ 53)" using n(2) by (simp only: of_int_less_iff)
  then have x: "0 < ?x" "?x < 2 ^ 53" using x1 by simp_all
  then obtain m where m: "pow2 (- ?e) = of_int m" by (rule scaled_int)
  have "?x * pow2 (- ?e) = of_int (n * m)" using m by simp
  then have "f64_round ?x = of_int (n * m) * pow2 ?e"
    using x(1) by (simp add: f64_round_def Let_def del: of_int_mult)
  also have "\<dots> = of_int n * (pow2 (- ?e) * pow2 ?e)" using m by simp
  finally show ?thesis by (simp only: f64_of_int_def pow2_minus mult_1_right)
qed (simp add: f64_of_int_def f64_round_def)

end
