(* ===== verification/Glob.thy ===== *)
theory Glob
  imports Go_Strings
begin

text \<open>
  The hostname matcher of \<^verbatim>\<open>internal/glob/glob.go\<close>. \<open>CompileGlob\<close> quotes the
  pattern, rewrites the quoted stars into regular expression text and hands the text to
  \<open>regexp.Compile\<close>. The text is modelled as such; the regular expressions it can be are
  read back into a list of atoms with the semantics of Go's \<open>regexp\<close> (flags \<open>(?i)\<close>,
  anchors at both ends, \<open>.\<close> not matching a newline). The last section proves that the
  detour through text gives the meaning the pattern is documented to have.
\<close>

section \<open>Quoting\<close>

abbreviation backslash :: char where
  "backslash \<equiv> CHR 0x5C"

text \<open>The characters \<open>regexp.QuoteMeta\<close> escapes.\<close>

definition meta_char :: "char \<Rightarrow> bool" where
  "meta_char c \<longleftrightarrow> c \<in> set (backslash # ''.+*?()|[]{}^$'')"

definition quote_char :: "char \<Rightarrow> string" where
  "quote_char c = (if meta_char c then [backslash, c] else [c])"

definition quote_meta :: "string \<Rightarrow> string" where
  "quote_meta s = concat (map quote_char s)"

section \<open>CompileGlob\<close>

abbreviation quoted_star :: string where
  "quoted_star \<equiv> [backslash, CHR ''*'']"

definition glob_text :: "string \<Rightarrow> string" where
  "glob_text pattern =
     (let escaped = quote_meta pattern;
          escaped = replace_all escaped (quoted_star @ quoted_star) ''.+'';
          escaped = replace_all escaped quoted_star ''[^.]+''
      in escaped)"

definition glob_expr :: "string \<Rightarrow> string" where
  "glob_expr pattern = ''(?i)^'' @ glob_text pattern @ ''$''"

text \<open>The regular expressions the compiled text is made of.\<close>

datatype rx_atom =
    Lit char        \<comment> \<open>one character, either case\<close>
  | AnyPlus         \<comment> \<open>\<open>.+\<close>\<close>
  | NonDotPlus      \<comment> \<open>\<open>[^.]+\<close>\<close>

fun parse_atoms :: "string \<Rightarrow> rx_atom list option" where
  "parse_atoms [] = Some []"
| "parse_atoms (c # cs) =
     (if c = backslash then
        (case cs of d # ds \<Rightarrow> if meta_char d then map_option ((#) (Lit d)) (parse_atoms ds) else None
         | [] \<Rightarrow> None)
      else if c = CHR ''.'' then
        (case cs of d # ds \<Rightarrow> if d = CHR ''+'' then map_option ((#) AnyPlus) (parse_atoms ds) else None
         | [] \<Rightarrow> None)
      else if c = CHR ''['' then
        (case cs of
           a # b # e # d # ds \<Rightarrow>
             if [a, b, e, d] = ''^.]+'' then map_option ((#) NonDotPlus) (parse_atoms ds) else None
         | _ \<Rightarrow> None)
      else if meta_char c then None
      else map_option ((#) (Lit c)) (parse_atoms cs))"

text \<open>\<open>regexp.Compile\<close> on the texts \<open>CompileGlob\<close> builds; \<open>None\<close> is an error.\<close>

definition rx_compile :: "string \<Rightarrow> rx_atom list option" where
  "rx_compile expr =
     (case cut_prefix expr ''(?i)^'' of
        None \<Rightarrow> None
      | Some body \<Rightarrow>
          (case cut_suffix body ''$'' of None \<Rightarrow> None | Some body \<Rightarrow> parse_atoms body))"

record glob_matcher =
  gm_pattern :: string
  gm_regex :: "rx_atom list"

definition compile_glob :: "string \<Rightarrow> glob_matcher option" where
  "compile_glob pattern =
     (case rx_compile (glob_expr pattern) of
        None \<Rightarrow> None
      | Some compiled \<Rightarrow> Some \<lparr>gm_pattern = pattern, gm_regex = compiled\<rparr>)"

section \<open>Match\<close>

fun rx_match :: "rx_atom list \<Rightarrow> string \<Rightarrow> bool" where
  "rx_match [] s = (s = [])"
| "rx_match (a # r) [] = False"
| "rx_match (Lit c # r) (x # xs) = (lower_char x = lower_char c \<and> rx_match r xs)"
| "rx_match (AnyPlus # r) (x # xs) =
     (x \<noteq> CHR 0x0A \<and> (rx_match r xs \<or> rx_match (AnyPlus # r) xs))"
| "rx_match (NonDotPlus # r) (x # xs) =
     (x \<noteq> CHR ''.'' \<and> (rx_match r xs \<or> rx_match (NonDotPlus # r) xs))"

text \<open>A nil matcher (\<open>None\<close>) matches nothing and has the empty pattern.\<close>

definition glob_match :: "glob_matcher option \<Rightarrow> string \<Rightarrow> bool" where
  "glob_match g hostname = (case g of None \<Rightarrow> False | Some m \<Rightarrow> rx_match (gm_regex m) hostname)"

definition glob_string :: "glob_matcher option \<Rightarrow> string" where
  "glob_string g = (case g of None \<Rightarrow> [] | Some m \<Rightarrow> gm_pattern m)"

section \<open>What a pattern means\<close>

text \<open>
  The documented reading of a pattern: \<open>**\<close> is any non-empty text, \<open>*\<close> any non-empty
  text within one label, everything else stands for itself.
\<close>

fun glob_atoms :: "string \<Rightarrow> rx_atom list" where
  "glob_atoms [] = []"
| "glob_atoms [c] = (if c = CHR ''*'' then [NonDotPlus] else [Lit c])"
| "glob_atoms (c # d # s) =
     (if c = CHR ''*'' \<and> d = CHR ''*'' then AnyPlus # glob_atoms s
      else if c = CHR ''*'' then NonDotPlus # glob_atoms (d # s)
      else Lit c # glob_atoms (d # s))"

fun atom_text :: "rx_atom \<Rightarrow> string" where
  "atom_text (Lit c) = quote_char c"
| "atom_text AnyPlus = ''.+''"
| "atom_text NonDotPlus = ''[^.]+''"

fun atom_matches :: "rx_atom \<Rightarrow> string \<Rightarrow> bool" where
  "atom_matches (Lit c) s = (\<exists>x. s = [x] \<and> lower_char x = lower_char c)"
| "atom_matches AnyPlus s = (s \<noteq> [] \<and> CHR 0x0A \<notin> set s)"
| "atom_matches NonDotPlus s = (s \<noteq> [] \<and> CHR ''.'' \<notin> set s)"

lemma meta_star [simp]: "meta_char (CHR ''*'')" "meta_char backslash"
  by (simp_all add: meta_char_def)

lemma quote_char_star [simp]:
  "quote_char (CHR ''*'') = quoted_star" "quote_char backslash = [backslash, backslash]"
  by (simp_all add: quote_char_def)

lemma quote_meta_Nil [simp]: "quote_meta [] = []"
  by (simp add: quote_meta_def)

lemma quote_meta_Cons [simp]: "quote_meta (c # s) = quote_char c @ quote_meta s"
  by (simp add: quote_meta_def)

text \<open>The quoted text never starts in the middle of an escape.\<close>

lemma has_prefix_quote_star:
  "has_prefix (quote_meta s) quoted_star \<longleftrightarrow> (\<exists>t. s = CHR ''*'' # t)"
  by (cases s) (auto simp: quote_char_def meta_char_def)

lemma no_star: "\<not> has_prefix (quote_meta s) (CHR ''*'' # t)"
  by (cases s) (auto simp: quote_char_def)

lemma replace_all_skip:
  "old \<noteq> [] \<Longrightarrow> \<not> has_prefix (c # cs) old \<Longrightarrow>
    replace_all (c # cs) old new = c # replace_all cs old new"
  by simp

text \<open>The text after the first replacement: pairs of stars are gone, single ones remain.\<close>

fun half_text :: "string \<Rightarrow> string" where
  "half_text [] = []"
| "half_text [c] = quote_char c"
| "half_text (c # d # s) =
     (if c = CHR ''*'' \<and> d = CHR ''*'' then ''.+'' @ half_text s
      else quote_char c @ half_text (d # s))"

lemma replace_double_star:
  "replace_all (quote_meta s) (quoted_star @ quoted_star) ''.+'' = half_text s"
proof (induction s rule: half_text.induct)
  case 1
  show ?case by simp
next
  case (2 c)
  show ?case by (auto simp: quote_char_def meta_char_def)
next
  case (3 c d s)
  show ?case
  proof (cases "c = CHR ''*'' \<and> d = CHR ''*''")
    case True
    with 3 show ?thesis by (simp add: quote_char_def meta_char_def)
  next
    case False
    then have IH: "replace_all (quote_meta (d # s)) (quoted_star @ quoted_star) ''.+''
        = half_text (d # s)"
      using 3(2) by blast
    show ?thesis
    proof (cases "c = CHR ''*''")
      case True
      with False IH show ?thesis
        by (auto simp: quote_char_def meta_char_def)
    next
      case ns: False
      show ?thesis using ns IH no_star [of "d # s"]
        by (cases "c = backslash"; cases "meta_char c") (auto simp: quote_char_def)
    qed
  qed
qed

lemma half_no_star: "\<not> has_prefix (half_text s) (CHR ''*'' # t)"
  by (induction s rule: half_text.induct) (auto simp: quote_char_def)

lemma replace_star:
  "replace_all (half_text s) quoted_star ''[^.]+'' = concat (map atom_text (glob_atoms s))"
proof (induction s rule: glob_atoms.induct)
  case 1
  show ?case by simp
next
  case (2 c)
  show ?case by (auto simp: quote_char_def meta_char_def)
next
  case (3 c d s)
  then show ?case using half_no_star [of "d # s"]
    by (cases "c = backslash"; cases "c = CHR ''*''"; cases "meta_char c")
      (auto simp: quote_char_def)
qed

lemma parse_atoms_text: "parse_atoms (concat (map atom_text as)) = Some as"
proof (induction as)
  case Nil
  show ?case by simp
next
  case (Cons a as)
  then have IH: "parse_atoms (concat (map atom_text as)) = Some as" by simp
  show ?case
  proof (cases a)
    case (Lit c)
    with IH show ?thesis
      by (cases "meta_char c") (auto simp: quote_char_def meta_char_def)
  qed (use IH in simp_all)
qed


lemma glob_text_atoms: "glob_text p = concat (map atom_text (glob_atoms p))"
  by (simp add: glob_text_def Let_def replace_double_star replace_star del: append_Cons)

lemma compile_glob_atoms:
  "compile_glob p = Some \<lparr>gm_pattern = p, gm_regex = glob_atoms p\<rparr>"
proof -
  have "cut_prefix (glob_expr p) ''(?i)^'' = Some (glob_text p @ ''$'')"
    unfolding glob_expr_def by (rule cut_prefix_append)
  moreover have "cut_suffix (glob_text p @ ''$'') ''$'' = Some (glob_text p)"
    by (simp add: cut_suffix_Some)
  ultimately show ?thesis
    by (simp add: compile_glob_def rx_compile_def glob_text_atoms parse_atoms_text)
qed

section \<open>The language of a pattern\<close>

lemma rx_match_any:
  "rx_match (AnyPlus # r) s \<longleftrightarrow> (\<exists>a b. s = a @ b \<and> atom_matches AnyPlus a \<and> rx_match r b)"
proof (induction s)
  case Nil
  show ?case by simp
next
  case (Cons x xs)
  show ?case
  proof
    assume "rx_match (AnyPlus # r) (x # xs)"
    then consider "x \<noteq> CHR 0x0A" "rx_match r xs"
      | a b where "x \<noteq> CHR 0x0A" "xs = a @ b" "atom_matches AnyPlus a" "rx_match r b"
      using Cons.IH by auto
    then show "\<exists>a b. x # xs = a @ b \<and> atom_matches AnyPlus a \<and> rx_match r b"
    proof cases
      case 1
      then show ?thesis by (intro exI [of _ "[x]"] exI [of _ xs]) simp
    next
      case (2 a b)
      then show ?thesis by (intro exI [of _ "x # a"] exI [of _ b]) simp
    qed
  next
    assume "\<exists>a b. x # xs = a @ b \<and> atom_matches AnyPlus a \<and> rx_match r b"
    then obtain a b where ab: "x # xs = a @ b" "a \<noteq> []" "CHR 0x0A \<notin> set a" "rx_match r b"
      by auto
    then obtain a' where "a = x # a'" "xs = a' @ b" by (cases a) auto
    with ab Cons.IH show "rx_match (AnyPlus # r) (x # xs)" by (cases "a' = []") auto
  qed
qed

lemma rx_match_nondot:
  "rx_match (NonDotPlus # r) s \<longleftrightarrow> (\<exists>a b. s = a @ b \<and> atom_matches NonDotPlus a \<and> rx_match r b)"
proof (induction s)
  case Nil
  show ?case by simp
next
  case (Cons x xs)
  show ?case
  proof
    assume "rx_match (NonDotPlus # r) (x # xs)"
    then consider "x \<noteq> CHR ''.''" "rx_match r xs"
      | a b where "x \<noteq> CHR ''.''" "xs = a @ b" "atom_matches NonDotPlus a" "rx_match r b"
      using Cons.IH by auto
    then show "\<exists>a b. x # xs = a @ b \<and> atom_matches NonDotPlus a \<and> rx_match r b"
    proof cases
      case 1
      then show ?thesis by (intro exI [of _ "[x]"] exI [of _ xs]) simp
    next
      case (2 a b)
      then show ?thesis by (intro exI [of _ "x # a"] exI [of _ b]) simp
    qed
  next
    assume "\<exists>a b. x # xs = a @ b \<and> atom_matches NonDotPlus a \<and> rx_match r b"
    then obtain a b where ab: "x # xs = a @ b" "a \<noteq> []" "CHR ''.'' \<notin> set a" "rx_match r b"
      by auto
    then obtain a' where "a = x # a'" "xs = a' @ b" by (cases a) auto
    with ab Cons.IH show "rx_match (NonDotPlus # r) (x # xs)" by (cases "a' = []") auto
  qed
qed

lemma rx_match_lit:
  "rx_match (Lit c # r) s \<longleftrightarrow> (\<exists>a b. s = a @ b \<and> atom_matches (Lit c) a \<and> rx_match r b)"
proof (cases s)
  case (Cons x xs)
  then show ?thesis
    by (auto simp: Cons_eq_append_conv intro: exI [of _ "[x]"])
qed simp

lemma rx_match_Cons:
  "rx_match (a # r) s \<longleftrightarrow> (\<exists>u v. s = u @ v \<and> atom_matches a u \<and> rx_match r v)"
  by (cases a) (simp_all only: rx_match_lit rx_match_any rx_match_nondot)

lemma rx_match_parts:
  "rx_match r s \<longleftrightarrow> (\<exists>parts. s = concat parts \<and> list_all2 atom_matches r parts)"
proof (induction r arbitrary: s)
  case Nil
  show ?case by simp
next
  case (Cons a r)
  show ?case
  proof
    assume "rx_match (a # r) s"
    then obtain u parts where "s = u @ concat parts" "atom_matches a u"
      "list_all2 atom_matches r parts"
      unfolding rx_match_Cons Cons.IH by blast
    then show "\<exists>parts. s = concat parts \<and> list_all2 atom_matches (a # r) parts"
      by (intro exI [of _ "u # parts"]) simp
  next
    assume "\<exists>parts. s = concat parts \<and> list_all2 atom_matches (a # r) parts"
    then show "rx_match (a # r) s"
      unfolding rx_match_Cons Cons.IH by (fastforce simp: list_all2_Cons1)
  qed
qed

lemma rx_match_literal:
  "rx_match (map Lit p) s \<longleftrightarrow> equal_fold s p"
proof (induction p arbitrary: s)
  case Nil
  show ?case by (simp add: equal_fold_def)
next
  case (Cons c p)
  then show ?case by (cases s) (auto simp: equal_fold_def to_lower_def)
qed

lemma glob_atoms_literal: "CHR ''*'' \<notin> set p \<Longrightarrow> glob_atoms p = map Lit p"
  by (induction p rule: glob_atoms.induct) auto

lemma glob_atoms_star: "CHR ''*'' \<notin> set p \<Longrightarrow> glob_atoms (CHR ''*'' # p) = NonDotPlus # map Lit p"
  by (cases p) (auto simp: glob_atoms_literal)

lemma glob_match_compile [simp]: "glob_match (compile_glob p) h = rx_match (glob_atoms p) h"
  by (simp add: glob_match_def compile_glob_atoms)

lemma glob_literal_match:
  "CHR ''*'' \<notin> set p \<Longrightarrow> glob_match (compile_glob p) h \<longleftrightarrow> equal_fold h p"
  by (simp add: glob_atoms_literal rx_match_literal)

section \<open>Properties\<close>


text \<open>A hostname matches a compiled pattern exactly when it can be cut into consecutive
  parts, one for each element of the pattern, each part matching its element: the anchored
  search of the regular expression is neither too wide nor too narrow.\<close>

theorem glob_match_language:
  "glob_match (compile_glob pattern) hostname \<longleftrightarrow>
    (\<exists>parts. hostname = concat parts \<and> list_all2 atom_matches (glob_atoms pattern) parts)"
  by (simp add: rx_match_parts)

text \<open>A pattern with one leading star matches exactly the hostnames that consist of one
  non-empty label part without a dot followed by the rest of the pattern in either case. In
  particular the star never spans several labels.\<close>

theorem glob_single_star:
  assumes "CHR ''*'' \<notin> set rest"
  shows "glob_match (compile_glob (CHR ''*'' # rest)) hostname \<longleftrightarrow>
    (\<exists>label tail. hostname = label @ tail \<and> label \<noteq> [] \<and> CHR ''.'' \<notin> set label
       \<and> equal_fold tail rest)"
  using assms by (simp add: glob_atoms_star rx_match_nondot rx_match_literal)

theorem glob_single_star_witness:
  "glob_match (compile_glob ''*.gitlab.com'') ''eu.GitLab.com'' \<longleftrightarrow>
    (\<exists>label tail. ''eu.GitLab.com'' = label @ tail \<and> label \<noteq> [] \<and> CHR ''.'' \<notin> set label
       \<and> equal_fold tail ''.gitlab.com'')"
  by (rule glob_single_star) simp

end
