(* ===== verification/Pktline.thy ===== *)
theory Pktline
  imports Go_Strings
begin

text \<open>
  The pkt-line scanner and the two parsers of \<open>git-upload-pack\<close> requests of
  \<^verbatim>\<open>git/pktline.go\<close>. The reader is the \<open>bytes.Reader\<close> over a buffered request
  body that both parsers build, so a read fails only at the end of the input. A pass of a
  scanning loop is one unfolding of a recursive function; the loops terminate because every
  successful \<open>Scan\<close> consumes at least the four bytes of the length.
\<close>

section \<open>Scanner\<close>

datatype pkt_error =
    ParseLength string   \<comment> \<open>\<open>pkt-line parse length\<close>\<close>
  | InvalidLength int    \<comment> \<open>\<open>invalid pkt-line length\<close>\<close>
  | ReadData             \<comment> \<open>\<open>pkt-line read data\<close>\<close>

record scanner =
  sc_r :: bytes          \<comment> \<open>what the reader has left\<close>
  sc_line :: string
  sc_err :: "pkt_error option"
  sc_done :: bool

definition new_scanner :: "bytes \<Rightarrow> scanner" where
  "new_scanner r = \<lparr>sc_r = r, sc_line = [], sc_err = None, sc_done = False\<rparr>"

text \<open>\<open>io.ReadFull\<close> into a buffer of \<open>n\<close> bytes: the bytes, if there are enough, and the rest.\<close>

definition read_full :: "nat \<Rightarrow> bytes \<Rightarrow> bytes option \<times> bytes" where
  "read_full n r = (if n \<le> length r then (Some (take n r), drop n r) else (None, []))"

definition scan :: "scanner \<Rightarrow> bool \<times> scanner" where
  "scan s =
     (if sc_done s then (False, s)
      else case read_full 4 (sc_r s) of
        (None, r) \<Rightarrow> (False, s\<lparr>sc_r := r, sc_done := True\<rparr>)
      | (Some lenBuf, r) \<Rightarrow>
          let s = s\<lparr>sc_r := r\<rparr> in
          (case parse_int 16 32 lenBuf of
             None \<Rightarrow> (False, s\<lparr>sc_err := Some (ParseLength lenBuf)\<rparr>)
           | Some n \<Rightarrow>
               if n = 0 then (True, s\<lparr>sc_line := []\<rparr>)
               else if n = 1 then (True, s\<lparr>sc_line := []\<rparr>)
               else if n = 2 then (True, s\<lparr>sc_line := []\<rparr>)
               else if n < 4 then (False, s\<lparr>sc_err := Some (InvalidLength n)\<rparr>)
               else case read_full (nat (n - 4)) r of
                 (None, r) \<Rightarrow> (False, s\<lparr>sc_r := r, sc_err := Some ReadData\<rparr>)
               | (Some data, r) \<Rightarrow>
                   (True, s\<lparr>sc_r := r, sc_line := trim_suffix data [CHR 0x0A]\<rparr>)))"

lemma read_full_Some [simp]:
  "read_full n r = (Some d, r') \<longleftrightarrow> r = d @ r' \<and> length d = n"
  by (auto simp: read_full_def)

lemma read_full_None: "read_full n r = (None, r') \<Longrightarrow> r' = [] \<and> length r < n"
  by (auto simp: read_full_def split: if_splits)

lemma read_full_append [simp]: "length d = n \<Longrightarrow> read_full n (d @ r) = (Some d, r)"
  by simp

lemma scan_True:
  assumes "scan s = (True, t)"
  obtains lenBuf r n where "sc_r s = lenBuf @ r" "length lenBuf = 4" "\<not> sc_done s"
    "parse_int 16 32 lenBuf = Some n"
    "(n \<in> {0, 1, 2} \<and> t = s\<lparr>sc_r := r, sc_line := []\<rparr>) \<or>
     (\<exists>data r'. 4 \<le> n \<and> r = data @ r' \<and> length data = nat (n - 4)
        \<and> t = s\<lparr>sc_r := r', sc_line := trim_suffix data [CHR 0x0A]\<rparr>)"
proof -
  from assms have nd: "\<not> sc_done s" by (auto simp: scan_def Let_def)
  obtain x r where rf: "read_full 4 (sc_r s) = (x, r)" by fastforce
  with assms nd obtain lenBuf where x: "x = Some lenBuf"
    by (cases x) (auto simp: scan_def Let_def)
  with rf have sr: "sc_r s = lenBuf @ r" "length lenBuf = 4" by auto
  with assms nd obtain n where n: "parse_int 16 32 lenBuf = Some n"
    by (cases "parse_int 16 32 lenBuf") (auto simp: scan_def Let_def)
  obtain y r' where rd: "read_full (nat (n - 4)) r = (y, r')" by fastforce
  show thesis
  proof (cases "n \<in> {0, 1, 2}")
    case True
    with assms nd sr n have "t = s\<lparr>sc_r := r, sc_line := []\<rparr>" by (auto simp: scan_def Let_def)
    with True show thesis using that [OF sr nd n] by blast
  next
    case False
    with assms nd sr n rd have "4 \<le> n" by (auto simp: scan_def Let_def split: if_splits)
    moreover from this False assms nd sr n rd obtain data where "y = Some data"
      by (cases y) (auto simp: scan_def Let_def)
    ultimately show thesis using that [OF sr nd n] False assms nd sr n rd
      by (auto simp: scan_def Let_def)
  qed
qed

lemma scan_decreases: "scan s = (True, t) \<Longrightarrow> length (sc_r t) < length (sc_r s)"
  by (erule scan_True) auto

lemma scan_takes_four: "scan s = (True, t) \<Longrightarrow> length (sc_r t) + 4 \<le> length (sc_r s)"
  by (erule scan_True) auto

lemma scan_stops: "\<exists>n \<le> length (sc_r s) div 4. \<not> fst (scan (((\<lambda>s. snd (scan s)) ^^ n) s))"
proof (induction s rule: measure_induct_rule [where f = "\<lambda>s. length (sc_r s)"])
  case (less s)
  obtain b t where sc: "scan s = (b, t)" by fastforce
  show ?case
  proof (cases b)
    case False
    then show ?thesis using sc by (intro exI [of _ 0]) simp
  next
    case True
    then have sc: "scan s = (True, t)" using sc by simp
    obtain n where "n \<le> length (sc_r t) div 4" "\<not> fst (scan (((\<lambda>s. snd (scan s)) ^^ n) t))"
      using less [OF scan_decreases [OF sc]] by blast
    then show ?thesis
      using scan_takes_four [OF sc] by (intro exI [of _ "Suc n"]) (simp add: sc funpow_Suc_right del: funpow.simps)
  qed
qed

lemma scan_True_err: "scan s = (True, t) \<Longrightarrow> sc_err t = sc_err s \<and> sc_done t = sc_done s"
  by (erule scan_True) auto

section \<open>Upload-pack requests\<close>

record upload_pack_request =
  wants :: "string list"
  isFreshClone :: bool
  isShallow :: bool
  isV2 :: bool
  v2Command :: string
  hasFilter :: bool

definition zero_request :: upload_pack_request where
  "zero_request = \<lparr>wants = [], isFreshClone = False, isShallow = False, isV2 = False,
     v2Command = [], hasFilter = False\<rparr>"

text \<open>\<open>if HasPrefix(line, "want ") \<dots>\<close>: append the second field, if there is one.\<close>

definition add_want :: "string \<Rightarrow> upload_pack_request \<Rightarrow> upload_pack_request" where
  "add_want line req =
     (if has_prefix line ''want ''
      then (case str_fields line of
              _ # w # _ \<Rightarrow> req\<lparr>wants := wants req @ [w]\<rparr>
            | _ \<Rightarrow> req)
      else req)"

text \<open>The two tests that set \<open>isShallow\<close>.\<close>

definition mark_shallow :: "string \<Rightarrow> upload_pack_request \<Rightarrow> upload_pack_request" where
  "mark_shallow line req =
     (let req = (if has_prefix line ''shallow '' then req\<lparr>isShallow := True\<rparr> else req)
      in if has_prefix line ''deepen'' then req\<lparr>isShallow := True\<rparr> else req)"

function v1_loop :: "scanner \<Rightarrow> nat \<Rightarrow> upload_pack_request \<Rightarrow>
    upload_pack_request \<times> pkt_error option" where
  "v1_loop s phase req =
     (case scan s of
        (False, s) \<Rightarrow> (req, sc_err s)
      | (True, s) \<Rightarrow>
          let line = sc_line s in
          if phase = 1 then
            (if line = [] then v1_loop s 2 req else v1_loop s phase (add_want line req))
          else
            (if has_prefix line ''have '' then (req\<lparr>isFreshClone := False\<rparr>, None)
             else
               let req = mark_shallow line req in
               if line = ''done'' \<or> line = []
               then (req\<lparr>isFreshClone := \<not> isShallow req\<rparr>, None)
               else v1_loop s phase req))"
  by pat_completeness auto
termination
  by (relation "measure (\<lambda>(s, phase, req). length (sc_r s))")
    (auto dest: scan_decreases [OF sym])

definition parse_upload_pack_request :: "bytes \<Rightarrow> upload_pack_request \<times> pkt_error option" where
  "parse_upload_pack_request body = v1_loop (new_scanner body) 1 zero_request"

function v2_loop :: "scanner \<Rightarrow> nat \<Rightarrow> upload_pack_request \<Rightarrow>
    upload_pack_request \<times> pkt_error option" where
  "v2_loop s phase req =
     (case scan s of
        (False, s) \<Rightarrow> (req, sc_err s)
      | (True, s) \<Rightarrow>
          let line = sc_line s in
          if phase = 1 then
            (if line = [] then v2_loop s 2 req
             else v2_loop s phase
               (case cut_prefix line ''command='' of
                  Some after \<Rightarrow> req\<lparr>v2Command := after\<rparr>
                | None \<Rightarrow> req))
          else
            let req = add_want line req in
            if has_prefix line ''have '' then (req\<lparr>isFreshClone := False\<rparr>, None)
            else
              let req = mark_shallow line req;
                  req = (if has_prefix line ''filter '' then req\<lparr>hasFilter := True\<rparr> else req)
              in if line = ''done'' \<or> line = []
                 then (if v2Command req = ''fetch''
                       then req\<lparr>isFreshClone := \<not> isShallow req \<and> \<not> hasFilter req\<rparr>
                       else req, None)
                 else v2_loop s phase req)"
  by pat_completeness auto
termination
  by (relation "measure (\<lambda>(s, phase, req). length (sc_r s))")
    (auto dest: scan_decreases [OF sym])

definition parse_v2_upload_pack_request ::
    "bytes \<Rightarrow> upload_pack_request \<times> pkt_error option" where
  "parse_v2_upload_pack_request body =
     v2_loop (new_scanner body) 1 (zero_request\<lparr>isV2 := True\<rparr>)"

declare v1_loop.simps [simp del] v2_loop.simps [simp del]

section \<open>The lines of a body\<close>

text \<open>
  What a client of the scanner sees: the lines \<open>Scan\<close> delivers until it returns false,
  and the error it stopped with. The parsers are functions of this list alone.
\<close>

function scan_lines :: "scanner \<Rightarrow> string list \<times> pkt_error option" where
  "scan_lines s =
     (case scan s of
        (False, s) \<Rightarrow> ([], sc_err s)
      | (True, s) \<Rightarrow> (case scan_lines s of (ls, e) \<Rightarrow> (sc_line s # ls, e)))"
  by pat_completeness auto
termination
  by (relation "measure (\<lambda>s. length (sc_r s))") (auto dest: scan_decreases [OF sym])

declare scan_lines.simps [simp del]

definition body_lines :: "bytes \<Rightarrow> string list \<times> pkt_error option" where
  "body_lines body = scan_lines (new_scanner body)"

definition ends_request :: "string \<Rightarrow> bool" where
  "ends_request l \<longleftrightarrow> l = ''done'' \<or> l = []"

definition incremental :: "string \<Rightarrow> bool" where
  "incremental l \<longleftrightarrow> has_prefix l ''have ''"

definition truncating :: "string \<Rightarrow> bool" where
  "truncating l \<longleftrightarrow> has_prefix l ''shallow '' \<or> has_prefix l ''deepen''"

definition filtering :: "string \<Rightarrow> bool" where
  "filtering l \<longleftrightarrow> has_prefix l ''filter ''"

fun v1_lines :: "nat \<Rightarrow> upload_pack_request \<Rightarrow> string list \<Rightarrow> pkt_error option \<Rightarrow>
    upload_pack_request \<times> pkt_error option" where
  "v1_lines phase req [] e = (req, e)"
| "v1_lines phase req (line # ls) e =
     (if phase = 1 then
        (if line = [] then v1_lines 2 req ls e else v1_lines phase (add_want line req) ls e)
      else if incremental line then (req\<lparr>isFreshClone := False\<rparr>, None)
      else if ends_request line
        then ((mark_shallow line req)\<lparr>isFreshClone := \<not> isShallow (mark_shallow line req)\<rparr>, None)
      else v1_lines phase (mark_shallow line req) ls e)"

definition mark_filter :: "string \<Rightarrow> upload_pack_request \<Rightarrow> upload_pack_request" where
  "mark_filter line req = (if filtering line then req\<lparr>hasFilter := True\<rparr> else req)"

definition v2_finish :: "upload_pack_request \<Rightarrow> upload_pack_request" where
  "v2_finish req =
     (if v2Command req = ''fetch''
      then req\<lparr>isFreshClone := \<not> isShallow req \<and> \<not> hasFilter req\<rparr> else req)"

fun v2_lines :: "nat \<Rightarrow> upload_pack_request \<Rightarrow> string list \<Rightarrow> pkt_error option \<Rightarrow>
    upload_pack_request \<times> pkt_error option" where
  "v2_lines phase req [] e = (req, e)"
| "v2_lines phase req (line # ls) e =
     (if phase = 1 then
        (if line = [] then v2_lines 2 req ls e
         else v2_lines phase
           (case cut_prefix line ''command='' of
              Some after \<Rightarrow> req\<lparr>v2Command := after\<rparr> | None \<Rightarrow> req) ls e)
      else if incremental line then ((add_want line req)\<lparr>isFreshClone := False\<rparr>, None)
      else if ends_request line
        then (v2_finish (mark_filter line (mark_shallow line (add_want line req))), None)
      else v2_lines phase (mark_filter line (mark_shallow line (add_want line req))) ls e)"

lemma v1_loop_lines:
  "v1_loop s phase req = (case scan_lines s of (ls, e) \<Rightarrow> v1_lines phase req ls e)"
proof (induction s arbitrary: phase req rule: measure_induct_rule [where f = "\<lambda>s. length (sc_r s)"])
  case (less s)
  obtain b t where sc: "scan s = (b, t)" by fastforce
  show ?case
  proof (cases b)
    case False
    with sc show ?thesis by (simp add: v1_loop.simps [of s] scan_lines.simps [of s])
  next
    case True
    with sc have sc: "scan s = (True, t)" by simp
    obtain ls e where tl: "scan_lines t = (ls, e)" by fastforce
    have IH: "v1_loop t phase req = v1_lines phase req ls e" for phase req
      using less [OF scan_decreases [OF sc]] tl by simp
    show ?thesis
      by (simp add: v1_loop.simps [of s] scan_lines.simps [of s] sc tl IH Let_def
        incremental_def ends_request_def)
  qed
qed

lemma v2_loop_lines:
  "v2_loop s phase req = (case scan_lines s of (ls, e) \<Rightarrow> v2_lines phase req ls e)"
proof (induction s arbitrary: phase req rule: measure_induct_rule [where f = "\<lambda>s. length (sc_r s)"])
  case (less s)
  obtain b t where sc: "scan s = (b, t)" by fastforce
  show ?case
  proof (cases b)
    case False
    with sc show ?thesis by (simp add: v2_loop.simps [of s] scan_lines.simps [of s])
  next
    case True
    with sc have sc: "scan s = (True, t)" by simp
    obtain ls e where tl: "scan_lines t = (ls, e)" by fastforce
    have IH: "v2_loop t phase req = v2_lines phase req ls e" for phase req
      using less [OF scan_decreases [OF sc]] tl by simp
    show ?thesis
      by (simp add: v2_loop.simps [of s] scan_lines.simps [of s] sc tl IH Let_def
        mark_filter_def v2_finish_def incremental_def ends_request_def filtering_def)
  qed
qed

lemma parse_upload_pack_lines:
  "parse_upload_pack_request body =
     (case body_lines body of (ls, e) \<Rightarrow> v1_lines 1 zero_request ls e)"
  by (simp add: parse_upload_pack_request_def body_lines_def v1_loop_lines)

lemma parse_v2_upload_pack_lines:
  "parse_v2_upload_pack_request body =
     (case body_lines body of (ls, e) \<Rightarrow> v2_lines 1 (zero_request\<lparr>isV2 := True\<rparr>) ls e)"
  by (simp add: parse_v2_upload_pack_request_def body_lines_def v2_loop_lines)

section \<open>Encoding\<close>

text \<open>The writer's side of the format: what a Git client sends.\<close>

definition hex_char :: "nat \<Rightarrow> char" where
  "hex_char d = (if d < 10 then char_of (48 + d) else char_of (87 + d))"

definition hex4 :: "nat \<Rightarrow> string" where
  "hex4 n = [hex_char (n div 4096 mod 16), hex_char (n div 256 mod 16),
             hex_char (n div 16 mod 16), hex_char (n mod 16)]"

definition pkt_line :: "string \<Rightarrow> bytes" where
  "pkt_line payload = hex4 (length payload + 4) @ payload"

definition flush_pkt :: bytes where "flush_pkt = ''0000''"

definition delim_pkt :: bytes where "delim_pkt = ''0001''"

lemma digit_val_hex_char [simp]: "d < 16 \<Longrightarrow> digit_val (hex_char d) = Some d"
  by (auto simp: digit_val_def hex_char_def Let_def)

lemma hex_char_no_sign:
  "d < 16 \<Longrightarrow> hex_char d \<noteq> CHR ''-''" "d < 16 \<Longrightarrow> hex_char d \<noteq> CHR ''+''"
  by (auto simp: hex_char_def dest!: arg_cong [where f = "of_char :: char \<Rightarrow> nat"])

lemma hex4_value:
  assumes "n < 65536"
  shows "((n div 4096 mod 16 * 16 + n div 256 mod 16) * 16 + n div 16 mod 16) * 16 + n mod 16 = (n::nat)"
proof -
  have "n div 4096 mod 16 = n div 4096" using assms by simp
  moreover have "n div 4096 * 16 + n div 256 mod 16 = n div 256"
    using div_mult_mod_eq [of "n div 256" 16] by (simp flip: div_mult2_eq)
  moreover have "n div 256 * 16 + n div 16 mod 16 = n div 16"
    using div_mult_mod_eq [of "n div 16" 16] by (simp flip: div_mult2_eq)
  moreover have "n div 16 * 16 + n mod 16 = n" by simp
  ultimately show ?thesis by simp
qed

lemma parse_hex4 [simp]: "n < 65536 \<Longrightarrow> parse_int 16 32 (hex4 n) = Some (int n)"
  using hex4_value [of n]
  by (simp add: parse_int_def hex4_def Let_def hex_char_no_sign)

lemma length_hex4 [simp]: "length (hex4 n) = 4"
  by (simp add: hex4_def)

lemma scan_pkt_line:
  assumes "length payload < 65532" "\<not> sc_done s" "sc_r s = pkt_line payload @ rest"
  shows "scan s = (True, s\<lparr>sc_r := rest, sc_line := trim_suffix payload [CHR 0x0A]\<rparr>)"
proof -
  have "read_full 4 (sc_r s) = (Some (hex4 (length payload + 4)), payload @ rest)"
    using assms(3) by (simp add: pkt_line_def)
  then show ?thesis using assms(1,2)
    by (simp add: scan_def Let_def)
qed

lemma scan_special:
  assumes "p \<in> {flush_pkt, delim_pkt}" "\<not> sc_done s" "sc_r s = p @ rest"
  shows "scan s = (True, s\<lparr>sc_r := rest, sc_line := []\<rparr>)"
proof -
  have "length p = 4" "parse_int 16 32 p = Some 0 \<or> parse_int 16 32 p = Some 1"
    using assms(1) by (auto simp: flush_pkt_def delim_pkt_def parse_int_def Let_def digit_val_def)
  moreover from this(1) have "read_full 4 (sc_r s) = (Some p, rest)"
    using assms(3) by simp
  ultimately show ?thesis using assms(2) by (auto simp: scan_def Let_def)
qed

text \<open>A packet as a client builds it, and the line the scanner makes of it.\<close>

datatype packet = Payload string | Flush | Delim

fun packet_bytes :: "packet \<Rightarrow> bytes" where
  "packet_bytes (Payload p) = pkt_line p"
| "packet_bytes Flush = flush_pkt"
| "packet_bytes Delim = delim_pkt"

fun packet_line :: "packet \<Rightarrow> string" where
  "packet_line (Payload p) = trim_suffix p [CHR 0x0A]"
| "packet_line Flush = []"
| "packet_line Delim = []"

definition packets_ok :: "packet list \<Rightarrow> bool" where
  "packets_ok ps = list_all (\<lambda>p. case p of Payload x \<Rightarrow> length x < 65532 | _ \<Rightarrow> True) ps"

lemma scan_packet:
  assumes "packets_ok [p]" "\<not> sc_done s" "sc_r s = packet_bytes p @ rest"
  shows "scan s = (True, s\<lparr>sc_r := rest, sc_line := packet_line p\<rparr>)"
  using assms scan_special [of "packet_bytes p" s rest]
  by (cases p) (auto simp: packets_ok_def scan_pkt_line)

lemma scan_lines_packets:
  "packets_ok ps \<Longrightarrow> \<not> sc_done s \<Longrightarrow> sc_err s = None \<Longrightarrow>
    sc_r s = concat (map packet_bytes ps) \<Longrightarrow> scan_lines s = (map packet_line ps, None)"
proof (induction ps arbitrary: s)
  case Nil
  then show ?case by (simp add: scan_lines.simps [of s] scan_def read_full_def)
next
  case (Cons p ps)
  let ?t = "s\<lparr>sc_r := concat (map packet_bytes ps), sc_line := packet_line p\<rparr>"
  have "scan s = (True, ?t)"
    using Cons.prems by (intro scan_packet) (auto simp: packets_ok_def)
  moreover have "scan_lines ?t = (map packet_line ps, None)"
    using Cons.prems by (intro Cons.IH) (auto simp: packets_ok_def)
  ultimately show ?case by (simp add: scan_lines.simps [of s])
qed

lemma body_lines_packets:
  "packets_ok ps \<Longrightarrow> body_lines (concat (map packet_bytes ps)) = (map packet_line ps, None)"
  by (simp add: body_lines_def new_scanner_def scan_lines_packets)

section \<open>When a request is a fresh clone\<close>

lemma add_want_fields [simp]:
  "isFreshClone (add_want l req) = isFreshClone req" "isShallow (add_want l req) = isShallow req"
  "hasFilter (add_want l req) = hasFilter req" "v2Command (add_want l req) = v2Command req"
  by (auto simp: add_want_def split: list.splits)

lemma mark_shallow_fields [simp]:
  "isFreshClone (mark_shallow l req) = isFreshClone req"
  "isShallow (mark_shallow l req) \<longleftrightarrow> isShallow req \<or> truncating l"
  "hasFilter (mark_shallow l req) = hasFilter req" "v2Command (mark_shallow l req) = v2Command req"
  "wants (mark_shallow l req) = wants req"
  by (auto simp: mark_shallow_def truncating_def Let_def)

lemma mark_filter_fields [simp]:
  "isFreshClone (mark_filter l req) = isFreshClone req" "isShallow (mark_filter l req) = isShallow req"
  "hasFilter (mark_filter l req) \<longleftrightarrow> hasFilter req \<or> filtering l"
  "v2Command (mark_filter l req) = v2Command req"
  by (auto simp: mark_filter_def)

lemma not_truncating_end: "ends_request l \<Longrightarrow> \<not> truncating l \<and> \<not> filtering l \<and> \<not> incremental l"
  by (auto simp: ends_request_def truncating_def filtering_def incremental_def)

text \<open>A list is cut at its first element with a property in one way only.\<close>

definition first_split :: "('a \<Rightarrow> bool) \<Rightarrow> ('a \<Rightarrow> bool) \<Rightarrow> 'a list \<Rightarrow> bool" where
  "first_split good stop ls \<longleftrightarrow> (\<exists>neg t post. ls = neg @ t # post \<and> stop t \<and> list_all good neg)"

lemma first_split_Cons:
  assumes "\<And>x. good x \<Longrightarrow> \<not> stop x"
  shows "first_split good stop (l # ls) \<longleftrightarrow> stop l \<or> good l \<and> first_split good stop ls"
proof
  assume "first_split good stop (l # ls)"
  then obtain neg t post where "l # ls = neg @ t # post" "stop t" "list_all good neg"
    unfolding first_split_def by blast
  then show "stop l \<or> good l \<and> first_split good stop ls"
    unfolding first_split_def by (cases neg) auto
next
  assume "stop l \<or> good l \<and> first_split good stop ls"
  then consider "stop l" | neg t post where "good l" "ls = neg @ t # post" "stop t" "list_all good neg"
    unfolding first_split_def by blast
  then show "first_split good stop (l # ls)"
  proof cases
    case 1
    then show ?thesis unfolding first_split_def by (intro exI [of _ "[]"]) auto
  next
    case (2 neg t post)
    then show ?thesis unfolding first_split_def by (intro exI [of _ "l # neg"]) auto
  qed
qed

lemma first_split_Nil [simp]: "\<not> first_split good stop []"
  by (simp add: first_split_def)

text \<open>The part before the first empty line, and the part after it.\<close>

definition sectioned :: "(string list \<Rightarrow> string list \<Rightarrow> bool) \<Rightarrow> string list \<Rightarrow> bool" where
  "sectioned Q ls \<longleftrightarrow>
     (\<exists>pre rest. ls = pre @ [] # rest \<and> list_all (\<lambda>l. l \<noteq> []) pre \<and> Q pre rest)"

lemma sectioned_Nil [simp]: "\<not> sectioned Q []"
  by (simp add: sectioned_def)

lemma sectioned_empty [simp]: "sectioned Q ([] # ls) \<longleftrightarrow> Q [] ls"
proof
  assume "sectioned Q ([] # ls)"
  then obtain pre rest where "[] # ls = pre @ [] # rest" "list_all (\<lambda>l. l \<noteq> []) pre" "Q pre rest"
    unfolding sectioned_def by blast
  then show "Q [] ls" by (cases pre) auto
qed (force simp: sectioned_def)

lemma sectioned_Cons [simp]:
  assumes "l \<noteq> []"
  shows "sectioned Q (l # ls) \<longleftrightarrow> sectioned (\<lambda>pre. Q (l # pre)) ls"
proof
  assume "sectioned Q (l # ls)"
  then obtain pre rest where "l # ls = pre @ [] # rest" "list_all (\<lambda>l. l \<noteq> []) pre" "Q pre rest"
    unfolding sectioned_def by blast
  with assms show "sectioned (\<lambda>pre. Q (l # pre)) ls"
    unfolding sectioned_def by (cases pre) auto
next
  assume "sectioned (\<lambda>pre. Q (l # pre)) ls"
  then obtain pre rest where "ls = pre @ [] # rest" "list_all (\<lambda>l. l \<noteq> []) pre" "Q (l # pre) rest"
    unfolding sectioned_def by blast
  with assms show "sectioned Q (l # ls)"
    unfolding sectioned_def by (intro exI [of _ "l # pre"] exI [of _ rest]) simp
qed

definition v1_plain :: "string \<Rightarrow> bool" where
  "v1_plain l \<longleftrightarrow> \<not> incremental l \<and> \<not> truncating l \<and> \<not> ends_request l"

definition v2_plain :: "string \<Rightarrow> bool" where
  "v2_plain l \<longleftrightarrow> v1_plain l \<and> \<not> filtering l"

lemma v1_shallow_sticks:
  "isShallow req \<Longrightarrow> \<not> isFreshClone req \<Longrightarrow> phase \<noteq> 1 \<Longrightarrow>
    \<not> isFreshClone (fst (v1_lines phase req ls e))"
  by (induction phase req ls e rule: v1_lines.induct) auto

lemma v1_phase2:
  "\<not> isFreshClone req \<Longrightarrow> \<not> isShallow req \<Longrightarrow> phase \<noteq> 1 \<Longrightarrow>
    isFreshClone (fst (v1_lines phase req ls e)) \<longleftrightarrow> first_split v1_plain ends_request ls"
proof (induction phase req ls e rule: v1_lines.induct)
  case (1 phase req e)
  then show ?case by simp
next
  case (2 phase req l ls e)
  have split: "first_split v1_plain ends_request (l # ls) \<longleftrightarrow>
      ends_request l \<or> v1_plain l \<and> first_split v1_plain ends_request ls"
    by (rule first_split_Cons) (simp add: v1_plain_def)
  consider "incremental l" | "ends_request l"
    | "\<not> incremental l" "\<not> ends_request l" "truncating l" | "v1_plain l"
    by (auto simp: v1_plain_def)
  then show ?case
  proof cases
    case 1
    with split not_truncating_end [of l]
    have "\<not> first_split v1_plain ends_request (l # ls)"
      by (auto simp: v1_plain_def)
    with 1 "2.prems" show ?thesis by simp
  next
    case e: 2
    with 2 split not_truncating_end [OF e] show ?thesis
      by auto
  next
    case 3
    with 2 split v1_shallow_sticks [of "mark_shallow l req" phase ls e] v1_plain_def [of l]
    show ?thesis by simp
  next
    case 4
    with 2 split v1_plain_def [of l] show ?thesis by simp
  qed
qed

lemma v1_phase1:
  "\<not> isFreshClone req \<Longrightarrow> \<not> isShallow req \<Longrightarrow>
    isFreshClone (fst (v1_lines 1 req ls e)) \<longleftrightarrow>
      sectioned (\<lambda>pre rest. first_split v1_plain ends_request rest) ls"
proof (induction ls arbitrary: req)
  case Nil
  then show ?case by simp
next
  case (Cons l ls)
  then show ?case by (cases "l = []") (simp_all add: v1_phase2)
qed

text \<open>The value of the last \<open>command=\<close> line of a section, or \<open>cmd\<close>.\<close>

definition v2_command_of :: "string \<Rightarrow> string list \<Rightarrow> string" where
  "v2_command_of cmd pre =
     fold (\<lambda>l cmd. case cut_prefix l ''command='' of Some a \<Rightarrow> a | None \<Rightarrow> cmd) pre cmd"

lemma v2_not_fresh:
  "isShallow req \<or> hasFilter req \<or> v2Command req \<noteq> ''fetch'' \<Longrightarrow> \<not> isFreshClone req \<Longrightarrow>
    phase \<noteq> 1 \<Longrightarrow> \<not> isFreshClone (fst (v2_lines phase req ls e))"
  by (induction phase req ls e rule: v2_lines.induct) (auto simp: v2_finish_def)

lemma v2_phase2:
  "\<not> isFreshClone req \<Longrightarrow> \<not> isShallow req \<Longrightarrow> \<not> hasFilter req \<Longrightarrow> v2Command req = ''fetch'' \<Longrightarrow>
    phase \<noteq> 1 \<Longrightarrow>
    isFreshClone (fst (v2_lines phase req ls e)) \<longleftrightarrow> first_split v2_plain ends_request ls"
proof (induction phase req ls e rule: v2_lines.induct)
  case (1 phase req e)
  then show ?case by simp
next
  case (2 phase req l ls e)
  have split: "first_split v2_plain ends_request (l # ls) \<longleftrightarrow>
      ends_request l \<or> v2_plain l \<and> first_split v2_plain ends_request ls"
    by (rule first_split_Cons) (simp add: v1_plain_def v2_plain_def)
  let ?req = "mark_filter l (mark_shallow l (add_want l req))"
  consider "incremental l" | "ends_request l"
    | "\<not> incremental l" "\<not> ends_request l" "truncating l \<or> filtering l" | "v2_plain l"
    by (auto simp: v1_plain_def v2_plain_def)
  then show ?case
  proof cases
    case 1
    with split not_truncating_end [of l]
    have "\<not> first_split v2_plain ends_request (l # ls)"
      by (auto simp: v1_plain_def v2_plain_def)
    with 1 "2.prems" show ?thesis by simp
  next
    case e: 2
    with 2 split not_truncating_end [OF e] show ?thesis
      by (auto simp: v2_finish_def)
  next
    case 3
    with 2 split v2_not_fresh [of ?req phase ls e] v1_plain_def [of l] v2_plain_def [of l]
    show ?thesis by auto
  next
    case 4
    with 2 split v1_plain_def [of l] v2_plain_def [of l] show ?thesis by simp
  qed
qed

lemma v2_phase1:
  "\<not> isFreshClone req \<Longrightarrow> \<not> isShallow req \<Longrightarrow> \<not> hasFilter req \<Longrightarrow>
    isFreshClone (fst (v2_lines 1 req ls e)) \<longleftrightarrow>
      sectioned (\<lambda>pre rest. v2_command_of (v2Command req) pre = ''fetch''
         \<and> first_split v2_plain ends_request rest) ls"
proof (induction ls arbitrary: req)
  case Nil
  then show ?case by simp
next
  case (Cons l ls)
  show ?case
  proof (cases "l = []")
    case True
    with Cons.prems show ?thesis
      by (cases "v2Command req = ''fetch''")
        (simp_all add: v2_phase2 v2_not_fresh v2_command_of_def)
  next
    case False
    with Cons show ?thesis by (simp add: v2_command_of_def split: option.split)
  qed
qed

lemma v1_lines_section:
  "list_all (\<lambda>l. l \<noteq> []) pre \<Longrightarrow> v1_lines 1 req (pre @ [] # rest) e = v1_lines 2 (fold add_want pre req) rest e"
  by (induction pre arbitrary: req) auto

lemma body_lines_zero:
  "parse_upload_pack_request body = v1_lines 1 zero_request (fst (body_lines body)) (snd (body_lines body))"
  "parse_v2_upload_pack_request body =
     v2_lines 1 (zero_request\<lparr>isV2 := True\<rparr>) (fst (body_lines body)) (snd (body_lines body))"
  by (simp_all add: parse_upload_pack_lines parse_v2_upload_pack_lines case_prod_beta)

lemma zero_request_fields [simp]:
  "isFreshClone zero_request = False" "isShallow zero_request = False"
  "hasFilter zero_request = False" "v2Command zero_request = []" "wants zero_request = []"
  by (simp_all add: zero_request_def)

lemma fold_add_want_fields [simp]:
  "isFreshClone (fold add_want ls req) = isFreshClone req"
  "isShallow (fold add_want ls req) = isShallow req"
  by (induction ls arbitrary: req) auto

text \<open>The second field of every \<open>want\<close> line that has one.\<close>

definition want_of :: "string \<Rightarrow> string list" where
  "want_of l = (if has_prefix l ''want '' then take 1 (drop 1 (str_fields l)) else [])"

lemma fold_add_want_zero:
  "fold add_want ls req = req\<lparr>wants := wants req @ concat (map want_of ls)\<rparr>"
proof (induction ls arbitrary: req)
  case Nil
  show ?case by simp
next
  case (Cons l ls)
  have "add_want l req = req\<lparr>wants := wants req @ want_of l\<rparr>"
    by (auto simp: add_want_def want_of_def split: list.splits)
  with Cons show ?case by simp
qed

section \<open>Properties\<close>

text \<open>C35: The parsing loops end. On every body, whatever its bytes, \<open>Scan\<close> returns false after at
  most a quarter of the body's length many passes.\<close>

theorem parsing_terminates:
  "\<exists>n \<le> length body div 4. \<not> fst (scan (((\<lambda>s. snd (scan s)) ^^ n) (new_scanner body)))"
  using scan_stops [of "new_scanner body"] by (simp add: new_scanner_def)

text \<open>C30: Whatever packets a client writes (payloads up to the 65531 bytes four hexadecimal digits
  can announce, flush and delimiter packets, in any order), the scanner delivers exactly their
  lines, without the length and the trailing newline, and stops without an error.\<close>

theorem packets_roundtrip:
  assumes "packets_ok ps"
  shows "body_lines (concat (map packet_bytes ps)) = (map packet_line ps, None)"
  using assms by (rule body_lines_packets)

theorem packets_roundtrip_witness:
  "body_lines (concat (map packet_bytes [Payload ''command=fetch'', Delim, Payload ''want a'', Flush]))
     = (map packet_line [Payload ''command=fetch'', Delim, Payload ''want a'', Flush], None)"
  by (rule packets_roundtrip) (simp add: packets_ok_def)


text \<open>C19: A protocol v2 request is classified as a fresh clone exactly when its last command line
  says \<open>fetch\<close> and its arguments up to \<open>done\<close> or an empty line hold no \<open>have\<close>,
  \<open>shallow\<close>, \<open>deepen\<close> or \<open>filter\<close> line.\<close>

theorem v2_fresh_clone_iff:
  "isFreshClone (fst (parse_v2_upload_pack_request body)) \<longleftrightarrow>
     (\<exists>pre plain end post.
        fst (body_lines body) = pre @ [] # plain @ end # post
        \<and> list_all (\<lambda>l. l \<noteq> []) pre \<and> v2_command_of [] pre = ''fetch''
        \<and> list_all v2_plain plain \<and> ends_request end)"
  unfolding body_lines_zero(2) by (subst v2_phase1) (simp_all add: sectioned_def first_split_def, blast)

text \<open>In protocol v1 the lines before the first flush packet only contribute wants. A request
  whose first section asks for a limited depth (where Git clients write \<open>shallow\<close>,
  \<open>deepen\<close> and \<open>filter\<close>) and that goes on with \<open>done\<close> is therefore a fresh, not a shallow,
  clone to the parser: it has the classification of the same request without the limit.\<close>

theorem v1_first_section_only_wants:
  assumes "packets_ok ps" "list_all (\<lambda>p. packet_line p \<noteq> []) ps"
  shows "parse_upload_pack_request
           (concat (map packet_bytes (ps @ [Flush, Payload ''done''])))
         = (zero_request\<lparr>wants := concat (map (want_of \<circ> packet_line) ps), isFreshClone := True\<rparr>,
            None)"
proof -
  have "list_all (\<lambda>l. l \<noteq> []) (map packet_line ps)"
    using assms(2) by (simp add: list_all_iff)
  moreover have "packets_ok (ps @ [Flush, Payload ''done''])"
    using assms(1) by (simp add: packets_ok_def)
  then have "body_lines (concat (map packet_bytes (ps @ [Flush, Payload ''done''])))
      = (map packet_line (ps @ [Flush, Payload ''done'']), None)"
    by (rule body_lines_packets)
  ultimately have "parse_upload_pack_request (concat (map packet_bytes (ps @ [Flush, Payload ''done''])))
      = v1_lines 2 (fold add_want (map packet_line ps) zero_request)
          [trim_suffix ''done'' [CHR 0x0A]] None"
    using v1_lines_section [of "map packet_line ps" zero_request] by (simp add: body_lines_zero)
  moreover have "trim_suffix ''done'' [CHR 0x0A] = ''done''"
    by (simp add: trim_suffix_def has_suffix_def)
  ultimately show ?thesis
    by (simp add: incremental_def ends_request_def mark_shallow_def fold_add_want_zero)
qed

theorem v1_first_section_only_wants_witness:
  "parse_upload_pack_request
     (concat (map packet_bytes ([Payload ''want 1f'', Payload ''deepen 1''] @ [Flush, Payload ''done''])))
   = (zero_request\<lparr>wants := concat (map (want_of \<circ> packet_line) [Payload ''want 1f'', Payload ''deepen 1'']),
        isFreshClone := True\<rparr>, None)"
  by (rule v1_first_section_only_wants)
    (simp_all add: packets_ok_def trim_suffix_def)

end
