(* ===== verification/Disk_Cache.thy ===== *)
theory Disk_Cache
  imports Go_Strings Go_Float
begin

text \<open>
  The disk cache of \<^verbatim>\<open>cache/cache.go\<close>: the in-memory index with its size account, the
  SQLite table that mirrors it, and the files under the cache directory. One definition per
  method; every method is one atomic step, as the mutex makes it (\<open>Put\<close> and
  \<open>RegisterAfterStream\<close> release the mutex between storing and evicting; their two halves
  are definitions of their own).

  A Go map is an association list with distinct keys: its order is the order one iteration
  visits the keys in, so a statement about every list is a statement about every iteration
  order. What the operating system and the standard library decide is in the record
  \<open>world\<close>, an argument of the operations: which removals, opens and SQL statements succeed,
  the digest, and the permutations \<open>sort.Slice\<close> (which is not stable) produces. Times and
  durations are nanoseconds; sizes are byte counts far below the range of \<open>int64\<close>.
  Each operation reads the clock once. Log output is left out.
\<close>

section \<open>State\<close>

record entry =
  e_key :: string
  e_path :: string
  e_size :: int
  createdAt :: int
  accessedAt :: int
  expiresAt :: "int option"    \<comment> \<open>\<open>None\<close> is the zero time: never expires\<close>

record db_row =
  r_path :: string
  r_size :: int
  r_created :: int
  r_accessed :: int
  r_expires :: int             \<comment> \<open>0: never expires\<close>

type_synonym file_system = "(string \<times> bytes) list"

record cache =
  c_dir :: string
  c_maxSize :: int
  c_ttl :: int
  c_softEvictPercent :: rat    \<comment> \<open>a \<open>float64\<close>; 0: disabled\<close>
  c_entries :: "(string \<times> entry) list"
  c_totalSize :: int
  c_db :: "(string \<times> db_row) list option"
  c_files :: file_system

record world =
  hashKey :: "string \<Rightarrow> string"              \<comment> \<open>hex SHA-256\<close>
  rm_ok :: "string \<Rightarrow> bool"                  \<comment> \<open>\<open>os.Remove\<close> of this path succeeds\<close>
  open_ok :: "string \<Rightarrow> bool"                \<comment> \<open>\<open>os.Open\<close> of this existing file succeeds\<close>
  sql_ok :: "string \<Rightarrow> bool"                 \<comment> \<open>the statement about this key succeeds\<close>
  scan_ok :: "string \<Rightarrow> bool"                \<comment> \<open>\<open>rows.Scan\<close> of this key's row succeeds\<close>
  by_access :: "entry list \<Rightarrow> entry list"    \<comment> \<open>\<open>sort.Slice\<close> on \<open>accessedAt\<close>\<close>
  by_creation :: "entry list \<Rightarrow> entry list"  \<comment> \<open>\<open>sort.Slice\<close> on \<open>createdAt\<close>\<close>

text \<open>What \<open>sort.Slice\<close> promises for a comparison of a key.\<close>

definition sorts_by :: "(entry \<Rightarrow> int) \<Rightarrow> (entry list \<Rightarrow> entry list) \<Rightarrow> bool" where
  "sorts_by f srt \<longleftrightarrow> (\<forall>xs. mset (srt xs) = mset xs \<and> sorted (map f (srt xs)))"

definition world_ok :: "world \<Rightarrow> bool" where
  "world_ok w \<longleftrightarrow> sorts_by accessedAt (by_access w) \<and> sorts_by createdAt (by_creation w)"

section \<open>Removing\<close>

definition os_remove :: "world \<Rightarrow> string \<Rightarrow> file_system \<Rightarrow> file_system" where
  "os_remove w p fs = (if rm_ok w p then AList.delete p fs else fs)"

definition db_delete :: "world \<Rightarrow> string \<Rightarrow> cache \<Rightarrow> cache" where
  "db_delete w key c =
     (case c_db c of
        None \<Rightarrow> c
      | Some t \<Rightarrow> if sql_ok w key then c\<lparr>c_db := Some (AList.delete key t)\<rparr> else c)"

definition removeLocked :: "world \<Rightarrow> entry \<Rightarrow> cache \<Rightarrow> cache" where
  "removeLocked w e c =
     db_delete w (e_key e)
       (c\<lparr>c_files := os_remove w (e_path e) (c_files c),
          c_totalSize := c_totalSize c - e_size e,
          c_entries := AList.delete (e_key e) (c_entries c)\<rparr>)"

definition remove :: "world \<Rightarrow> string \<Rightarrow> cache \<Rightarrow> cache" where
  "remove w key c =
     (case map_of (c_entries c) key of Some e \<Rightarrow> removeLocked w e c | None \<Rightarrow> c)"

text \<open>The loops of \<open>RemoveByPrefix\<close>, \<open>RemoveMatching\<close> and \<open>evictExpired\<close>.\<close>

fun remove_loop :: "world \<Rightarrow> (string \<Rightarrow> entry \<Rightarrow> bool) \<Rightarrow> (string \<times> entry) list \<Rightarrow> cache \<Rightarrow> nat \<Rightarrow> nat \<times> cache"
where
  "remove_loop w P [] c removed = (removed, c)"
| "remove_loop w P ((key, e) # es) c removed =
     (if P key e then remove_loop w P es (removeLocked w e c) (Suc removed)
      else remove_loop w P es c removed)"

text \<open>SQLite's \<open>LIKE\<close>: \<open>%\<close> is any text, \<open>_\<close> any character, ASCII letters match in either case.\<close>

fun sql_like :: "string \<Rightarrow> string \<Rightarrow> bool" where
  "sql_like [] s = (s = [])"
| "sql_like (p # ps) [] = (p = CHR ''%'' \<and> sql_like ps [])"
| "sql_like (p # ps) (c # cs) =
     (if p = CHR ''%'' then sql_like ps (c # cs) \<or> sql_like (p # ps) cs
      else (p = CHR ''_'' \<or> lower_char p = lower_char c) \<and> sql_like ps cs)"

definition removeByPrefix :: "world \<Rightarrow> string \<Rightarrow> cache \<Rightarrow> nat \<times> cache" where
  "removeByPrefix w pre c =
     (let (removed, c) = remove_loop w (\<lambda>key e. has_prefix key pre) (c_entries c) c 0
      in (removed,
          case c_db c of
            None \<Rightarrow> c
          | Some t \<Rightarrow>
              if sql_ok w (pre @ ''%'')
              then c\<lparr>c_db := Some (filter (\<lambda>r. \<not> sql_like (pre @ ''%'') (fst r)) t)\<rparr>
              else c))"

definition removeMatching :: "world \<Rightarrow> (string \<Rightarrow> bool) \<Rightarrow> cache \<Rightarrow> nat \<times> cache" where
  "removeMatching w match c = remove_loop w (\<lambda>key e. match key) (c_entries c) c 0"

text \<open>\<open>Clear\<close>; the flag says whether reopening the database succeeds. \<open>os.RemoveAll\<close> is best
  effort: the argument \<open>left\<close> tells which files survive it.\<close>

definition openMetadataDB :: "bool \<Rightarrow> (string \<times> db_row) list \<Rightarrow> (string \<times> db_row) list option" where
  "openMetadataDB ok stored = (if ok then Some stored else None)"

definition clear :: "bool \<Rightarrow> (string \<Rightarrow> bool) \<Rightarrow> (string \<times> db_row) list \<Rightarrow> cache \<Rightarrow> (nat \<times> int) \<times> cache" where
  "clear reopen_ok left stored c =
     ((length (c_entries c), c_totalSize c),
      c\<lparr>c_entries := [], c_totalSize := 0,
         c_files := filter (\<lambda>f. left (fst f)) (c_files c),
         c_db := openMetadataDB reopen_ok stored\<rparr>)"

definition stop :: "cache \<Rightarrow> cache" where
  "stop c = c\<lparr>c_db := None\<rparr>"

definition cache_size :: "cache \<Rightarrow> int" where "cache_size c = c_totalSize c"
definition cache_len :: "cache \<Rightarrow> nat" where "cache_len c = length (c_entries c)"

section \<open>Eviction\<close>

definition expired :: "int \<Rightarrow> entry \<Rightarrow> bool" where
  "expired now e = (case expiresAt e of None \<Rightarrow> False | Some t \<Rightarrow> t < now)"

definition evictExpired :: "world \<Rightarrow> int \<Rightarrow> cache \<Rightarrow> cache" where
  "evictExpired w now c = snd (remove_loop w (\<lambda>key e. expired now e) (c_entries c) c 0)"

fun evict_loop :: "world \<Rightarrow> int \<Rightarrow> entry list \<Rightarrow> cache \<Rightarrow> cache" where
  "evict_loop w limit [] c = c"
| "evict_loop w limit (e # es) c =
     (if c_totalSize c \<le> limit then c else evict_loop w limit es (removeLocked w e c))"

definition evictLRU :: "world \<Rightarrow> cache \<Rightarrow> cache" where
  "evictLRU w c =
     (if c_maxSize c \<le> 0 \<or> c_totalSize c \<le> c_maxSize c then c
      else evict_loop w (c_maxSize c) (by_access w (map snd (c_entries c))) c)"

text \<open>\<open>int64(float64(maxSize) * softEvictPercent)\<close>\<close>

definition soft_threshold :: "int \<Rightarrow> rat \<Rightarrow> int" where
  "soft_threshold maxSize percent = int_of_f64 (f64_mult (f64_of_int maxSize) percent)"

definition softEvictByAge :: "world \<Rightarrow> cache \<Rightarrow> cache" where
  "softEvictByAge w c =
     (if c_softEvictPercent c \<le> 0 \<or> c_maxSize c \<le> 0 then c
      else
        let threshold = soft_threshold (c_maxSize c) (c_softEvictPercent c)
        in if c_totalSize c \<le> threshold then c
           else evict_loop w threshold (by_creation w (map snd (c_entries c))) c)"

text \<open>One tick of \<open>evictionLoop\<close>.\<close>

definition eviction_tick :: "world \<Rightarrow> int \<Rightarrow> cache \<Rightarrow> cache" where
  "eviction_tick w now c =
     (let c = evictExpired w now c
      in if 0 < c_maxSize c then evictLRU w (softEvictByAge w c) else c)"

section \<open>Looking up and storing\<close>

definition get :: "world \<Rightarrow> int \<Rightarrow> string \<Rightarrow> cache \<Rightarrow> string option \<times> cache" where
  "get w now key c =
     (case map_of (c_entries c) key of
        None \<Rightarrow> (None, c)
      | Some e \<Rightarrow>
          if expired now e then (None, removeLocked w e c)
          else
            let updateAccessInDB = (60 * 10 ^ 9 < now - accessedAt e);
                c = c\<lparr>c_entries := AList.update key (e\<lparr>accessedAt := now\<rparr>) (c_entries c)\<rparr>;
                c = (case c_db c of
                       None \<Rightarrow> c
                     | Some t \<Rightarrow>
                         if updateAccessInDB \<and> sql_ok w key
                         then c\<lparr>c_db := Some (case map_of t key of
                                  None \<Rightarrow> t
                                | Some r \<Rightarrow> AList.update key (r\<lparr>r_accessed := now\<rparr>) t)\<rparr>
                         else c)
            in (Some (e_path e), c))"

definition timeToUnixNano :: "int option \<Rightarrow> int" where
  "timeToUnixNano t = (case t of None \<Rightarrow> 0 | Some n \<Rightarrow> n)"

definition row_of :: "entry \<Rightarrow> db_row" where
  "row_of e = \<lparr>r_path = e_path e, r_size = e_size e, r_created = createdAt e,
     r_accessed = accessedAt e, r_expires = timeToUnixNano (expiresAt e)\<rparr>"

text \<open>The critical section of \<open>Put\<close> and of \<open>RegisterAfterStream\<close>.\<close>

definition store_entry :: "world \<Rightarrow> string \<Rightarrow> entry \<Rightarrow> cache \<Rightarrow> cache" where
  "store_entry w key e c =
     (let c = (case map_of (c_entries c) key of
                 Some old \<Rightarrow> c\<lparr>c_totalSize := c_totalSize c - e_size old\<rparr>
               | None \<Rightarrow> c);
          c = c\<lparr>c_entries := AList.update key e (c_entries c)\<rparr>;
          c = c\<lparr>c_totalSize := c_totalSize c + e_size e\<rparr>
      in case c_db c of
           None \<Rightarrow> c
         | Some t \<Rightarrow> if sql_ok w key then c\<lparr>c_db := Some (AList.update key (row_of e) t)\<rparr> else c)"

definition entry_path :: "world \<Rightarrow> string \<Rightarrow> string \<Rightarrow> string" where
  "entry_path w d key = d @ ''/'' @ take 2 (hashKey w key) @ ''/'' @ hashKey w key"

text \<open>How far the file operations of one \<open>Put\<close> get: the first one that fails, the name of
  its temporary file and what had been written to it by then.\<close>

datatype put_fault = NoFault | MkdirFault | CreateTempFault | CopyFault | CloseFault | RenameFault

record put_io =
  pi_fault :: put_fault
  pi_tmp :: string
  pi_partial :: bytes

datatype put_error = MkdirFailed | CreateTempFailed | WriteFailed | CloseFailed | RenameFailed

text \<open>The deferred cleanup of a failed \<open>Put\<close>.\<close>

definition drop_tmp :: "world \<Rightarrow> put_io \<Rightarrow> bytes \<Rightarrow> cache \<Rightarrow> cache" where
  "drop_tmp w io content c =
     c\<lparr>c_files := os_remove w (pi_tmp io) (AList.update (pi_tmp io) content (c_files c))\<rparr>"

definition effective_expiry :: "int \<Rightarrow> int \<Rightarrow> int \<Rightarrow> int option" where
  "effective_expiry default_ttl now ttl =
     (let effectiveTTL = (if ttl = 0 then default_ttl else ttl)
      in if 0 < effectiveTTL then Some (now + effectiveTTL) else None)"

definition put_store :: "world \<Rightarrow> int \<Rightarrow> string \<Rightarrow> bytes \<Rightarrow> int \<Rightarrow> put_io \<Rightarrow> cache \<Rightarrow>
    (put_error + string) \<times> cache" where
  "put_store w now key data ttl io c =
     (let finalPath = entry_path w (c_dir c) key in
      case pi_fault io of
        MkdirFault \<Rightarrow> (Inl MkdirFailed, c)
      | CreateTempFault \<Rightarrow> (Inl CreateTempFailed, c)
      | CopyFault \<Rightarrow> (Inl WriteFailed, drop_tmp w io (pi_partial io) c)
      | CloseFault \<Rightarrow> (Inl CloseFailed, drop_tmp w io data c)
      | RenameFault \<Rightarrow> (Inl RenameFailed, drop_tmp w io data c)
      | NoFault \<Rightarrow>
          (Inr finalPath,
           store_entry w key
             \<lparr>e_key = key, e_path = finalPath, e_size = int (length data), createdAt = now,
              accessedAt = now, expiresAt = effective_expiry (c_ttl c) now ttl\<rparr>
             (c\<lparr>c_files := AList.update finalPath data (c_files c)\<rparr>)))"

definition put :: "world \<Rightarrow> int \<Rightarrow> string \<Rightarrow> bytes \<Rightarrow> int \<Rightarrow> put_io \<Rightarrow> cache \<Rightarrow>
    (put_error + string) \<times> cache" where
  "put w now key data ttl io c =
     (case put_store w now key data ttl io c of
        (Inl err, c) \<Rightarrow> (Inl err, c)
      | (Inr finalPath, c) \<Rightarrow> (Inr finalPath, if 0 < c_maxSize c then evictLRU w c else c))"

definition registerAfterStream :: "world \<Rightarrow> int \<Rightarrow> string \<Rightarrow> string \<Rightarrow> int \<Rightarrow> cache \<Rightarrow> cache" where
  "registerAfterStream w now key finalPath n c =
     (let c = store_entry w key
                \<lparr>e_key = key, e_path = finalPath, e_size = n, createdAt = now,
                 accessedAt = now,
                 expiresAt = (if 0 < c_ttl c then Some (now + c_ttl c) else None)\<rparr> c
      in if 0 < c_maxSize c then evictLRU w c else c)"

section \<open>GetOrFetch, called by one goroutine\<close>

text \<open>What the caller's \<open>fetch\<close> does when it is called.\<close>

datatype 'e fetch_result =
    FetchErr 'e
  | FetchPanic
  | Fetched bytes int put_io   \<comment> \<open>the reader's bytes, the TTL, the fate of the \<open>Put\<close>\<close>

datatype 'e cache_error = FetchFailed 'e | FetchPanicked | PutFailed put_error | OpenFailed

definition doFetch :: "world \<Rightarrow> int \<Rightarrow> string \<Rightarrow> 'e fetch_result \<Rightarrow> cache \<Rightarrow>
    ('e cache_error + string) \<times> cache" where
  "doFetch w now key fetch c =
     (case fetch of
        FetchErr e \<Rightarrow> (Inl (FetchFailed e), c)
      | FetchPanic \<Rightarrow> (Inl FetchPanicked, c)
      | Fetched reader ttl io \<Rightarrow>
          (case put w now key reader ttl io c of
             (Inl e, c) \<Rightarrow> (Inl (PutFailed e), c)
           | (Inr path, c) \<Rightarrow> (Inr path, c)))"

definition os_open :: "world \<Rightarrow> string \<Rightarrow> cache \<Rightarrow> bytes option" where
  "os_open w path c = (if open_ok w path then map_of (c_files c) path else None)"

text \<open>The second component says whether \<open>fetch\<close> was called.\<close>

definition getOrFetch :: "world \<Rightarrow> int \<Rightarrow> string \<Rightarrow> 'e fetch_result \<Rightarrow> cache \<Rightarrow>
    ('e cache_error + bytes) \<times> bool \<times> cache" where
  "getOrFetch w now key fetch c =
     (let (hit, c) = get w now key c;
          (file, c) = (case hit of
             None \<Rightarrow> (None, c)
           | Some path \<Rightarrow>
               (case os_open w path c of
                  Some f \<Rightarrow> (Some f, c)
                | None \<Rightarrow> (None, remove w key c)))
      in case file of
           Some f \<Rightarrow> (Inr f, False, c)
         | None \<Rightarrow>
             (case doFetch w now key fetch c of
                (Inl e, c) \<Rightarrow> (Inl e, True, c)
              | (Inr path, c) \<Rightarrow>
                  (case os_open w path c of
                     None \<Rightarrow> (Inl OpenFailed, True, c)
                   | Some f \<Rightarrow> (Inr f, True, c))))"

end
