(* ===== verification/Cache_Invariants.thy ===== *)
theory Cache_Invariants
  imports Disk_Cache
begin

text \<open>
  The invariant of the disk cache and what each operation of \<^verbatim>\<open>cache/cache.go\<close> does to the
  index: the size account, removal of exactly the selected entries, and eviction of the
  shortest sufficient prefix of the eviction order.
\<close>

section \<open>The invariant\<close>

text \<open>
  The index has one entry per key, filed under its own key, and the size account is the sum
  of the entry sizes plus \<open>u\<close>, the bytes of files found on disk that no entry describes
  (only \<open>recover\<close> puts them there).
\<close>

definition cache_inv :: "int \<Rightarrow> cache \<Rightarrow> bool" where
  "cache_inv u c \<longleftrightarrow>
     distinct (keys (c_entries c))
     \<and> (\<forall>(k, e) \<in> set (c_entries c). e_key e = k \<and> 0 \<le> e_size e)
     \<and> c_totalSize c = u + vsum e_size (c_entries c)"

lemma cache_invD:
  assumes "cache_inv u c"
  shows "distinct (keys (c_entries c))"
    "(k, e) \<in> set (c_entries c) \<Longrightarrow> e_key e = k"
    "(k, e) \<in> set (c_entries c) \<Longrightarrow> 0 \<le> e_size e"
    "c_totalSize c = u + vsum e_size (c_entries c)"
  using assms by (auto simp: cache_inv_def)

lemma cache_inv_lookup:
  "cache_inv u c \<Longrightarrow> (k, e) \<in> set (c_entries c) \<Longrightarrow> map_of (c_entries c) k = Some e"
  by (simp add: cache_inv_def)

lemma cache_inv_distinct_entries:
  assumes "cache_inv u c"
  shows "distinct (map snd (c_entries c))"
proof -
  have "map e_key (map snd (c_entries c)) = keys (c_entries c)"
    using assms by (auto simp: cache_inv_def intro!: map_cong)
  with assms show ?thesis by (metis cache_invD(1) distinct_map)
qed

lemma cache_inv_total_member:
  assumes "cache_inv u c" "(k, e) \<in> set (c_entries c)"
  shows "u + e_size e \<le> c_totalSize c"
proof -
  have "e_size e \<le> vsum e_size (c_entries c)"
    using cache_invD(3) [OF assms(1)] assms(2) by (rule vsum_ge_member)
  then show ?thesis using cache_invD(4) [OF assms(1)] by simp
qed

lemma cache_inv_total_ge: "cache_inv u c \<Longrightarrow> u \<le> c_totalSize c"
  using vsum_nonneg [of "c_entries c" e_size] by (fastforce simp: cache_inv_def)

section \<open>Removal\<close>

lemma db_delete_fields [simp, cache_upd]:
  "c_entries (db_delete w k c) = c_entries c" "c_totalSize (db_delete w k c) = c_totalSize c"
  "c_maxSize (db_delete w k c) = c_maxSize c" "c_files (db_delete w k c) = c_files c"
  "c_dir (db_delete w k c) = c_dir c" "c_ttl (db_delete w k c) = c_ttl c"
  "c_softEvictPercent (db_delete w k c) = c_softEvictPercent c"
  by (simp_all add: db_delete_def split: option.split)

lemma removeLocked_fields [simp, cache_upd]:
  "c_entries (removeLocked w e c) = AList.delete (e_key e) (c_entries c)"
  "c_totalSize (removeLocked w e c) = c_totalSize c - e_size e"
  "c_files (removeLocked w e c) = os_remove w (e_path e) (c_files c)"
  "c_maxSize (removeLocked w e c) = c_maxSize c" "c_dir (removeLocked w e c) = c_dir c"
  "c_ttl (removeLocked w e c) = c_ttl c"
  "c_softEvictPercent (removeLocked w e c) = c_softEvictPercent c"
  by (simp_all add: removeLocked_def)

lemma cache_inv_removeLocked [wf_intros]:
  assumes "cache_inv u c" "(k, e) \<in> set (c_entries c)"
  shows "cache_inv u (removeLocked w e c)"
proof -
  have "e_key e = k" "map_of (c_entries c) k = Some e"
    using assms by (auto simp: cache_inv_def)
  with assms show ?thesis
    by (auto simp: cache_inv_def set_delete vsum_delete)
qed

lemma cache_inv_remove [wf_intros]: "cache_inv u c \<Longrightarrow> cache_inv u (remove w key c)"
  unfolding remove_def by (auto split: option.split intro: wf_intros dest: map_of_SomeD)

lemma remove_lookup:
  "cache_inv u c \<Longrightarrow>
    map_of (c_entries (remove w key c)) k = (if k = key then None else map_of (c_entries c) k)"
  by (auto simp: remove_def delete_conv' dest!: map_of_SomeD cache_invD(2) split: option.split)

text \<open>A removal loop over entries of the index.\<close>

definition subindex :: "(string \<times> entry) list \<Rightarrow> cache \<Rightarrow> bool" where
  "subindex es c \<longleftrightarrow> set es \<subseteq> set (c_entries c) \<and> distinct (keys es)"

lemma subindex_refl: "cache_inv u c \<Longrightarrow> subindex (c_entries c) c"
  by (simp add: subindex_def cache_inv_def)

lemma subindex_Cons_removed:
  assumes "cache_inv u c" "subindex ((k, e) # es) c"
  shows "subindex es (removeLocked w e c)"
proof -
  have "e_key e = k" using assms by (auto simp: subindex_def cache_inv_def)
  with assms(2) show ?thesis by (force simp: subindex_def set_delete)
qed

lemma remove_loop_spec:
  "cache_inv u c \<Longrightarrow> subindex es c \<Longrightarrow> remove_loop w P es c n = (m, c') \<Longrightarrow>
     cache_inv u c' \<and> m = n + length (filter (\<lambda>(k, e). P k e) es)
     \<and> c_entries c' = filter (\<lambda>(k, e). \<not> ((k, e) \<in> set es \<and> P k e)) (c_entries c)"
proof (induction w P es c n arbitrary: m c' rule: remove_loop.induct)
  case (1 w P c removed)
  then show ?case by simp
next
  case (2 w P key e es c removed)
  have mem: "(key, e) \<in> set (c_entries c)" and notin: "key \<notin> set (keys es)"
    using "2.prems"(2) by (auto simp: subindex_def)
  have ek: "e_key e = key" using "2.prems"(1) mem by (rule cache_invD)
  show ?case
  proof (cases "P key e")
    case True
    let ?c = "removeLocked w e c"
    have inv: "cache_inv u ?c" using "2.prems"(1) mem by (rule cache_inv_removeLocked)
    have sub: "subindex es ?c" using "2.prems"(1,2) by (rule subindex_Cons_removed)
    have run: "remove_loop w P es ?c (Suc removed) = (m, c')" using "2.prems"(3) True by simp
    have uniq: "e' = e" if "(key, e') \<in> set (c_entries c)" for e'
      using that cache_inv_lookup [OF "2.prems"(1) mem] cache_inv_lookup [OF "2.prems"(1), of key e']
      by (metis option.inject)
    have "c_entries c' = filter (\<lambda>(k, e). \<not> ((k, e) \<in> set es \<and> P k e))
        (filter (\<lambda>p. fst p \<noteq> key) (c_entries c))"
      using "2.IH"(1) [OF True inv sub run] by (simp add: ek delete_as_filter)
    also have "\<dots> = filter (\<lambda>(k, e'). \<not> ((k, e') \<in> set ((key, e) # es) \<and> P k e')) (c_entries c)"
      unfolding filter_filter
    proof (rule filter_cong [OF refl])
      fix p assume p: "p \<in> set (c_entries c)"
      obtain k' e' where "p = (k', e')" by fastforce
      with p True uniq [of e'] notin
      show "(fst p \<noteq> key \<and> (case p of (k, e) \<Rightarrow> \<not> ((k, e) \<in> set es \<and> P k e))) =
          (case p of (k, e') \<Rightarrow> \<not> ((k, e') \<in> set ((key, e) # es) \<and> P k e'))"
        by (cases "k' = key") (auto simp: image_iff)
    qed
    finally show ?thesis using "2.IH"(1) [OF True inv sub run] True by simp
  next
    case False
    have sub: "subindex es c" using "2.prems"(2) by (simp add: subindex_def)
    have run: "remove_loop w P es c removed = (m, c')" using "2.prems"(3) False by simp
    show ?thesis using "2.IH"(2) [OF False "2.prems"(1) sub run] False
      by (auto intro!: filter_cong)
  qed
qed

lemma remove_loop_all:
  assumes "cache_inv u c" "remove_loop w P (c_entries c) c 0 = (m, c')"
  shows "cache_inv u c'" "m = length (filter (\<lambda>(k, e). P k e) (c_entries c))"
    "c_entries c' = filter (\<lambda>(k, e). \<not> P k e) (c_entries c)"
proof -
  note spec = remove_loop_spec [OF assms(1) subindex_refl [OF assms(1)] assms(2)]
  show "cache_inv u c'" "m = length (filter (\<lambda>(k, e). P k e) (c_entries c))"
    using spec by simp_all
  have "c_entries c' = filter (\<lambda>(k, e). \<not> ((k, e) \<in> set (c_entries c) \<and> P k e)) (c_entries c)"
    using spec by blast
  also have "\<dots> = filter (\<lambda>(k, e). \<not> P k e) (c_entries c)"
    by (rule filter_cong) auto
  finally show "c_entries c' = filter (\<lambda>(k, e). \<not> P k e) (c_entries c)" .
qed

lemma remove_loop_config [simp]:
  "c_maxSize (snd (remove_loop w P es c n)) = c_maxSize c"
  "c_ttl (snd (remove_loop w P es c n)) = c_ttl c"
  "c_dir (snd (remove_loop w P es c n)) = c_dir c"
  "c_softEvictPercent (snd (remove_loop w P es c n)) = c_softEvictPercent c"
  by (induction w P es c n rule: remove_loop.induct) auto

lemma cache_inv_removeMatching [wf_intros]:
  "cache_inv u c \<Longrightarrow> cache_inv u (snd (removeMatching w match c))"
  unfolding removeMatching_def by (metis remove_loop_all(1) prod.collapse)

lemma cache_inv_evictExpired [wf_intros]:
  "cache_inv u c \<Longrightarrow> cache_inv u (evictExpired w now c)"
  unfolding evictExpired_def by (metis remove_loop_all(1) prod.collapse)

lemma cache_inv_db [simp]: "cache_inv u (c\<lparr>c_db := t\<rparr>) = cache_inv u c"
  by (simp add: cache_inv_def)

lemma cache_inv_files [simp]: "cache_inv u (c\<lparr>c_files := f\<rparr>) = cache_inv u c"
  by (simp add: cache_inv_def)

lemma removeByPrefix_index:
  assumes "removeByPrefix w pre c = (m, c')"
  shows "\<exists>c''. remove_loop w (\<lambda>k e. has_prefix k pre) (c_entries c) c 0 = (m, c'')
     \<and> (\<exists>t. c' = c''\<lparr>c_db := t\<rparr>)"
proof -
  obtain m0 c'' where "remove_loop w (\<lambda>k e. has_prefix k pre) (c_entries c) c 0 = (m0, c'')"
    by fastforce
  moreover from this assms have "m0 = m" "\<exists>t. c' = c''\<lparr>c_db := t\<rparr>"
    by (auto simp: removeByPrefix_def split: option.splits if_splits
        intro: exI [of _ "c_db c''"])
  ultimately show ?thesis by blast
qed

lemma cache_inv_removeByPrefix [wf_intros]:
  assumes "cache_inv u c"
  shows "cache_inv u (snd (removeByPrefix w pre c))"
proof -
  obtain m c' where "removeByPrefix w pre c = (m, c')" by fastforce
  with removeByPrefix_index [OF this] remove_loop_all(1) [OF assms] show ?thesis by auto
qed

section \<open>Eviction in an order\<close>

text \<open>
  What the two evicting operations need of \<open>sort.Slice\<close>: the result is a permutation of
  the collected entries, ordered by the field compared.
\<close>

locale eviction_order =
  fixes key :: "entry \<Rightarrow> int" and srt :: "entry list \<Rightarrow> entry list"
  assumes perm: "mset (srt xs) = mset xs"
    and ordered: "sorted (map key (srt xs))"
begin

lemma set_srt [simp]: "set (srt xs) = set xs"
  by (metis perm set_mset_mset)

lemma distinct_srt [simp]: "distinct (srt xs) = distinct xs"
  by (metis perm mset_eq_imp_distinct_iff)

lemma srt_prefix_older:
  assumes "srt xs = gone @ kept" "a \<in> set gone" "b \<in> set kept"
  shows "key a \<le> key b"
  using ordered [of xs] assms by (auto simp: sorted_append)

end

lemma eviction_order_access: "world_ok w \<Longrightarrow> eviction_order accessedAt (by_access w)"
  by (simp add: world_ok_def sorts_by_def eviction_order_def)

lemma eviction_order_creation: "world_ok w \<Longrightarrow> eviction_order createdAt (by_creation w)"
  by (simp add: world_ok_def sorts_by_def eviction_order_def)

text \<open>A world in which every system call succeeds and sorting is stable.\<close>

definition calm_world :: "(string \<Rightarrow> string) \<Rightarrow> world" where
  "calm_world h = \<lparr>hashKey = h, rm_ok = (\<lambda>_. True), open_ok = (\<lambda>_. True), sql_ok = (\<lambda>_. True),
     scan_ok = (\<lambda>_. True), by_access = sort_key accessedAt, by_creation = sort_key createdAt\<rparr>"

lemma calm_world_simps [simp]:
  "hashKey (calm_world h) = h" "rm_ok (calm_world h) p = True" "open_ok (calm_world h) p = True"
  "sql_ok (calm_world h) k = True" "scan_ok (calm_world h) k = True"
  "by_access (calm_world h) = sort_key accessedAt" "by_creation (calm_world h) = sort_key createdAt"
  by (simp_all add: calm_world_def)

lemma world_ok_calm [simp]: "world_ok (calm_world h)"
  by (simp add: world_ok_def sorts_by_def)

interpretation lru: eviction_order accessedAt "by_access (calm_world h)" for h
  by (rule eviction_order_access) simp

interpretation oldest: eviction_order createdAt "by_creation (calm_world h)" for h
  by (rule eviction_order_creation) simp

text \<open>
  The loop removes the shortest prefix of the order that brings the account within the
  limit, or everything.
\<close>

lemma evict_loop_spec:
  "cache_inv u c \<Longrightarrow> set es \<subseteq> set (map snd (c_entries c)) \<Longrightarrow> distinct es \<Longrightarrow>
   \<exists>gone kept. es = gone @ kept \<and> evict_loop w limit es c = fold (removeLocked w) gone c
     \<and> cache_inv u (evict_loop w limit es c)
     \<and> c_entries (evict_loop w limit es c) = filter (\<lambda>p. snd p \<notin> set gone) (c_entries c)
     \<and> (c_totalSize (evict_loop w limit es c) \<le> limit \<or> kept = [])
     \<and> (gone = [] \<or> limit < c_totalSize (evict_loop w limit es c) + e_size (last gone))"
proof (induction es arbitrary: c)
  case Nil
  then show ?case by simp
next
  case (Cons e es)
  show ?case
  proof (cases "c_totalSize c \<le> limit")
    case True
    with Cons.prems(1) show ?thesis by (intro exI [of _ "[]"] exI [of _ "e # es"]) simp
  next
    case False
    obtain k where mem: "(k, e) \<in> set (c_entries c)" using Cons.prems(2) by auto
    then have ek: "e_key e = k" using cache_invD(2) [OF Cons.prems(1)] by blast
    let ?c = "removeLocked w e c"
    have inv: "cache_inv u ?c" using Cons.prems(1) mem by (rule cache_inv_removeLocked)
    have del: "c_entries ?c = filter (\<lambda>p. snd p \<noteq> e) (c_entries c)"
    proof -
      have "(fst p \<noteq> k) = (snd p \<noteq> e)" if p: "p \<in> set (c_entries c)" for p
      proof (cases p)
        case (Pair k' e')
        with p have "map_of (c_entries c) k' = Some e'" "e_key e' = k'"
          using cache_inv_lookup [OF Cons.prems(1)] cache_invD(2) [OF Cons.prems(1)] by blast+
        with Pair ek cache_inv_lookup [OF Cons.prems(1) mem] show ?thesis by (cases "k' = k") auto
      qed
      then have "filter (\<lambda>p. fst p \<noteq> k) (c_entries c) = filter (\<lambda>p. snd p \<noteq> e) (c_entries c)"
        by (rule filter_cong [OF refl])
      then show ?thesis by (simp only: removeLocked_fields delete_as_filter ek)
    qed
    have sub: "set es \<subseteq> set (map snd (c_entries ?c))"
      using Cons.prems(2,3) unfolding del by (fastforce simp: image_iff)
    have "distinct es" using Cons.prems(3) by simp
    from Cons.IH [OF inv sub this] obtain gone kept where gk: "es = gone @ kept"
      and fld: "evict_loop w limit es ?c = fold (removeLocked w) gone ?c" and gk':
      "cache_inv u (evict_loop w limit es ?c)"
      "c_entries (evict_loop w limit es ?c) = filter (\<lambda>p. snd p \<notin> set gone) (c_entries ?c)"
      "c_totalSize (evict_loop w limit es ?c) \<le> limit \<or> kept = []"
      "gone = [] \<or> limit < c_totalSize (evict_loop w limit es ?c) + e_size (last gone)"
      by blast
    note gk = gk gk'
    have step: "evict_loop w limit (e # es) c = evict_loop w limit es ?c" using False by simp
    have last: "limit < c_totalSize (evict_loop w limit es ?c) + e_size (last (e # gone))"
    proof (cases "gone = []")
      case True
      then have "c_entries (evict_loop w limit es ?c) = c_entries ?c" using gk(3) by simp
      then have "c_totalSize (evict_loop w limit es ?c) = c_totalSize ?c"
        using cache_invD(4) [OF gk(2)] cache_invD(4) [OF inv] by simp
      with True False show ?thesis by simp
    qed (use gk(5) in simp)
    have ents: "c_entries (evict_loop w limit es ?c)
        = filter (\<lambda>p. snd p \<notin> set (e # gone)) (c_entries c)"
      unfolding gk(3) del filter_filter by (rule filter_cong) auto
    show ?thesis unfolding step
    proof (rule exI [of _ "e # gone"], rule exI [of _ kept], intro conjI)
      show "e # es = (e # gone) @ kept" using gk(1) by simp
      show "evict_loop w limit es ?c = fold (removeLocked w) (e # gone) c" using fld by simp
      show "e # gone = [] \<or>
          limit < c_totalSize (evict_loop w limit es ?c) + e_size (last (e # gone))"
        using last by blast
    qed (fact gk(2) ents gk(4))+
  qed
qed

lemma evict_loop_config [simp]:
  "c_maxSize (evict_loop w l es c) = c_maxSize c" "c_ttl (evict_loop w l es c) = c_ttl c"
  "c_dir (evict_loop w l es c) = c_dir c"
  "c_softEvictPercent (evict_loop w l es c) = c_softEvictPercent c"
  by (induction w l es c rule: evict_loop.induct) auto

text \<open>The loop over the collected entries in an eviction order.\<close>

context eviction_order
begin

lemma evict_in_order:
  assumes "cache_inv u c"
  shows "\<exists>gone kept. srt (map snd (c_entries c)) = gone @ kept
     \<and> evict_loop w limit (srt (map snd (c_entries c))) c = fold (removeLocked w) gone c
     \<and> cache_inv u (evict_loop w limit (srt (map snd (c_entries c))) c)
     \<and> c_entries (evict_loop w limit (srt (map snd (c_entries c))) c)
         = filter (\<lambda>p. snd p \<notin> set gone) (c_entries c)
     \<and> (c_totalSize (evict_loop w limit (srt (map snd (c_entries c))) c) \<le> limit \<or> kept = [])
     \<and> (gone = [] \<or>
        limit < c_totalSize (evict_loop w limit (srt (map snd (c_entries c))) c) + e_size (last gone))"
  using assms cache_inv_distinct_entries [OF assms] by (intro evict_loop_spec) simp_all

lemma evict_in_order_inv:
  "cache_inv u c \<Longrightarrow> cache_inv u (evict_loop w limit (srt (map snd (c_entries c))) c)"
  using evict_in_order by blast

lemma evict_in_order_bound:
  assumes "cache_inv u c"
  shows "c_totalSize (evict_loop w limit (srt (map snd (c_entries c))) c) \<le> max limit u"
proof -
  let ?c = "evict_loop w limit (srt (map snd (c_entries c))) c"
  obtain gone kept where gk: "srt (map snd (c_entries c)) = gone @ kept" "cache_inv u ?c"
    "c_entries ?c = filter (\<lambda>p. snd p \<notin> set gone) (c_entries c)"
    "c_totalSize ?c \<le> limit \<or> kept = []"
    using evict_in_order [OF assms, of w limit] by blast
  show ?thesis
  proof (cases "kept = []")
    case True
    then have "set gone = snd ` set (c_entries c)" using gk(1) set_srt by (metis append_Nil2 set_map)
    then have "c_entries ?c = []" unfolding gk(3) by (auto simp: filter_empty_conv)
    then have "c_totalSize ?c = u" using cache_invD(4) [OF gk(2)] by simp
    then show ?thesis by simp
  qed (use gk(4) in auto)
qed

lemma evict_in_order_oldest_first:
  assumes "cache_inv u c" "p \<in> set (c_entries c)"
    "p \<notin> set (c_entries (evict_loop w limit (srt (map snd (c_entries c))) c))"
    "q \<in> set (c_entries (evict_loop w limit (srt (map snd (c_entries c))) c))"
  shows "key (snd p) \<le> key (snd q)"
proof -
  obtain gone kept where gk: "srt (map snd (c_entries c)) = gone @ kept"
    "c_entries (evict_loop w limit (srt (map snd (c_entries c))) c)
       = filter (\<lambda>p. snd p \<notin> set gone) (c_entries c)"
    using evict_in_order [OF assms(1), of w limit] by blast
  have "snd p \<in> set gone" using assms(2,3) gk(2) by auto
  moreover have "snd q \<in> set (gone @ kept)" "snd q \<notin> set gone"
    using assms(4) gk set_srt [of "map snd (c_entries c)"] by auto
  ultimately show ?thesis using srt_prefix_older [OF gk(1)] by auto
qed

end

lemma cache_inv_evictLRU [wf_intros]:
  "world_ok w \<Longrightarrow> cache_inv u c \<Longrightarrow> cache_inv u (evictLRU w c)"
  by (simp add: evictLRU_def eviction_order.evict_in_order_inv [OF eviction_order_access])

lemma cache_inv_softEvict [wf_intros]:
  "world_ok w \<Longrightarrow> cache_inv u c \<Longrightarrow> cache_inv u (softEvictByAge w c)"
  by (simp add: softEvictByAge_def Let_def eviction_order.evict_in_order_inv [OF eviction_order_creation])

lemma cache_inv_tick [wf_intros]:
  "world_ok w \<Longrightarrow> cache_inv u c \<Longrightarrow> cache_inv u (eviction_tick w now c)"
  by (simp add: eviction_tick_def Let_def wf_intros)

lemma evictLRU_bound:
  assumes "world_ok w" "cache_inv u c" "0 < c_maxSize c"
  shows "c_totalSize (evictLRU w c) \<le> max (c_maxSize c) u"
  using assms eviction_order.evict_in_order_bound [OF eviction_order_access [OF assms(1)] assms(2)]
  by (auto simp: evictLRU_def)

lemma evictLRU_config [simp]:
  "c_maxSize (evictLRU w c) = c_maxSize c" "c_ttl (evictLRU w c) = c_ttl c"
  "c_dir (evictLRU w c) = c_dir c" "c_softEvictPercent (evictLRU w c) = c_softEvictPercent c"
  by (simp_all add: evictLRU_def)

section \<open>Storing and looking up\<close>

lemma store_entry_fields [simp, cache_upd]:
  "c_entries (store_entry w k e c) = AList.update k e (c_entries c)"
  "c_maxSize (store_entry w k e c) = c_maxSize c" "c_files (store_entry w k e c) = c_files c"
  "c_dir (store_entry w k e c) = c_dir c" "c_ttl (store_entry w k e c) = c_ttl c"
  "c_softEvictPercent (store_entry w k e c) = c_softEvictPercent c"
  by (auto simp: store_entry_def Let_def split: option.split)

lemma store_entry_total:
  "c_totalSize (store_entry w k e c) =
     c_totalSize c - (case map_of (c_entries c) k of Some old \<Rightarrow> e_size old | None \<Rightarrow> 0) + e_size e"
  by (auto simp: store_entry_def Let_def split: option.split)

lemma cache_inv_store [wf_intros]:
  assumes "cache_inv u c" "e_key e = k" "0 \<le> e_size e"
  shows "cache_inv u (store_entry w k e c)"
  using assms
  by (auto simp: cache_inv_def store_entry_total set_update_distinct vsum_update_new
      vsum_update_old split: option.split)

lemma cache_inv_get [wf_intros]:
  assumes "cache_inv u c"
  shows "cache_inv u (snd (get w now key c))"
proof (cases "map_of (c_entries c) key")
  case None
  with assms show ?thesis by (simp add: get_def)
next
  case (Some e)
  then have mem: "(key, e) \<in> set (c_entries c)" by (rule map_of_SomeD)
  with assms have "e_key e = key" "0 \<le> e_size e" by (auto simp: cache_inv_def)
  then have "cache_inv u (c\<lparr>c_entries := AList.update key (e\<lparr>accessedAt := now\<rparr>) (c_entries c)\<rparr>)"
    using assms Some by (auto simp: cache_inv_def set_update_distinct vsum_update_old)
  then show ?thesis using assms mem Some
    by (simp add: get_def Let_def cache_inv_removeLocked split: option.split)
qed

lemma cache_inv_put_store [wf_intros]:
  "cache_inv u c \<Longrightarrow> cache_inv u (snd (put_store w now key data ttl io c))"
  by (auto simp: put_store_def Let_def drop_tmp_def split: put_fault.split intro!: wf_intros)

lemma cache_inv_put [wf_intros]:
  assumes "world_ok w" "cache_inv u c"
  shows "cache_inv u (snd (put w now key data ttl io c))"
  using cache_inv_put_store [OF assms(2), of w now key data ttl io] cache_inv_evictLRU [OF assms(1)]
  by (auto simp: put_def split: prod.split sum.split)

lemma cache_inv_register [wf_intros]:
  "world_ok w \<Longrightarrow> cache_inv u c \<Longrightarrow> 0 \<le> n \<Longrightarrow>
    cache_inv u (registerAfterStream w now key path n c)"
  by (simp add: registerAfterStream_def Let_def wf_intros)

lemma cache_inv_clear: "cache_inv 0 (snd (clear ok left stored c))"
  by (simp add: clear_def cache_inv_def)

lemma cache_inv_getOrFetch [wf_intros]:
  assumes "world_ok w" "cache_inv u c"
  shows "cache_inv u (snd (snd (getOrFetch w now key fetch c)))"
proof -
  have g: "cache_inv u (snd (get w now key c))" using assms(2) by (rule cache_inv_get)
  have f: "cache_inv u (snd (doFetch w now key fetch c'))" if "cache_inv u c'" for c'
    using cache_inv_put [OF assms(1) that]
    by (auto simp: doFetch_def that split: fetch_result.split prod.split sum.split)
      (metis snd_conv)+
  show ?thesis
    using g f [OF g] f [OF cache_inv_remove [OF g, of w key]]
    by (auto simp: getOrFetch_def Let_def split: prod.split option.split sum.split)
qed


section \<open>Files\<close>

lemma map_of_os_remove:
  "map_of (os_remove w p fs) q = (if q = p \<and> rm_ok w p then None else map_of fs q)"
  by (simp add: os_remove_def delete_conv')

lemma files_fold_remove:
  "map_of (c_files (fold (removeLocked w) gone c)) p =
     (if rm_ok w p \<and> p \<in> e_path ` set gone then None else map_of (c_files c) p)"
proof (induction gone arbitrary: c)
  case Nil
  show ?case by simp
next
  case (Cons e gone)
  show ?case by (auto simp: Cons.IH map_of_os_remove)
qed

text \<open>The bytes a key stands for: the content of its entry's file.\<close>

definition cached :: "cache \<Rightarrow> string \<Rightarrow> bytes option" where
  "cached c key = Option.bind (map_of (c_entries c) key) (\<lambda>e. map_of (c_files c) (e_path e))"

text \<open>What \<open>evictLRU\<close> does, whichever permutation sorting picks.\<close>

lemma evictLRU_cases:
  assumes "world_ok w" "cache_inv u c"
  obtains gone where "evictLRU w c = fold (removeLocked w) gone c"
    "c_entries (evictLRU w c) = filter (\<lambda>p. snd p \<notin> set gone) (c_entries c)"
    "set gone \<subseteq> snd ` set (c_entries c)" "sorted (map accessedAt gone)"
    "gone \<noteq> [] \<longrightarrow> 0 < c_maxSize c
       \<and> c_maxSize c < c_totalSize (evictLRU w c) + e_size (last gone)"
    "\<forall>a\<in>set gone. \<forall>b\<in>snd ` set (c_entries c) - set gone. accessedAt a \<le> accessedAt b"
proof (cases "c_maxSize c \<le> 0 \<or> c_totalSize c \<le> c_maxSize c")
  case True
  then show thesis using that [of "[]"] by (simp add: evictLRU_def)
next
  case False
  note ord = eviction_order_access [OF assms(1)]
  let ?es = "by_access w (map snd (c_entries c))"
  have ev: "evictLRU w c = evict_loop w (c_maxSize c) ?es c" using False by (simp add: evictLRU_def)
  obtain gone kept where gk: "?es = gone @ kept"
    "evictLRU w c = fold (removeLocked w) gone c"
    "c_entries (evictLRU w c) = filter (\<lambda>p. snd p \<notin> set gone) (c_entries c)"
    "gone = [] \<or> c_maxSize c < c_totalSize (evictLRU w c) + e_size (last gone)"
    using eviction_order.evict_in_order [OF ord assms(2), of w "c_maxSize c"] unfolding ev by blast
  have set_es: "set (gone @ kept) = snd ` set (c_entries c)"
    unfolding gk(1) [symmetric] eviction_order.set_srt [OF ord] by simp
  show thesis
  proof (rule that [OF gk(2,3)])
    show "set gone \<subseteq> snd ` set (c_entries c)" using set_es by auto
    show "sorted (map accessedAt gone)"
      using eviction_order.ordered [OF ord, of "map snd (c_entries c)"] gk(1)
      by (simp add: sorted_append)
    show "gone \<noteq> [] \<longrightarrow> 0 < c_maxSize c
       \<and> c_maxSize c < c_totalSize (evictLRU w c) + e_size (last gone)"
      using gk(4) False by auto
    show "\<forall>a\<in>set gone. \<forall>b\<in>snd ` set (c_entries c) - set gone. accessedAt a \<le> accessedAt b"
      using eviction_order.srt_prefix_older [OF ord gk(1)] set_es by auto
  qed
qed

text \<open>The newest entry survives an eviction when it fits, and only then.\<close>

lemma evictLRU_keeps_newest:
  assumes "world_ok w" "cache_inv u c" "(key, e) \<in> set (c_entries c)"
    "\<And>k e'. (k, e') \<in> set (c_entries c) \<Longrightarrow> k \<noteq> key \<Longrightarrow>
       accessedAt e' < accessedAt e \<and> e_path e' \<noteq> e_path e"
    "c_maxSize c \<le> 0 \<or> u + e_size e \<le> c_maxSize c"
  shows "map_of (c_entries (evictLRU w c)) key = Some e"
    and "map_of (c_files (evictLRU w c)) (e_path e) = map_of (c_files c) (e_path e)"
proof -
  obtain gone where g: "evictLRU w c = fold (removeLocked w) gone c"
    "c_entries (evictLRU w c) = filter (\<lambda>p. snd p \<notin> set gone) (c_entries c)"
    "set gone \<subseteq> snd ` set (c_entries c)" "sorted (map accessedAt gone)"
    "gone \<noteq> [] \<longrightarrow> 0 < c_maxSize c
       \<and> c_maxSize c < c_totalSize (evictLRU w c) + e_size (last gone)"
    "\<forall>a\<in>set gone. \<forall>b\<in>snd ` set (c_entries c) - set gone. accessedAt a \<le> accessedAt b"
    using evictLRU_cases [OF assms(1,2)] by blast
  have inv': "cache_inv u (evictLRU w c)" using assms(1,2) by (rule cache_inv_evictLRU)
  have other: "k = key" if "(k, e) \<in> set (c_entries c)" for k
    using assms(4) [OF that] by auto
  have "e \<notin> set gone"
  proof
    assume e: "e \<in> set gone"
    have all: "set gone = snd ` set (c_entries c)"
    proof (rule ccontr)
      assume "set gone \<noteq> snd ` set (c_entries c)"
      with g(3) obtain b where "b \<in> snd ` set (c_entries c)" and nb: "b \<notin> set gone" by blast
      then obtain k where b: "(k, b) \<in> set (c_entries c)" "b \<notin> set gone" by auto
      with e have "k \<noteq> key"
        using cache_inv_lookup [OF assms(2,3)] cache_inv_lookup [OF assms(2) b(1)] by auto
      with assms(4) [OF b(1)] e b g(6) show False by force
    qed
    then have "c_entries (evictLRU w c) = []"
      unfolding g(2) by (auto simp: filter_empty_conv)
    then have tot: "c_totalSize (evictLRU w c) = u" using cache_invD(4) [OF inv'] by simp
    have ne: "gone \<noteq> []" using e by auto
    with all have "last gone \<in> snd ` set (c_entries c)" using last_in_set by blast
    then obtain k where k: "(k, last gone) \<in> set (c_entries c)" by auto
    have "accessedAt e \<le> accessedAt (last gone)"
      using sorted_key_last_max [OF g(4) e] .
    with assms(4) [OF k] have "k = key" by force
    with k have "last gone = e"
      using cache_inv_lookup [OF assms(2,3)] cache_inv_lookup [OF assms(2) k] by simp
    with g(5) ne tot assms(5) show False by auto
  qed
  with assms(3) have "(key, e) \<in> set (c_entries (evictLRU w c))" by (simp add: g(2))
  then show "map_of (c_entries (evictLRU w c)) key = Some e"
    by (rule cache_inv_lookup [OF inv'])
  have "e_path e \<notin> e_path ` set gone"
  proof
    assume "e_path e \<in> e_path ` set gone"
    then obtain a where a: "a \<in> set gone" "e_path a = e_path e" by auto
    with g(3) obtain k where k: "(k, a) \<in> set (c_entries c)" by auto
    with assms(4) [OF k] a have "k = key" by auto
    with k have "a = e"
      using cache_inv_lookup [OF assms(2,3)] cache_inv_lookup [OF assms(2) k] by simp
    with a \<open>e \<notin> set gone\<close> show False by simp
  qed
  then show "map_of (c_files (evictLRU w c)) (e_path e) = map_of (c_files c) (e_path e)"
    by (simp add: g(1) files_fold_remove)
qed

lemma evictLRU_drops_oversize:
  assumes "world_ok w" "cache_inv u c" "(key, e) \<in> set (c_entries c)"
    "0 < c_maxSize c" "c_maxSize c < u + e_size e"
  shows "map_of (c_entries (evictLRU w c)) key = None"
    and "rm_ok w (e_path e) \<Longrightarrow> map_of (c_files (evictLRU w c)) (e_path e) = None"
proof -
  have inv': "cache_inv u (evictLRU w c)" using assms(1,2) by (rule cache_inv_evictLRU)
  have "u + e_size e \<le> c_totalSize c"
    using assms(2,3) by (rule cache_inv_total_member)
  with assms(4,5) have ev: "evictLRU w c = evict_loop w (c_maxSize c) (by_access w (map snd (c_entries c))) c"
    by (simp add: evictLRU_def)
  obtain gone kept where gk: "by_access w (map snd (c_entries c)) = gone @ kept"
    "evictLRU w c = fold (removeLocked w) gone c"
    "c_entries (evictLRU w c) = filter (\<lambda>p. snd p \<notin> set gone) (c_entries c)"
    "c_totalSize (evictLRU w c) \<le> c_maxSize c \<or> kept = []"
    using eviction_order.evict_in_order [OF eviction_order_access [OF assms(1)] assms(2), of w "c_maxSize c"]
    unfolding ev by blast
  have set_es: "set (gone @ kept) = snd ` set (c_entries c)"
    unfolding gk(1) [symmetric] eviction_order.set_srt [OF eviction_order_access [OF assms(1)]] by simp
  have e_gone: "e \<in> set gone"
  proof (rule ccontr)
    assume no: "e \<notin> set gone"
    with assms(3) have mem: "(key, e) \<in> set (c_entries (evictLRU w c))" by (simp add: gk(3))
    have "u + e_size e \<le> c_totalSize (evictLRU w c)"
      using inv' mem by (rule cache_inv_total_member)
    with assms(5) gk(4) have "kept = []" by simp
    with no set_es assms(3) show False by force
  qed
  show "map_of (c_files (evictLRU w c)) (e_path e) = None" if "rm_ok w (e_path e)"
    using that e_gone by (simp add: gk(2) files_fold_remove)
  show "map_of (c_entries (evictLRU w c)) key = None"
  proof (rule ccontr)
    assume "map_of (c_entries (evictLRU w c)) key \<noteq> None"
    then obtain e' where "(key, e') \<in> set (c_entries (evictLRU w c))" by (auto dest: map_of_SomeD)
    then have "(key, e') \<in> set (c_entries c)" "e' \<notin> set gone" by (simp_all add: gk(3))
    with e_gone show False
      using cache_inv_lookup [OF assms(2,3)] cache_inv_lookup [OF assms(2), of key e'] by simp
  qed
qed

end
