(* ===== verification/Cache_Properties.thy ===== *)
theory Cache_Properties
  imports Cache_Invariants
begin

text \<open>
  The properties of the disk cache: the size account over any sequence of operations, the
  bound on the size, which entries an eviction picks, what a lookup may return, what
  \<open>GetOrFetch\<close> delivers, and which records a prefix invalidation reaches in memory and in
  the database.
\<close>

section \<open>Sequences of operations\<close>

datatype cache_op =
    OpGet int string
  | OpPut int string bytes int put_io
  | OpGetOrFetch int string "unit fetch_result"
  | OpRegister int string string nat
  | OpRemove string
  | OpRemoveByPrefix string
  | OpRemoveMatching "string \<Rightarrow> bool"
  | OpTick int
  | OpClear bool "string \<Rightarrow> bool" "(string \<times> db_row) list"
  | OpStop

fun cache_step :: "world \<Rightarrow> cache_op \<Rightarrow> cache \<Rightarrow> cache" where
  "cache_step w (OpGet now key) c = snd (get w now key c)"
| "cache_step w (OpPut now key data ttl io) c = snd (put w now key data ttl io c)"
| "cache_step w (OpGetOrFetch now key fetch) c = snd (snd (getOrFetch w now key fetch c))"
| "cache_step w (OpRegister now key path n) c = registerAfterStream w now key path (int n) c"
| "cache_step w (OpRemove key) c = remove w key c"
| "cache_step w (OpRemoveByPrefix pre) c = snd (removeByPrefix w pre c)"
| "cache_step w (OpRemoveMatching match) c = snd (removeMatching w match c)"
| "cache_step w (OpTick now) c = eviction_tick w now c"
| "cache_step w (OpClear ok left stored) c = snd (clear ok left stored c)"
| "cache_step w OpStop c = stop c"

definition cache_run :: "world \<Rightarrow> cache_op list \<Rightarrow> cache \<Rightarrow> cache" where
  "cache_run w ops c = fold (cache_step w) ops c"

text \<open>The bytes no entry describes: only \<open>Clear\<close> changes them.\<close>

fun untracked_after :: "cache_op \<Rightarrow> int \<Rightarrow> int" where
  "untracked_after (OpClear ok left stored) u = 0"
| "untracked_after _ u = u"

lemma cache_inv_step: "world_ok w \<Longrightarrow> cache_inv u c \<Longrightarrow> cache_inv (untracked_after op u) (cache_step w op c)"
  by (cases op) (simp_all add: wf_intros cache_inv_clear stop_def)

section \<open>The size bound\<close>

definition sized :: "int \<Rightarrow> cache \<Rightarrow> bool" where
  "sized u c \<longleftrightarrow> cache_inv u c \<and> 0 < c_maxSize c \<and> c_totalSize c \<le> max (c_maxSize c) u"

lemma sizedD: "sized u c \<Longrightarrow> cache_inv u c" "sized u c \<Longrightarrow> 0 < c_maxSize c"
  by (simp_all add: sized_def)

text \<open>An operation that only removes keeps within the bound.\<close>

lemma sized_smaller:
  "sized u c \<Longrightarrow> cache_inv u c' \<Longrightarrow> c_maxSize c' = c_maxSize c \<Longrightarrow> c_totalSize c' \<le> c_totalSize c \<Longrightarrow>
    sized u c'"
  by (auto simp: sized_def)

lemma sized_evictLRU: "world_ok w \<Longrightarrow> cache_inv u c \<Longrightarrow> 0 < c_maxSize c \<Longrightarrow> sized u (evictLRU w c)"
  by (simp add: sized_def cache_inv_evictLRU evictLRU_bound)

lemma removeLocked_smaller:
  "cache_inv u c \<Longrightarrow> (k, e) \<in> set (c_entries c) \<Longrightarrow> c_totalSize (removeLocked w e c) \<le> c_totalSize c"
  by (simp add: cache_invD(3))

lemma remove_smaller: "cache_inv u c \<Longrightarrow> c_totalSize (remove w key c) \<le> c_totalSize c"
  by (auto simp: remove_def removeLocked_smaller split: option.split dest!: map_of_SomeD)
    (simp add: cache_invD(3))

lemma remove_maxSize [simp]: "c_maxSize (remove w key c) = c_maxSize c"
  by (simp add: remove_def split: option.split)

lemma get_smaller: "cache_inv u c \<Longrightarrow> c_totalSize (snd (get w now key c)) \<le> c_totalSize c"
  by (auto simp: get_def Let_def cache_invD(3) split: option.split dest!: map_of_SomeD)

lemma get_maxSize [simp]: "c_maxSize (snd (get w now key c)) = c_maxSize c"
  by (auto simp: get_def Let_def split: option.split)

lemma remove_loop_smaller:
  "cache_inv u c \<Longrightarrow> subindex es c \<Longrightarrow> c_totalSize (snd (remove_loop w P es c n)) \<le> c_totalSize c"
proof (induction w P es c n rule: remove_loop.induct)
  case (1 w P c removed)
  then show ?case by simp
next
  case (2 w P key e es c removed)
  have mem: "(key, e) \<in> set (c_entries c)" using 2(4) by (simp add: subindex_def)
  show ?case
  proof (cases "P key e")
    case True
    have "c_totalSize (snd (remove_loop w P es (removeLocked w e c) (Suc removed)))
        \<le> c_totalSize (removeLocked w e c)"
      using True 2(3,4) mem by (intro 2(1)) (auto intro: wf_intros subindex_Cons_removed)
    also have "\<dots> \<le> c_totalSize c" using 2(3) mem by (rule removeLocked_smaller)
    finally show ?thesis using True by simp
  next
    case False
    with 2 show ?thesis by (simp add: subindex_def)
  qed
qed

lemma remove_all_smaller:
  "cache_inv u c \<Longrightarrow> c_totalSize (snd (remove_loop w P (c_entries c) c n)) \<le> c_totalSize c"
  by (rule remove_loop_smaller [OF _ subindex_refl])

lemma sized_put:
  assumes "world_ok w" "sized u c"
  shows "sized u (snd (put w now key data ttl io c))"
proof (cases "put_store w now key data ttl io c")
  case (Pair r c')
  have inv: "cache_inv u c'"
    using cache_inv_put_store [OF sizedD(1) [OF assms(2)], of w now key data ttl io] Pair by simp
  have mx: "c_maxSize c' = c_maxSize c"
    using Pair by (auto simp: put_store_def Let_def drop_tmp_def split: put_fault.splits)
  show ?thesis
  proof (cases r)
    case (Inl e)
    with Pair have "c_totalSize c' = c_totalSize c"
      by (auto simp: put_store_def Let_def drop_tmp_def split: put_fault.splits)
    with Inl Pair inv mx assms(2) show ?thesis by (simp add: put_def sized_def)
  next
    case (Inr path)
    with Pair inv mx assms show ?thesis
      by (simp add: put_def sized_evictLRU sizedD)
  qed
qed

lemma sized_remove: "sized u c \<Longrightarrow> sized u (remove w key c)"
  by (rule sized_smaller) (auto intro: wf_intros sizedD remove_smaller)

lemma sized_get: "sized u c \<Longrightarrow> sized u (snd (get w now key c))"
  by (rule sized_smaller) (auto intro: wf_intros sizedD get_smaller)

lemma sized_doFetch:
  "world_ok w \<Longrightarrow> sized u c \<Longrightarrow> sized u (snd (doFetch w now key fetch c))"
  using sized_put [of w u c now key]
  by (auto simp: doFetch_def split: fetch_result.split prod.split sum.split) (metis snd_conv)+

lemma sized_getOrFetch:
  assumes "world_ok w" "sized u c"
  shows "sized u (snd (snd (getOrFetch w now key fetch c)))"
  using sized_get [OF assms(2), of w now key]
    sized_doFetch [OF assms(1) sized_get [OF assms(2)], of now key fetch w now key]
    sized_doFetch [OF assms(1) sized_remove [OF sized_get [OF assms(2)]],
      of now key fetch w key w now key]
  by (auto simp: getOrFetch_def Let_def split: prod.split option.split sum.split)

lemma sized_register:
  assumes "world_ok w" "sized u c"
  shows "sized u (registerAfterStream w now key path (int n) c)"
  using assms cache_inv_store [OF sizedD(1) [OF assms(2)]]
  by (simp add: registerAfterStream_def Let_def sized_evictLRU sizedD)

lemma evictExpired_effect:
  "cache_inv u c \<Longrightarrow> c_totalSize (evictExpired w now c) \<le> c_totalSize c"
  "c_maxSize (evictExpired w now c) = c_maxSize c"
  by (simp_all add: evictExpired_def remove_all_smaller)

lemma removeMatching_effect:
  "cache_inv u c \<Longrightarrow> c_totalSize (snd (removeMatching w match c)) \<le> c_totalSize c"
  "c_maxSize (snd (removeMatching w match c)) = c_maxSize c"
  by (simp_all add: removeMatching_def remove_all_smaller)

lemma removeByPrefix_effect:
  assumes "cache_inv u c"
  shows "c_totalSize (snd (removeByPrefix w pre c)) \<le> c_totalSize c"
    "c_maxSize (snd (removeByPrefix w pre c)) = c_maxSize c"
proof -
  obtain m c' where rp: "removeByPrefix w pre c = (m, c')" by fastforce
  then obtain c'' t where "remove_loop w (\<lambda>k e. has_prefix k pre) (c_entries c) c 0 = (m, c'')"
    and c': "c' = c''\<lparr>c_db := t\<rparr>"
    using removeByPrefix_index by blast
  then have c'': "c'' = snd (remove_loop w (\<lambda>k e. has_prefix k pre) (c_entries c) c 0)" by simp
  show "c_totalSize (snd (removeByPrefix w pre c)) \<le> c_totalSize c"
    "c_maxSize (snd (removeByPrefix w pre c)) = c_maxSize c"
    using remove_all_smaller [OF assms] unfolding rp c' c'' by simp_all
qed

lemma softEvict_maxSize [simp]: "c_maxSize (softEvictByAge w c) = c_maxSize c"
  by (simp add: softEvictByAge_def Let_def)

lemma sized_evictExpired: "sized u c \<Longrightarrow> sized u (evictExpired w now c)"
  by (rule sized_smaller [OF _ cache_inv_evictExpired])
    (auto simp: evictExpired_effect dest: sizedD)

lemma sized_tick:
  assumes "world_ok w" "sized u c"
  shows "sized u (eviction_tick w now c)"
proof -
  note s = sized_evictExpired [OF assms(2), of w now]
  have "cache_inv u (softEvictByAge w (evictExpired w now c))"
    using assms(1) sizedD(1) [OF s] by (rule cache_inv_softEvict)
  with s assms(1) show ?thesis
    by (simp add: eviction_tick_def Let_def sized_evictLRU sizedD)
qed

lemma sized_step:
  assumes "world_ok w" "sized u c"
  shows "sized (untracked_after op u) (cache_step w op c)"
proof (cases op)
  case (OpRemoveByPrefix pre)
  note inv = sizedD(1) [OF assms(2)]
  have "sized u (snd (removeByPrefix w pre c))"
    by (rule sized_smaller [OF assms(2) cache_inv_removeByPrefix [OF inv]
          removeByPrefix_effect(2,1) [OF inv]])
  with OpRemoveByPrefix show ?thesis by simp
next
  case (OpRemoveMatching match)
  note inv = sizedD(1) [OF assms(2)]
  have "sized u (snd (removeMatching w match c))"
    by (rule sized_smaller [OF assms(2) cache_inv_removeMatching [OF inv]
          removeMatching_effect(2) removeMatching_effect(1) [OF inv]])
  with OpRemoveMatching show ?thesis by simp
next
  case (OpClear ok left stored)
  with assms show ?thesis
    using cache_inv_clear [of ok left stored c] by (simp add: sized_def clear_def)
next
  case OpStop
  with assms show ?thesis by (simp add: stop_def sized_def)
qed (use assms in \<open>simp_all add: sized_get sized_put sized_getOrFetch sized_register
      sized_remove sized_tick\<close>)

section \<open>Lookups and fetches\<close>

lemma get_miss:
  assumes "cache_inv u c" "fst (get w now key c) = None"
  shows "map_of (c_entries (snd (get w now key c))) key = None"
    "set (c_entries (snd (get w now key c))) \<subseteq> set (c_entries c)"
    "c_dir (snd (get w now key c)) = c_dir c" "c_ttl (snd (get w now key c)) = c_ttl c"
proof -
  consider "map_of (c_entries c) key = None"
    | e where "map_of (c_entries c) key = Some e" "expired now e"
    using assms(2) by (auto simp: get_def Let_def split: option.splits if_splits)
  then have "map_of (c_entries (snd (get w now key c))) key = None
      \<and> set (c_entries (snd (get w now key c))) \<subseteq> set (c_entries c)
      \<and> c_dir (snd (get w now key c)) = c_dir c \<and> c_ttl (snd (get w now key c)) = c_ttl c"
  proof cases
    case 1
    then show ?thesis by (simp add: get_def)
  next
    case (2 e)
    then have "e_key e = key" using cache_invD(2) [OF assms(1)] by blast
    with 2 show ?thesis by (auto simp: get_def set_delete delete_conv')
  qed
  then show "map_of (c_entries (snd (get w now key c))) key = None"
    "set (c_entries (snd (get w now key c))) \<subseteq> set (c_entries c)"
    "c_dir (snd (get w now key c)) = c_dir c" "c_ttl (snd (get w now key c)) = c_ttl c"
    by blast+
qed

lemma put_store_ok:
  assumes "pi_fault io = NoFault" "put_store w now key data ttl io c = (r, c')"
  defines "path \<equiv> entry_path w (c_dir c) key"
  defines "e \<equiv> \<lparr>e_key = key, e_path = path, e_size = int (length data), createdAt = now,
      accessedAt = now, expiresAt = effective_expiry (c_ttl c) now ttl\<rparr>"
  shows "r = Inr path" "c_entries c' = AList.update key e (c_entries c)"
    "map_of (c_files c') path = Some data" "c_maxSize c' = c_maxSize c"
  using assms by (auto simp: put_store_def Let_def update_conv')

lemma put_fits:
  assumes "world_ok w" "cache_inv u c" "pi_fault io = NoFault"
    "list_all (\<lambda>(k, e). k = key \<or> accessedAt e < now \<and> e_path e \<noteq> entry_path w (c_dir c) key)
       (c_entries c)"
    "c_maxSize c \<le> 0 \<or> u + int (length data) \<le> c_maxSize c"
  shows "fst (put w now key data ttl io c) = Inr (entry_path w (c_dir c) key)"
    "map_of (c_files (snd (put w now key data ttl io c))) (entry_path w (c_dir c) key) = Some data"
    "\<exists>e. map_of (c_entries (snd (put w now key data ttl io c))) key = Some e
       \<and> e_path e = entry_path w (c_dir c) key
       \<and> expiresAt e = effective_expiry (c_ttl c) now ttl"
proof -
  let ?path = "entry_path w (c_dir c) key"
  obtain r c' where ps: "put_store w now key data ttl io c = (r, c')" by fastforce
  define e where "e = \<lparr>e_key = key, e_path = ?path, e_size = int (length data), createdAt = now,
      accessedAt = now, expiresAt = effective_expiry (c_ttl c) now ttl\<rparr>"
  have ok: "r = Inr ?path" "c_entries c' = AList.update key e (c_entries c)"
    "map_of (c_files c') ?path = Some data" "c_maxSize c' = c_maxSize c"
    using put_store_ok [OF assms(3) ps] by (simp_all add: e_def)
  have inv: "cache_inv u c'"
    using cache_inv_put_store [OF assms(2), of w now key data ttl io] ps by simp
  have mem: "(key, e) \<in> set (c_entries c')"
    using cache_invD(1) [OF assms(2)] by (simp add: ok(2) set_update_distinct)
  have others: "accessedAt e' < accessedAt e \<and> e_path e' \<noteq> e_path e"
    if "(k, e') \<in> set (c_entries c')" "k \<noteq> key" for k e'
    using that assms(4) cache_invD(1) [OF assms(2)]
    by (auto simp: ok(2) set_update_distinct list_all_iff e_def)
  have "c_maxSize c' \<le> 0 \<or> u + e_size e \<le> c_maxSize c'"
    using assms(5) by (simp add: ok(4) e_def)
  note kept = evictLRU_keeps_newest [OF assms(1) inv mem others this]
  have put: "put w now key data ttl io c = (Inr ?path, if 0 < c_maxSize c' then evictLRU w c' else c')"
    by (simp add: put_def ps ok(1))
  show "fst (put w now key data ttl io c) = Inr ?path" by (simp add: put)
  show "map_of (c_files (snd (put w now key data ttl io c))) ?path = Some data"
    using kept(2) ok(3) by (simp add: put e_def)
  show "\<exists>e. map_of (c_entries (snd (put w now key data ttl io c))) key = Some e
       \<and> e_path e = ?path \<and> expiresAt e = effective_expiry (c_ttl c) now ttl"
    using kept(1) cache_inv_lookup [OF inv mem] by (auto simp: put e_def)
qed

lemma put_oversize:
  assumes "world_ok w" "cache_inv u c" "pi_fault io = NoFault"
    "0 < c_maxSize c" "c_maxSize c < u + int (length data)" "rm_ok w (entry_path w (c_dir c) key)"
  shows "fst (put w now key data ttl io c) = Inr (entry_path w (c_dir c) key)"
    "map_of (c_files (snd (put w now key data ttl io c))) (entry_path w (c_dir c) key) = None"
    "map_of (c_entries (snd (put w now key data ttl io c))) key = None"
proof -
  let ?path = "entry_path w (c_dir c) key"
  obtain r c' where ps: "put_store w now key data ttl io c = (r, c')" by fastforce
  define e where "e = \<lparr>e_key = key, e_path = ?path, e_size = int (length data), createdAt = now,
      accessedAt = now, expiresAt = effective_expiry (c_ttl c) now ttl\<rparr>"
  have ok: "r = Inr ?path" "c_entries c' = AList.update key e (c_entries c)"
    "map_of (c_files c') ?path = Some data" "c_maxSize c' = c_maxSize c"
    using put_store_ok [OF assms(3) ps] by (simp_all add: e_def)
  have inv: "cache_inv u c'"
    using cache_inv_put_store [OF assms(2), of w now key data ttl io] ps by simp
  have mem: "(key, e) \<in> set (c_entries c')"
    using cache_invD(1) [OF assms(2)] by (simp add: ok(2) set_update_distinct)
  have put: "put w now key data ttl io c = (Inr ?path, evictLRU w c')"
    using assms(4) by (simp add: put_def ps ok(1,4))
  have "0 < c_maxSize c'" "c_maxSize c' < u + e_size e"
    using assms(4,5) by (simp_all add: ok(4) e_def)
  note gone = evictLRU_drops_oversize [OF assms(1) inv mem this]
  show "fst (put w now key data ttl io c) = Inr ?path" by (simp add: put)
  show "map_of (c_entries (snd (put w now key data ttl io c))) key = None"
    using gone(1) by (simp add: put)
  show "map_of (c_files (snd (put w now key data ttl io c))) ?path = None"
    using gone(2) assms(6) by (simp add: put e_def)
qed

lemma getOrFetch_miss:
  "fst (get w now key c) = None \<Longrightarrow>
   getOrFetch w now key (Fetched data ttl io) c =
     (case put w now key data ttl io (snd (get w now key c)) of
        (Inl e, c) \<Rightarrow> (Inl (PutFailed e), True, c)
      | (Inr path, c) \<Rightarrow>
          (case os_open w path c of None \<Rightarrow> (Inl OpenFailed, True, c) | Some f \<Rightarrow> (Inr f, True, c)))"
  by (cases "get w now key c")
    (auto simp: getOrFetch_def doFetch_def split: prod.split sum.split)

section \<open>A concrete cache\<close>

definition demo_entry :: "string \<Rightarrow> int \<Rightarrow> int \<Rightarrow> int option \<Rightarrow> entry" where
  "demo_entry k n t x = \<lparr>e_key = k, e_path = ''d/aa/aa'' @ k, e_size = n, createdAt = t,
     accessedAt = t, expiresAt = x\<rparr>"

definition demo_world :: world where
  "demo_world = calm_world (\<lambda>k. ''aa'' @ k)"

definition demo_cache :: cache where
  "demo_cache =
     \<lparr>c_dir = ''d'', c_maxSize = 10, c_ttl = 0, c_softEvictPercent = 4 / 5,
      c_entries = [(''k1'', demo_entry ''k1'' 4 1 None), (''k2'', demo_entry ''k2'' 3 2 (Some 50))],
      c_totalSize = 7,
      c_db = Some [(''k1'', row_of (demo_entry ''k1'' 4 1 None)),
                   (''k2'', row_of (demo_entry ''k2'' 3 2 (Some 50)))],
      c_files = [(''d/aa/aak1'', ''abcd''), (''d/aa/aak2'', ''xyz'')]\<rparr>"

lemma demo_world_ok: "world_ok demo_world"
  by (simp add: demo_world_def)

lemma demo_cache_inv: "cache_inv 0 demo_cache"
  by (simp add: demo_cache_def cache_inv_def demo_entry_def)

lemma demo_world_simps [simp]:
  "hashKey demo_world k = ''aa'' @ k" "rm_ok demo_world p = True" "open_ok demo_world p = True"
  "sql_ok demo_world k = True"
  by (simp_all add: demo_world_def)

definition demo_io :: put_io where
  "demo_io = \<lparr>pi_fault = NoFault, pi_tmp = ''d/aa/.tmp-1'', pi_partial = []\<rparr>"

section \<open>Properties\<close>

text \<open>C1: The size account never drifts. Over any sequence of lookups, stores, fetches, stream
  registrations, removals, invalidations, eviction ticks and clears, with system calls, SQL
  statements and sorting behaving in any way, the index keeps one entry per key and the
  reported size is the sum of the sizes of its entries plus the bytes found untracked at
  startup, which are forgotten by a clear.\<close>

theorem cache_account_invariant:
  assumes "world_ok w" "cache_inv u c"
  shows "cache_inv (fold untracked_after ops u) (cache_run w ops c)"
  using assms(2) unfolding cache_run_def
proof (induction ops arbitrary: u c)
  case Nil
  then show ?case by simp
next
  case (Cons op ops)
  then show ?case using cache_inv_step [OF assms(1)] by simp
qed

text \<open>C2: The size bound holds after every operation. A cache with a maximum size whose size is
  within the larger of the maximum and the untracked bytes stays so over any sequence of
  operations.\<close>

theorem cache_bound_invariant:
  assumes "world_ok w" "cache_inv u c" "0 < c_maxSize c" "c_totalSize c \<le> max (c_maxSize c) u"
  shows "c_totalSize (cache_run w ops c)
    \<le> max (c_maxSize (cache_run w ops c)) (fold untracked_after ops u)"
proof -
  have "sized u c" using assms by (simp add: sized_def)
  then have "sized (fold untracked_after ops u) (cache_run w ops c)"
    unfolding cache_run_def
    by (induction ops arbitrary: u c) (simp_all add: sized_step [OF assms(1)])
  then show ?thesis by (simp add: sized_def)
qed



theorem cache_account_invariant_witness:
  "cache_inv (fold untracked_after [OpPut 3 ''k3'' ''12345'' 0 demo_io, OpGet 60 ''k2''] 0)
     (cache_run demo_world [OpPut 3 ''k3'' ''12345'' 0 demo_io, OpGet 60 ''k2''] demo_cache)"
  by (rule cache_account_invariant [OF demo_world_ok demo_cache_inv])

theorem cache_bound_invariant_witness:
  "c_totalSize (cache_run demo_world [OpPut 3 ''k3'' ''12345'' 0 demo_io] demo_cache)
    \<le> max (c_maxSize (cache_run demo_world [OpPut 3 ''k3'' ''12345'' 0 demo_io] demo_cache))
        (fold untracked_after [OpPut 3 ''k3'' ''12345'' 0 demo_io] 0)"
  by (rule cache_bound_invariant [OF demo_world_ok demo_cache_inv]) (simp_all add: demo_cache_def)


text \<open>A lookup returns a path exactly when the key has an entry that has not expired, and it is
  that entry's path; a lookup that fails leaves no entry for the key; and the entries of all
  other keys are untouched.\<close>

theorem get_only_live_entries:
  assumes "cache_inv u c"
  shows "(fst (get w now key c) = Some path \<longleftrightarrow>
      (\<exists>e. map_of (c_entries c) key = Some e \<and> \<not> expired now e \<and> e_path e = path))
    \<and> (fst (get w now key c) = None \<longrightarrow> map_of (c_entries (snd (get w now key c))) key = None)
    \<and> (k \<noteq> key \<longrightarrow>
        map_of (c_entries (snd (get w now key c))) k = map_of (c_entries c) k)"
proof (intro conjI impI)
  show "fst (get w now key c) = Some path \<longleftrightarrow>
      (\<exists>e. map_of (c_entries c) key = Some e \<and> \<not> expired now e \<and> e_path e = path)"
    by (auto simp: get_def Let_def split: option.split)
  show "map_of (c_entries (snd (get w now key c))) key = None" if "fst (get w now key c) = None"
    using assms that by (rule get_miss)
  show "map_of (c_entries (snd (get w now key c))) k = map_of (c_entries c) k" if "k \<noteq> key"
    using that cache_invD(2) [OF assms]
    by (auto simp: get_def Let_def delete_conv' update_conv' split: option.split dest!: map_of_SomeD)
qed

theorem get_only_live_entries_witness:
  "fst (get demo_world 60 ''k2'' demo_cache) = None
   \<and> map_of (c_entries (snd (get demo_world 60 ''k2'' demo_cache))) ''k2'' = None
   \<and> map_of (c_entries (snd (get demo_world 60 ''k2'' demo_cache))) ''k1''
       = map_of (c_entries demo_cache) ''k1''"
proof -
  have miss: "fst (get demo_world 60 ''k2'' demo_cache) = None"
    by (simp add: get_def demo_cache_def demo_entry_def expired_def)
  show ?thesis
    using miss get_only_live_entries [OF demo_cache_inv, of demo_world 60 "''k2''" _ "''k1''"]
    by simp
qed

text \<open>A live key whose file can be opened is served from disk: the fetch function is not
  called, the bytes are those of the entry's file, and neither files nor size change.\<close>

theorem getOrFetch_hit:
  assumes "map_of (c_entries c) key = Some e" "\<not> expired now e"
    "open_ok w (e_path e)" "map_of (c_files c) (e_path e) = Some data"
  shows "\<exists>c'. getOrFetch w now key fetch c = (Inr data, False, c')
     \<and> c_files c' = c_files c \<and> c_totalSize c' = c_totalSize c"
proof -
  have "fst (get w now key c) = Some (e_path e)" "c_files (snd (get w now key c)) = c_files c"
    "c_totalSize (snd (get w now key c)) = c_totalSize c"
    using assms(1,2) by (auto simp: get_def Let_def split: option.split)
  with assms(3,4) show ?thesis
    by (cases "get w now key c") (simp add: getOrFetch_def os_open_def)
qed

theorem getOrFetch_hit_witness:
  "\<exists>c'. getOrFetch demo_world 7 ''k1'' (FetchErr ()) demo_cache = (Inr ''abcd'', False, c')
     \<and> c_files c' = c_files demo_cache \<and> c_totalSize c' = c_totalSize demo_cache"
  by (rule getOrFetch_hit [where e = "demo_entry ''k1'' 4 1 None"])
    (simp_all add: demo_cache_def demo_entry_def demo_world_def expired_def)

text \<open>C11: A miss is fetched, delivered and kept. When the lookup misses, the fetch succeeds and the
  data fits beside the untracked bytes, the caller gets exactly the fetched bytes, and the
  key then has a live entry with these bytes and the requested lifetime, whatever was evicted
  to make room.\<close>

theorem getOrFetch_miss_fits:
  assumes "world_ok w" "cache_inv u c" "fst (get w now key c) = None" "pi_fault io = NoFault"
    "open_ok w (entry_path w (c_dir c) key)"
    "list_all (\<lambda>(k, e). k = key \<or> accessedAt e < now \<and> e_path e \<noteq> entry_path w (c_dir c) key)
       (c_entries c)"
    "c_maxSize c \<le> 0 \<or> u + int (length data) \<le> c_maxSize c"
  shows "\<exists>c' e. getOrFetch w now key (Fetched data ttl io) c = (Inr data, True, c')
     \<and> map_of (c_entries c') key = Some e \<and> map_of (c_files c') (e_path e) = Some data
     \<and> expiresAt e = effective_expiry (c_ttl c) now ttl"
proof -
  let ?c = "snd (get w now key c)"
  note miss = get_miss [OF assms(2,3)]
  have inv: "cache_inv u ?c" using assms(2) by (rule cache_inv_get)
  have "list_all (\<lambda>(k, e). k = key \<or> accessedAt e < now \<and> e_path e \<noteq> entry_path w (c_dir ?c) key)
      (c_entries ?c)"
    using assms(6) miss(2) by (auto simp: list_all_iff miss(3))
  note fits = put_fits [OF assms(1) inv assms(4) this]
  show ?thesis
    using fits [of data ttl] assms(5,7) unfolding getOrFetch_miss [OF assms(3)]
    by (cases "put w now key data ttl io ?c") (auto simp: os_open_def miss(3,4))
qed

theorem getOrFetch_miss_fits_witness:
  "\<exists>c' e. getOrFetch demo_world 7 ''k3'' (Fetched ''12345'' 9 demo_io :: unit fetch_result) demo_cache
       = (Inr ''12345'', True, c')
     \<and> map_of (c_entries c') ''k3'' = Some e \<and> map_of (c_files c') (e_path e) = Some ''12345''
     \<and> expiresAt e = effective_expiry (c_ttl demo_cache) 7 9"
  by (rule getOrFetch_miss_fits [OF demo_world_ok demo_cache_inv])
    (simp_all add: get_def demo_cache_def demo_entry_def demo_io_def entry_path_def)

text \<open>Data that does not fit is not served at all. When the fetched bytes together with the
  untracked ones exceed the maximum size, \<open>Put\<close> evicts the entry it has just stored and
  deletes its file, and the caller gets an error although the upstream fetch succeeded.\<close>

theorem getOrFetch_oversize_fails:
  assumes "world_ok w" "cache_inv u c" "fst (get w now key c) = None" "pi_fault io = NoFault"
    "rm_ok w (entry_path w (c_dir c) key)"
    "0 < c_maxSize c" "c_maxSize c < u + int (length data)"
  shows "\<exists>c'. getOrFetch w now key (Fetched data ttl io) c = (Inl OpenFailed, True, c')
     \<and> map_of (c_entries c') key = None"
proof -
  let ?c = "snd (get w now key c)"
  note miss = get_miss [OF assms(2,3)]
  have inv: "cache_inv u ?c" using assms(2) by (rule cache_inv_get)
  note big = put_oversize [OF assms(1) inv assms(4), of data key now ttl]
  show ?thesis
    using big assms(5-7) unfolding getOrFetch_miss [OF assms(3)]
    by (cases "put w now key data ttl io ?c") (auto simp: os_open_def miss(3))
qed

theorem getOrFetch_oversize_fails_witness:
  "\<exists>c'. getOrFetch demo_world 7 ''k3'' (Fetched ''elevenbytes'' 9 demo_io :: unit fetch_result) demo_cache
       = (Inl OpenFailed, True, c')
     \<and> map_of (c_entries c') ''k3'' = None"
  by (rule getOrFetch_oversize_fails [OF demo_world_ok demo_cache_inv])
    (simp_all add: get_def demo_cache_def demo_io_def)

end
