(* ===== verification/Cache_Invalidation.thy ===== *)
theory Cache_Invalidation
  imports Cache_Properties
begin

text \<open>
  Which records an invalidation by prefix reaches, in the index, among the files and in the
  database (where the condition is an SQL \<open>LIKE\<close>, not the prefix test of the index), and the
  eviction by age below the soft threshold.
\<close>

section \<open>Removal loops as folds\<close>

lemma remove_loop_fold:
  "snd (remove_loop w P es c n) = fold (removeLocked w) (map snd (filter (\<lambda>(k, e). P k e) es)) c"
  by (induction w P es c n rule: remove_loop.induct) simp_all

lemma removeByPrefix_split:
  "removeByPrefix w pre c = (m, c') \<Longrightarrow>
     \<exists>c1. remove_loop w (\<lambda>k e. has_prefix k pre) (c_entries c) c 0 = (m, c1)
       \<and> c_entries c' = c_entries c1 \<and> c_files c' = c_files c1 \<and> c_totalSize c' = c_totalSize c1"
  by (auto simp: removeByPrefix_def split: prod.splits option.splits if_splits)

lemma removeByPrefix_files:
  assumes "removeByPrefix w pre c = (m, c')"
  shows "map_of (c_files c') p =
    (if rm_ok w p \<and> p \<in> e_path ` snd ` set (filter (\<lambda>(k, e). has_prefix k pre) (c_entries c))
     then None else map_of (c_files c) p)"
proof -
  obtain c1 where "remove_loop w (\<lambda>k e. has_prefix k pre) (c_entries c) c 0 = (m, c1)"
    and f: "c_files c' = c_files c1"
    using removeByPrefix_split [OF assms] by blast
  then have "c1 = fold (removeLocked w)
      (map snd (filter (\<lambda>(k, e). has_prefix k pre) (c_entries c))) c"
    using remove_loop_fold [of w "\<lambda>k e. has_prefix k pre" "c_entries c" c 0] by simp
  then show ?thesis unfolding f by (simp add: files_fold_remove)
qed

lemma removeByPrefix_entries:
  assumes "cache_inv u c"
  shows "c_entries (snd (removeByPrefix w pre c)) = filter (\<lambda>(k, e). \<not> has_prefix k pre) (c_entries c)"
proof -
  obtain m c1 where run: "remove_loop w (\<lambda>k e. has_prefix k pre) (c_entries c) c 0 = (m, c1)" by fastforce
  then show ?thesis
    using remove_loop_all(3) [OF assms run] by (simp add: removeByPrefix_def split: option.split)
qed

section \<open>The database rows\<close>

lemma db_removeLocked:
  "c_db (removeLocked w e c) =
     (case c_db c of None \<Rightarrow> None
      | Some t \<Rightarrow> Some (if sql_ok w (e_key e) then AList.delete (e_key e) t else t))"
  by (auto simp: removeLocked_def db_delete_def split: option.split)

lemma db_fold_remove:
  "c_db c = Some t \<Longrightarrow>
    c_db (fold (removeLocked w) gone c)
      = Some (filter (\<lambda>r. \<not> (sql_ok w (fst r) \<and> fst r \<in> e_key ` set gone)) t)"
proof (induction gone arbitrary: c t)
  case Nil
  then show ?case by simp
next
  case (Cons e gone)
  let ?t = "if sql_ok w (e_key e) then AList.delete (e_key e) t else t"
  have "c_db (removeLocked w e c) = Some ?t" using Cons.prems by (simp add: db_removeLocked)
  note step = Cons.IH [OF this]
  have "filter (\<lambda>r. \<not> (sql_ok w (fst r) \<and> fst r \<in> e_key ` set gone)) ?t
      = filter (\<lambda>r. \<not> (sql_ok w (fst r) \<and> fst r \<in> e_key ` set (e # gone))) t"
    by (auto simp: delete_as_filter intro!: filter_cong)
  with step show ?case by simp
qed

section \<open>The \<open>LIKE\<close> pattern of a prefix\<close>

lemma sql_like_percent [simp]: "sql_like ''%'' s"
  by (induction s) simp_all

lemma sql_like_skip: "sql_like ps cs \<Longrightarrow> sql_like (CHR ''%'' # ps) cs"
  by (cases cs) simp_all

text \<open>Every key with the prefix matches the pattern, whatever characters the prefix has.\<close>

lemma sql_like_prefix: "sql_like (pre @ ''%'') (pre @ s)"
proof (induction pre)
  case Nil
  show ?case by simp
next
  case (Cons p pre)
  then show ?case by (simp add: sql_like_skip)
qed

text \<open>Without wildcards in the prefix, the pattern is the prefix test up to letter case.\<close>

lemma sql_like_no_wildcard:
  "CHR ''%'' \<notin> set pre \<Longrightarrow> CHR ''_'' \<notin> set pre \<Longrightarrow>
    sql_like (pre @ ''%'') s \<longleftrightarrow>
      length pre \<le> length s \<and> equal_fold (take (length pre) s) pre"
proof (induction pre arbitrary: s)
  case Nil
  then show ?case by (simp add: equal_fold_def to_lower_def)
next
  case (Cons p pre)
  then show ?case by (cases s) (auto simp: equal_fold_def to_lower_def)
qed

section \<open>Soft eviction\<close>

lemma soft_threshold_le:
  assumes "0 < maxSize" "maxSize < 2 ^ 53" "0 < percent" "percent \<le> 1"
  shows "soft_threshold maxSize percent \<le> maxSize"
proof -
  have x: "f64_of_int maxSize = of_int maxSize"
    using assms by (simp add: f64_of_int_exact)
  have le: "of_int maxSize * percent \<le> of_int maxSize"
    using assms by (simp add: mult_left_le)
  have "of_int maxSize < (of_int (2 ^ 53) :: rat)" using assms(2) by (simp only: of_int_less_iff)
  with le have "of_int maxSize * percent < 2 ^ 53" by simp
  with le assms(1) have "f64_mult (f64_of_int maxSize) percent \<le> of_int maxSize"
    unfolding f64_mult_def x by (intro f64_round_le) simp_all
  then show ?thesis unfolding soft_threshold_def int_of_f64_def
    using assms(1) by (auto simp: floor_le_iff ceiling_le_iff le_floor_iff)
qed

section \<open>Properties\<close>

text \<open>Invalidation by prefix is exact in the index. It removes the entries whose keys have the
  prefix and no others, returns how many they were, deletes every file of a removed entry
  that the system lets it delete, and touches no file of any other path.\<close>

theorem removeByPrefix_exact:
  assumes "cache_inv u c" "removeByPrefix w pre c = (m, c')"
  shows "c_entries c' = filter (\<lambda>(k, e). \<not> has_prefix k pre) (c_entries c)
    \<and> m + length (c_entries c') = length (c_entries c)
    \<and> (\<forall>p. map_of (c_files c') p =
         (if rm_ok w p \<and> (\<exists>(k, e)\<in>set (c_entries c). has_prefix k pre \<and> e_path e = p)
          then None else map_of (c_files c) p))"
proof -
  obtain c1 where run: "remove_loop w (\<lambda>k e. has_prefix k pre) (c_entries c) c 0 = (m, c1)"
    and c1: "c_entries c' = c_entries c1"
    using removeByPrefix_split [OF assms(2)] by blast
  note loop = remove_loop_all [OF assms(1) run]
  have "m + length (c_entries c') = length (c_entries c)"
    using sum_length_filter_compl [of "\<lambda>(k, e). has_prefix k pre" "c_entries c"]
    unfolding c1 loop(2,3) by (simp add: case_prod_unfold)
  moreover have "p \<in> e_path ` snd ` set (filter (\<lambda>(k, e). has_prefix k pre) (c_entries c)) \<longleftrightarrow>
      (\<exists>(k, e)\<in>set (c_entries c). has_prefix k pre \<and> e_path e = p)" for p
    by force
  ultimately show ?thesis using loop(3) c1 removeByPrefix_files [OF assms(2)] by simp
qed

theorem removeByPrefix_exact_witness:
  "c_entries (snd (removeByPrefix demo_world ''k1'' demo_cache))
      = filter (\<lambda>(k, e). \<not> has_prefix k ''k1'') (c_entries demo_cache)
   \<and> fst (removeByPrefix demo_world ''k1'' demo_cache)
       + length (c_entries (snd (removeByPrefix demo_world ''k1'' demo_cache)))
     = length (c_entries demo_cache)"
proof -
  have "removeByPrefix demo_world ''k1'' demo_cache
      = (fst (removeByPrefix demo_world ''k1'' demo_cache),
         snd (removeByPrefix demo_world ''k1'' demo_cache))" by simp
  from removeByPrefix_exact [OF demo_cache_inv this] show ?thesis by blast
qed

text \<open>Invalidation by prefix in the database. When the statements succeed, the rows that remain
  are exactly those whose key does not match the \<open>LIKE\<close> pattern; for a prefix without the
  wildcards \<open>%\<close> and \<open>_\<close> that is the prefix test with letter case ignored.\<close>

theorem removeByPrefix_rows:
  assumes "cache_inv u c" "c_db c = Some t" "sql_ok w (pre @ ''%'')"
  shows "c_db (snd (removeByPrefix w pre c))
      = Some (filter (\<lambda>r. \<not> sql_like (pre @ ''%'') (fst r)) t)
    \<and> (CHR ''%'' \<notin> set pre \<longrightarrow> CHR ''_'' \<notin> set pre \<longrightarrow>
        (\<forall>s. sql_like (pre @ ''%'') s \<longleftrightarrow>
          length pre \<le> length s \<and> equal_fold (take (length pre) s) pre))"
proof -
  let ?gone = "map snd (filter (\<lambda>(k, e). has_prefix k pre) (c_entries c))"
  let ?c = "snd (remove_loop w (\<lambda>k e. has_prefix k pre) (c_entries c) c 0)"
  have db: "c_db ?c = Some (filter (\<lambda>r. \<not> (sql_ok w (fst r) \<and> fst r \<in> e_key ` set ?gone)) t)"
    unfolding remove_loop_fold by (rule db_fold_remove [OF assms(2)])
  have like: "sql_like (pre @ ''%'') k" if "k \<in> e_key ` set ?gone" for k
    using that cache_invD(2) [OF assms(1)] by (auto simp: has_prefix_iff sql_like_prefix)
  have "c_db (snd (removeByPrefix w pre c))
      = Some (filter (\<lambda>r. \<not> sql_like (pre @ ''%'') (fst r))
          (filter (\<lambda>r. \<not> (sql_ok w (fst r) \<and> fst r \<in> e_key ` set ?gone)) t))"
    using db assms(3) by (simp add: removeByPrefix_def case_prod_unfold Let_def)
  also have "\<dots> = Some (filter (\<lambda>r. \<not> sql_like (pre @ ''%'') (fst r)) t)"
    using like by (auto intro!: filter_cong)
  finally show ?thesis using sql_like_no_wildcard by blast
qed

theorem removeByPrefix_rows_witness:
  "c_db (snd (removeByPrefix demo_world ''K1'' demo_cache))
     = Some (filter (\<lambda>r. \<not> sql_like (''K1'' @ ''%'') (fst r)) (the (c_db demo_cache)))"
proof -
  have "c_db demo_cache = Some (the (c_db demo_cache))" by (simp add: demo_cache_def)
  from removeByPrefix_rows [OF demo_cache_inv this, of demo_world "''K1''"]
  show ?thesis by simp
qed

text \<open>The index and the database disagree after an invalidation: a cached key that does not
  have the prefix but matches it as a \<open>LIKE\<close> pattern (another letter case, or any character
  where the prefix has an underscore) stays in the index while its row is deleted, so that
  the next start forgets the entry and counts its file as untracked.\<close>

theorem removeByPrefix_forgets_live_row:
  assumes "cache_inv u c" "map_of (c_entries c) k = Some e" "c_db c = Some t"
    "sql_ok w (pre @ ''%'')" "\<not> has_prefix k pre" "sql_like (pre @ ''%'') k"
  shows "map_of (c_entries (snd (removeByPrefix w pre c))) k = Some e
    \<and> (\<exists>t'. c_db (snd (removeByPrefix w pre c)) = Some t' \<and> map_of t' k = None)"
proof -
  let ?c = "snd (remove_loop w (\<lambda>k e. has_prefix k pre) (c_entries c) c 0)"
  obtain m c1 where run: "remove_loop w (\<lambda>k e. has_prefix k pre) (c_entries c) c 0 = (m, c1)"
    by fastforce
  have ents: "c_entries (snd (removeByPrefix w pre c)) = c_entries c1"
    using run by (simp add: removeByPrefix_def split: option.split)
  have mem: "(k, e) \<in> set (c_entries c1)"
    using remove_loop_all(3) [OF assms(1) run] map_of_SomeD [OF assms(2)] assms(5) by simp
  have live: "map_of (c_entries c1) k = Some e"
    using cache_inv_lookup [OF remove_loop_all(1) [OF assms(1) run] mem] .
  obtain t1 where t1: "c_db c1 = Some t1"
    using db_fold_remove [OF assms(3)] remove_loop_fold [of w "\<lambda>k e. has_prefix k pre" "c_entries c" c 0] run
    by simp
  have "c_db (snd (removeByPrefix w pre c))
      = Some (filter (\<lambda>r. \<not> sql_like (pre @ ''%'') (fst r)) t1)"
    using run t1 assms(4) by (simp add: removeByPrefix_def)
  moreover have "map_of (filter (\<lambda>r. \<not> sql_like (pre @ ''%'') (fst r)) t1) k = None"
    using assms(6) by (auto simp: map_of_eq_None_iff)
  ultimately show ?thesis using live ents by simp
qed

theorem removeByPrefix_forgets_live_row_witness:
  "map_of (c_entries (snd (removeByPrefix demo_world ''K1'' demo_cache))) ''k1''
      = Some (demo_entry ''k1'' 4 1 None)
    \<and> (\<exists>t'. c_db (snd (removeByPrefix demo_world ''K1'' demo_cache)) = Some t'
         \<and> map_of t' ''k1'' = None)"
  by (rule removeByPrefix_forgets_live_row [OF demo_cache_inv,
        where t = "the (c_db demo_cache)"])
    (simp_all add: demo_cache_def has_prefix_def lower_char_def char_of_def bit_simps)

text \<open>C32: Soft eviction keeps the cache below its threshold. For a percentage between 0 and 1 and
  a maximum size \<open>float64\<close> represents exactly, the threshold lies within the maximum size,
  and after a pass the size is within the threshold (or the untracked bytes); entries are
  given up in the order of their creation.\<close>

theorem softEvictByAge_bound:
  assumes "world_ok w" "cache_inv u c" "0 < c_maxSize c" "c_maxSize c < 2 ^ 53"
    "0 < c_softEvictPercent c" "c_softEvictPercent c \<le> 1"
  shows "soft_threshold (c_maxSize c) (c_softEvictPercent c) \<le> c_maxSize c
    \<and> c_totalSize (softEvictByAge w c)
        \<le> max (soft_threshold (c_maxSize c) (c_softEvictPercent c)) u
    \<and> list_all (\<lambda>p. p \<in> set (c_entries (softEvictByAge w c))
          \<or> list_all (\<lambda>q. createdAt (snd p) \<le> createdAt (snd q)) (c_entries (softEvictByAge w c)))
        (c_entries c)"
proof (intro conjI)
  note order = eviction_order_creation [OF assms(1)]
  show "soft_threshold (c_maxSize c) (c_softEvictPercent c) \<le> c_maxSize c"
    using assms(3-6) by (rule soft_threshold_le)
  show "c_totalSize (softEvictByAge w c)
        \<le> max (soft_threshold (c_maxSize c) (c_softEvictPercent c)) u"
    using assms(3,5) eviction_order.evict_in_order_bound [OF order assms(2)]
    by (auto simp: softEvictByAge_def Let_def)
  show "list_all (\<lambda>p. p \<in> set (c_entries (softEvictByAge w c))
          \<or> list_all (\<lambda>q. createdAt (snd p) \<le> createdAt (snd q)) (c_entries (softEvictByAge w c)))
        (c_entries c)"
  proof -
    let ?l = "soft_threshold (c_maxSize c) (c_softEvictPercent c)"
    have "createdAt (snd p) \<le> createdAt (snd q)"
      if p: "p \<in> set (c_entries c)" and gone: "p \<notin> set (c_entries (softEvictByAge w c))"
        and q: "q \<in> set (c_entries (softEvictByAge w c))" for p q
    proof -
      have "softEvictByAge w c = evict_loop w ?l (by_creation w (map snd (c_entries c))) c"
        using p gone by (auto simp: softEvictByAge_def Let_def split: if_splits)
      then show ?thesis
        using eviction_order.evict_in_order_oldest_first [OF order assms(2) p, of w ?l q] gone q
        by simp
    qed
    then show ?thesis unfolding list_all_iff by blast
  qed
qed

theorem softEvictByAge_bound_witness:
  "soft_threshold 5 (4 / 5) \<le> 5
    \<and> c_totalSize (softEvictByAge demo_world (demo_cache\<lparr>c_maxSize := 5\<rparr>))
        \<le> max (soft_threshold 5 (4 / 5)) 0"
  using softEvictByAge_bound [OF demo_world_ok, of 0 "demo_cache\<lparr>c_maxSize := 5\<rparr>"]
  by (simp add: demo_cache_def cache_inv_def demo_entry_def)

end
