(* ===== verification/Cache_Lifecycle.thy ===== *)
theory Cache_Lifecycle
  imports Disk_Cache
begin

text \<open>
  The lifecycle of the background eviction of \<^verbatim>\<open>cache/cache.go\<close>: \<open>StartEviction\<close>,
  \<open>evictionLoop\<close> and \<open>Stop\<close> as a step relation. One owner calls \<open>StartEviction\<close> and
  \<open>Stop\<close>, one call after the other; each start spawns a goroutine that runs at its own
  pace. Contexts are named by their goroutine, channels by numbers (the one \<open>New\<close> makes
  is 0, the one of the \<open>n\<close>-th start is \<open>n\<close>). A goroutine evaluates the argument of its
  \<open>defer close(c.stopped)\<close> when it begins to run, not when it is spawned.
\<close>

section \<open>States and steps\<close>

datatype eviction_loop =
    Spawned
  | Running nat     \<comment> \<open>with the channel it will close\<close>
  | Ended

datatype owner =
    Idle
  | Awaiting nat    \<comment> \<open>in \<open>Stop\<close>, receiving from this channel\<close>

record lifecycle =
  lf_cache :: cache
  lf_stopped :: nat              \<comment> \<open>the field \<open>stopped\<close>\<close>
  lf_cancel :: "nat option"      \<comment> \<open>the context the field \<open>cancel\<close> cancels\<close>
  lf_loops :: "eviction_loop list"
  lf_cancelled :: "nat list"
  lf_closed :: "nat list"
  lf_owner :: owner
  lf_panic :: bool

definition new_lifecycle :: "cache \<Rightarrow> lifecycle" where
  "new_lifecycle c = \<lparr>lf_cache = c, lf_stopped = 0, lf_cancel = None, lf_loops = [], lf_cancelled = [],
     lf_closed = [], lf_owner = Idle, lf_panic = False\<rparr>"

definition startEviction :: "lifecycle \<Rightarrow> lifecycle" where
  "startEviction s =
     s\<lparr>lf_stopped := Suc (length (lf_loops s)), lf_cancel := Some (length (lf_loops s)),
       lf_loops := lf_loops s @ [Spawned]\<rparr>"

definition loop_begins :: "nat \<Rightarrow> lifecycle \<Rightarrow> lifecycle" where
  "loop_begins i s = s\<lparr>lf_loops := (lf_loops s)[i := Running (lf_stopped s)]\<rparr>"

definition loop_ends :: "nat \<Rightarrow> nat \<Rightarrow> lifecycle \<Rightarrow> lifecycle" where
  "loop_ends i ch s =
     s\<lparr>lf_loops := (lf_loops s)[i := Ended], lf_closed := ch # lf_closed s,
       lf_panic := lf_panic s \<or> ch \<in> set (lf_closed s)\<rparr>"

definition stop_begins :: "nat \<Rightarrow> lifecycle \<Rightarrow> lifecycle" where
  "stop_begins i s = s\<lparr>lf_cancelled := i # lf_cancelled s, lf_owner := Awaiting (lf_stopped s)\<rparr>"

definition stop_ends :: "lifecycle \<Rightarrow> lifecycle" where
  "stop_ends s = s\<lparr>lf_owner := Idle, lf_cache := stop (lf_cache s)\<rparr>"

text \<open>What the goroutines do on their own: begin, evict on a tick, see their context cancelled, end.\<close>

inductive loop_step :: "world \<Rightarrow> lifecycle \<Rightarrow> lifecycle \<Rightarrow> bool" for w where
  begins: "i < length (lf_loops s) \<Longrightarrow> lf_loops s ! i = Spawned \<Longrightarrow> loop_step w s (loop_begins i s)"
| tick: "i < length (lf_loops s) \<Longrightarrow> lf_loops s ! i = Running ch \<Longrightarrow>
    loop_step w s (s\<lparr>lf_cache := eviction_tick w now (lf_cache s)\<rparr>)"
| parent_done: "i < length (lf_loops s) \<Longrightarrow> loop_step w s (s\<lparr>lf_cancelled := i # lf_cancelled s\<rparr>)"
| ends: "i < length (lf_loops s) \<Longrightarrow> lf_loops s ! i = Running ch \<Longrightarrow> i \<in> set (lf_cancelled s) \<Longrightarrow>
    loop_step w s (loop_ends i ch s)"

text \<open>
  With the flag, the owner starts the eviction only when no earlier loop is running, as the
  comment of \<open>StartEviction\<close> asks (``after a previous Stop'').
\<close>

inductive eviction_step :: "bool \<Rightarrow> world \<Rightarrow> lifecycle \<Rightarrow> lifecycle \<Rightarrow> bool" for careful w where
  start: "lf_owner s = Idle \<Longrightarrow> (careful \<longrightarrow> list_all (\<lambda>l. l = Ended) (lf_loops s)) \<Longrightarrow>
    eviction_step careful w s (startEviction s)"
| by_loop: "loop_step w s s' \<Longrightarrow> eviction_step careful w s s'"
| stop_unstarted: "lf_owner s = Idle \<Longrightarrow> lf_cancel s = None \<Longrightarrow> eviction_step careful w s (stop_ends s)"
| stop_cancels: "lf_owner s = Idle \<Longrightarrow> lf_cancel s = Some i \<Longrightarrow> eviction_step careful w s (stop_begins i s)"
| stop_received: "lf_owner s = Awaiting ch \<Longrightarrow> ch \<in> set (lf_closed s) \<Longrightarrow> eviction_step careful w s (stop_ends s)"

inductive_cases eviction_stepE: "eviction_step careful w s s'"

inductive_cases loop_stepE: "loop_step w s s'"

inductive lifecycle_reach :: "bool \<Rightarrow> world \<Rightarrow> lifecycle \<Rightarrow> bool" for careful w where
  initially: "lifecycle_reach careful w (new_lifecycle c)"
| after: "lifecycle_reach careful w s \<Longrightarrow> eviction_step careful w s s' \<Longrightarrow> lifecycle_reach careful w s'"

section \<open>The invariant of a careful owner\<close>

text \<open>At most the last loop runs, and it holds the current channel until it closes it.\<close>

definition last_loop_ok :: "lifecycle \<Rightarrow> bool" where
  "last_loop_ok s \<longleftrightarrow>
     lf_cancel s = Some (length (lf_loops s) - 1) \<and> lf_stopped s = length (lf_loops s)
     \<and> (case last (lf_loops s) of
          Spawned \<Rightarrow> lf_stopped s \<notin> set (lf_closed s)
        | Running ch \<Rightarrow> ch = lf_stopped s \<and> ch \<notin> set (lf_closed s)
        | Ended \<Rightarrow> lf_stopped s \<in> set (lf_closed s))"

definition lifecycle_inv :: "lifecycle \<Rightarrow> bool" where
  "lifecycle_inv s \<longleftrightarrow>
     \<not> lf_panic s \<and> list_all (\<lambda>l. l = Ended) (butlast (lf_loops s))
     \<and> list_all (\<lambda>ch. ch \<le> length (lf_loops s)) (lf_closed s)
     \<and> (if lf_loops s = [] then lf_cancel s = None \<and> lf_closed s = [] else last_loop_ok s)
     \<and> (case lf_owner s of
          Idle \<Rightarrow> True
        | Awaiting ch \<Rightarrow> lf_loops s \<noteq> [] \<and> ch = lf_stopped s \<and> length (lf_loops s) - 1 \<in> set (lf_cancelled s))"

text \<open>Neither the cache nor who waits or is cancelled matters to the last loop.\<close>

lemma last_loop_ok_simps [simp]:
  "last_loop_ok (s\<lparr>lf_cache := c\<rparr>) = last_loop_ok s" "last_loop_ok (s\<lparr>lf_owner := ow\<rparr>) = last_loop_ok s"
  "last_loop_ok (s\<lparr>lf_cancelled := cs\<rparr>) = last_loop_ok s"
  by (simp_all add: last_loop_ok_def cong: eviction_loop.case_cong)

lemma lifecycle_inv_cache [simp]: "lifecycle_inv (s\<lparr>lf_cache := c\<rparr>) = lifecycle_inv s"
  by (simp add: lifecycle_inv_def cong: owner.case_cong)

lemma last_loop_cancel: "last_loop_ok s \<Longrightarrow> lf_cancel s = Some (length (lf_loops s) - 1)"
  by (simp add: last_loop_ok_def)

lemma only_last_runs:
  assumes "lifecycle_inv s" "i < length (lf_loops s)" "lf_loops s ! i \<noteq> Ended"
  shows "i = length (lf_loops s) - 1" "lf_loops s \<noteq> []" "lf_loops s ! i = last (lf_loops s)"
proof -
  show ne: "lf_loops s \<noteq> []" using assms(2) by auto
  have "butlast (lf_loops s) ! i = Ended" if "i < length (lf_loops s) - 1"
    using assms(1) that by (simp add: lifecycle_inv_def list_all_length)
  then have "\<not> i < length (lf_loops s) - 1" using assms(2,3) by (auto simp: nth_butlast)
  with assms(2) show i: "i = length (lf_loops s) - 1" by simp
  show "lf_loops s ! i = last (lf_loops s)" unfolding i by (simp add: last_conv_nth ne)
qed

lemma replace_last:
  assumes "xs \<noteq> []"
  shows "last (xs[length xs - Suc 0 := x]) = x" "butlast (xs[length xs - Suc 0 := x]) = butlast xs"
  using assms by (cases xs rule: rev_cases; simp)+

lemma inv_begins:
  assumes "lifecycle_inv s" "i < length (lf_loops s)" "lf_loops s ! i = Spawned"
  shows "lifecycle_inv (loop_begins i s)"
proof -
  note l = only_last_runs [OF assms(1,2)]
  have "i = length (lf_loops s) - 1" "lf_loops s \<noteq> []" "last (lf_loops s) = Spawned" using l assms(3) by auto
  then show ?thesis
    using assms(1) by (auto simp: lifecycle_inv_def last_loop_ok_def loop_begins_def replace_last split: owner.splits)
qed

lemma inv_ends:
  assumes "lifecycle_inv s" "i < length (lf_loops s)" "lf_loops s ! i = Running ch"
  shows "lifecycle_inv (loop_ends i ch s)"
proof -
  note l = only_last_runs [OF assms(1,2)]
  have "i = length (lf_loops s) - 1" "lf_loops s \<noteq> []" "last (lf_loops s) = Running ch" using l assms(3) by auto
  then show ?thesis
    using assms(1) by (auto simp: lifecycle_inv_def last_loop_ok_def loop_ends_def replace_last split: owner.splits)
qed

lemma inv_start:
  assumes "lifecycle_inv s" "lf_owner s = Idle" "list_all (\<lambda>l. l = Ended) (lf_loops s)"
  shows "lifecycle_inv (startEviction s)"
proof -
  have "Suc (length (lf_loops s)) \<notin> set (lf_closed s)"
    using assms(1) by (auto simp: lifecycle_inv_def list_all_iff)
  then show ?thesis
    using assms by (auto simp: lifecycle_inv_def last_loop_ok_def startEviction_def list_all_iff split: if_splits)
qed

lemma inv_loop_step: "loop_step w s s' \<Longrightarrow> lifecycle_inv s \<Longrightarrow> lifecycle_inv s'"
  by (erule loop_stepE)
    (auto simp: inv_begins inv_ends, auto simp: lifecycle_inv_def split: owner.splits)

lemma inv_owner_steps:
  assumes "lifecycle_inv s"
  shows "lifecycle_inv (stop_ends s)" "lf_cancel s = Some i \<Longrightarrow> lifecycle_inv (stop_begins i s)"
  using assms
  by (auto simp: lifecycle_inv_def stop_begins_def stop_ends_def dest: last_loop_cancel split: if_splits owner.splits)

lemma inv_step: "eviction_step True w s s' \<Longrightarrow> lifecycle_inv s \<Longrightarrow> lifecycle_inv s'"
  by (erule eviction_stepE) (simp_all add: inv_start inv_loop_step inv_owner_steps)

lemma inv_new [simp]: "lifecycle_inv (new_lifecycle c)"
  by (simp add: new_lifecycle_def lifecycle_inv_def)

lemma inv_reach: "lifecycle_reach True w s \<Longrightarrow> lifecycle_inv s"
proof (induction rule: lifecycle_reach.induct)
  case (after s s')
  then show ?case by (blast intro: inv_step)
qed simp

text \<open>A waiting \<open>Stop\<close>: its channel is closed, or the last loop closes it in at most two steps.\<close>

lemma stop_progress:
  assumes "lifecycle_inv s" "lf_owner s = Awaiting ch"
  shows "ch \<in> set (lf_closed s) \<and> list_all (\<lambda>l. l = Ended) (lf_loops s)
       \<or> (\<exists>s1 s2. (s1 = s \<or> loop_step w s s1) \<and> loop_step w s1 s2
            \<and> lf_owner s2 = Awaiting ch \<and> ch \<in> set (lf_closed s2))"
proof -
  let ?n = "length (lf_loops s) - 1"
  have ne: "lf_loops s \<noteq> []" and ch: "ch = lf_stopped s" and canc: "?n \<in> set (lf_cancelled s)"
    and ok: "last_loop_ok s" and ended: "list_all (\<lambda>l. l = Ended) (butlast (lf_loops s))" and calm: "\<not> lf_panic s"
    using assms by (auto simp: lifecycle_inv_def)
  have n: "?n < length (lf_loops s)" "lf_loops s ! ?n = last (lf_loops s)" using ne by (simp_all add: last_conv_nth)
  show ?thesis
  proof (cases "last (lf_loops s)")
    case Spawned
    let ?s1 = "loop_begins ?n s"
    have b: "loop_step w s ?s1" using n Spawned by (auto intro: loop_step.begins)
    have e: "loop_step w ?s1 (loop_ends ?n ch ?s1)"
      using n(1) canc ch by (intro loop_step.ends) (simp_all add: loop_begins_def)
    have "lf_owner (loop_ends ?n ch ?s1) = Awaiting ch" "ch \<in> set (lf_closed (loop_ends ?n ch ?s1))"
      "\<not> lf_panic (loop_ends ?n ch ?s1)"
      using ok Spawned calm ch assms(2) by (auto simp: loop_begins_def loop_ends_def last_loop_ok_def)
    with b e calm show ?thesis by blast
  next
    case (Running c)
    then have c: "c = ch" "ch \<notin> set (lf_closed s)" using ok ch by (auto simp: last_loop_ok_def)
    have e: "loop_step w s (loop_ends ?n ch s)" using n canc Running c by (intro loop_step.ends) simp_all
    have "lf_owner (loop_ends ?n ch s) = Awaiting ch" "ch \<in> set (lf_closed (loop_ends ?n ch s))"
      "\<not> lf_panic (loop_ends ?n ch s)" using c calm assms(2) by (simp_all add: loop_ends_def)
    with e calm show ?thesis by blast
  next
    case Ended
    then have "ch \<in> set (lf_closed s)" using ok ch by (auto simp: last_loop_ok_def)
    moreover have "list_all (\<lambda>l. l = Ended) (lf_loops s)"
      using ended Ended append_butlast_last_id [OF ne] by (metis (full_types) list_all_append list.pred_inject)
    ultimately show ?thesis using calm by blast
  qed
qed

lemma closed_all_ended:
  assumes "lifecycle_inv s" "lf_owner s = Awaiting ch" "ch \<in> set (lf_closed s)"
  shows "list_all (\<lambda>l. l = Ended) (lf_loops s)"
proof -
  have ne: "lf_loops s \<noteq> []" and ok: "last_loop_ok s" "ch = lf_stopped s"
    and rest: "list_all (\<lambda>l. l = Ended) (butlast (lf_loops s))"
    using assms by (auto simp: lifecycle_inv_def)
  have "last (lf_loops s) = Ended" using ok assms(3) by (cases "last (lf_loops s)") (auto simp: last_loop_ok_def)
  with rest ne show ?thesis
    using append_butlast_last_id [OF ne] by (metis (full_types) list_all_append list.pred_inject)
qed

section \<open>Properties\<close>



text \<open>Two starts in a row can crash the process: both goroutines can find the second channel, and
  the second of them to end closes a closed channel.\<close>

theorem double_start_panics:
  "\<exists>s. lifecycle_reach False w s \<and> lf_panic s"
proof -
  let ?s1 = "startEviction (new_lifecycle c)" and ?start = "\<lambda>s. startEviction s"
  let ?s2 = "startEviction ?s1"
  let ?s3 = "loop_begins 1 (loop_begins 0 ?s2)"
  let ?s4 = "?s3\<lparr>lf_cancelled := [0]\<rparr>" let ?s5 = "?s3\<lparr>lf_cancelled := [1, 0]\<rparr>"
  note defs = new_lifecycle_def startEviction_def loop_begins_def loop_ends_def
  have "lifecycle_reach False w ?s2"
    by (rule lifecycle_reach.after [OF lifecycle_reach.after [OF lifecycle_reach.initially]]; rule eviction_step.start)
      (simp_all add: defs)
  then have "lifecycle_reach False w (loop_begins 0 ?s2)"
    by (rule lifecycle_reach.after) (rule eviction_step.by_loop, rule loop_step.begins, simp_all add: defs)
  then have r3: "lifecycle_reach False w ?s3"
    by (rule lifecycle_reach.after) (rule eviction_step.by_loop, rule loop_step.begins, simp_all add: defs)
  have "eviction_step False w ?s3 (?s3\<lparr>lf_cancelled := 0 # lf_cancelled ?s3\<rparr>)"
    by (rule eviction_step.by_loop, rule loop_step.parent_done) (simp add: defs)
  then have r4: "lifecycle_reach False w ?s4" using lifecycle_reach.after [OF r3] by (simp add: defs)
  have "eviction_step False w ?s4 (?s4\<lparr>lf_cancelled := 1 # lf_cancelled ?s4\<rparr>)"
    by (rule eviction_step.by_loop, rule loop_step.parent_done) (simp add: defs)
  then have r5: "lifecycle_reach False w ?s5" using lifecycle_reach.after [OF r4] by (simp add: defs)
  have "lifecycle_reach False w (loop_ends 0 2 ?s5)"
    by (rule lifecycle_reach.after [OF r5], rule eviction_step.by_loop, rule loop_step.ends) (simp_all add: defs)
  then have "lifecycle_reach False w (loop_ends 1 2 (loop_ends 0 2 ?s5))"
    by (rule lifecycle_reach.after) (rule eviction_step.by_loop, rule loop_step.ends, simp_all add: defs)
  moreover have "lf_panic (loop_ends 1 2 (loop_ends 0 2 ?s5))" by (simp add: defs)
  ultimately show ?thesis by blast
qed

end
