(* ===== verification/Cache_Mirror.thy ===== *)
theory Cache_Mirror
  imports Cache_Properties
begin

text \<open>
  The database as a mirror of the index. While the statements succeed, a row always
  describes a live entry, so that a removed entry does not come back at the next start; and
  every entry has its row, unless an invalidation by prefix has deleted it.
\<close>

text \<open>What a row and an entry share: all but the access time, which is written lazily.\<close>

definition agrees :: "entry \<Rightarrow> db_row \<Rightarrow> bool" where
  "agrees e r \<longleftrightarrow> r_path r = e_path e \<and> r_size r = e_size e \<and> r_created r = createdAt e
     \<and> r_expires r = timeToUnixNano (expiresAt e)"

fun mirror_at :: "bool \<Rightarrow> entry option \<Rightarrow> db_row option \<Rightarrow> bool" where
  "mirror_at full (Some e) (Some r) = agrees e r"
| "mirror_at full None (Some r) = False"
| "mirror_at full (Some e) None = (\<not> full)"
| "mirror_at full None None = True"

definition mirror :: "bool \<Rightarrow> cache \<Rightarrow> bool" where
  "mirror full c \<longleftrightarrow>
     (case c_db c of None \<Rightarrow> True
      | Some t \<Rightarrow> (\<forall>k. mirror_at full (map_of (c_entries c) k) (map_of t k)))"

definition sql_all :: "world \<Rightarrow> bool" where
  "sql_all w \<longleftrightarrow> (\<forall>k. sql_ok w k)"

lemma sql_allD [simp]: "sql_all w \<Longrightarrow> sql_ok w k"
  by (simp add: sql_all_def)

lemma agrees_row_of [simp]: "agrees e (row_of e)"
  by (simp add: agrees_def row_of_def)

lemma agrees_accessed [simp]:
  "agrees (e\<lparr>accessedAt := t\<rparr>) r = agrees e r" "agrees e (r\<lparr>r_accessed := t\<rparr>) = agrees e r"
  by (simp_all add: agrees_def)

lemma mirror_removeLocked [wf_intros]:
  "sql_all w \<Longrightarrow> mirror full c \<Longrightarrow> mirror full (removeLocked w e c)"
  by (auto simp: mirror_def removeLocked_def db_delete_def delete_conv' split: option.splits)

lemma mirror_remove [wf_intros]: "sql_all w \<Longrightarrow> mirror full c \<Longrightarrow> mirror full (remove w key c)"
  by (auto simp: remove_def intro: wf_intros split: option.split)

lemma mirror_remove_loop [wf_intros]:
  "sql_all w \<Longrightarrow> mirror full c \<Longrightarrow> mirror full (snd (remove_loop w P es c n))"
  by (induction w P es c n rule: remove_loop.induct) (simp_all add: wf_intros)

lemma mirror_evict_loop [wf_intros]:
  "sql_all w \<Longrightarrow> mirror full c \<Longrightarrow> mirror full (evict_loop w limit es c)"
  by (induction w limit es c rule: evict_loop.induct) (simp_all add: wf_intros)

lemma mirror_evictions [wf_intros]:
  assumes "sql_all w" "mirror full c"
  shows "mirror full (evictLRU w c)" "mirror full (softEvictByAge w c)"
    "mirror full (evictExpired w now c)" "mirror full (snd (removeMatching w match c))"
  using assms by (simp_all add: evictLRU_def softEvictByAge_def Let_def evictExpired_def
      removeMatching_def wf_intros)

lemma mirror_tick [wf_intros]:
  "sql_all w \<Longrightarrow> mirror full c \<Longrightarrow> mirror full (eviction_tick w now c)"
  by (simp add: eviction_tick_def Let_def wf_intros)

lemma mirror_get [wf_intros]:
  assumes "sql_all w" "mirror full c"
  shows "mirror full (snd (get w now key c))"
proof (cases "map_of (c_entries c) key")
  case None
  with assms show ?thesis by (simp add: get_def)
next
  case (Some e)
  show ?thesis
  proof (cases "expired now e")
    case True
    with Some assms show ?thesis by (simp add: get_def wf_intros)
  next
    case False
    show ?thesis
    proof (cases "c_db c")
      case None
      with Some False show ?thesis by (simp add: get_def Let_def mirror_def)
    next
      case (Some t)
      with assms(2) have at: "mirror_at full (map_of (c_entries c) k) (map_of t k)" for k
        by (simp add: mirror_def)
      show ?thesis using at [of key] at False \<open>map_of (c_entries c) key = Some e\<close> Some
        by (auto simp: get_def Let_def mirror_def update_conv' split: option.split)
    qed
  qed
qed

lemma mirror_store [wf_intros]:
  "sql_all w \<Longrightarrow> mirror full c \<Longrightarrow> mirror full (store_entry w key e c)"
  by (auto simp: store_entry_def Let_def mirror_def update_conv' split: option.splits)

lemma mirror_files [simp]: "mirror full (c\<lparr>c_files := f\<rparr>) = mirror full c"
  by (cases "c_db c") (simp_all add: mirror_def)

lemma mirror_put_store [wf_intros]:
  "sql_all w \<Longrightarrow> mirror full c \<Longrightarrow> mirror full (snd (put_store w now key data ttl io c))"
  by (auto simp: put_store_def Let_def drop_tmp_def wf_intros split: put_fault.split)

lemma mirror_put [wf_intros]:
  assumes "sql_all w" "mirror full c"
  shows "mirror full (snd (put w now key data ttl io c))"
  using mirror_put_store [OF assms, of now key data ttl io] mirror_evictions(1) [OF assms(1)]
  by (auto simp: put_def split: prod.split sum.split)

lemma mirror_register [wf_intros]:
  "sql_all w \<Longrightarrow> mirror full c \<Longrightarrow> mirror full (registerAfterStream w now key path n c)"
  by (simp add: registerAfterStream_def Let_def wf_intros)

lemma mirror_doFetch [wf_intros]:
  assumes "sql_all w" "mirror full c"
  shows "mirror full (snd (doFetch w now key fetch c))"
proof (cases fetch)
  case (Fetched data ttl io)
  with mirror_put [OF assms, of now key data ttl io] show ?thesis
    by (auto simp: doFetch_def split: prod.split sum.split)
qed (simp_all add: doFetch_def assms)

lemma mirror_getOrFetch [wf_intros]:
  assumes "sql_all w" "mirror full c"
  shows "mirror full (snd (snd (getOrFetch w now key fetch c)))"
  using mirror_get [OF assms, of now key]
    mirror_doFetch [OF assms(1) mirror_get [OF assms], of now key fetch now key]
    mirror_doFetch [OF assms(1) mirror_remove [OF assms(1) mirror_get [OF assms]],
      of now key fetch key now key]
  by (auto simp: getOrFetch_def Let_def split: prod.split option.split sum.split)

text \<open>Deleting rows alone keeps every remaining row backed by an entry.\<close>

lemma mirror_at_weaken: "mirror_at full x y \<Longrightarrow> mirror_at False x y"
  by (cases x; cases y) simp_all

lemma mirror_weaken: "mirror full c \<Longrightarrow> mirror False c"
  by (cases "c_db c") (auto simp: mirror_def intro: mirror_at_weaken)

lemma mirror_removeByPrefix:
  assumes "sql_all w" "mirror full c"
  shows "mirror False (snd (removeByPrefix w pre c))"
proof -
  let ?c = "snd (remove_loop w (\<lambda>k e. has_prefix k pre) (c_entries c) c 0)"
  have m: "mirror False ?c" using mirror_remove_loop [OF assms] by (rule mirror_weaken)
  have [simp]: "mirror_at False x None" for x by (cases x) simp_all
  from m show ?thesis
    by (auto simp: removeByPrefix_def case_prod_unfold Let_def mirror_def
        map_of_filter_keys [of "\<lambda>k. \<not> sql_like (pre @ ''%'') k"] split: option.split)
qed

text \<open>The operations under which the mirror stays complete, and those under which it stays sound.\<close>

fun keeps_rows :: "cache_op \<Rightarrow> bool" where
  "keeps_rows (OpRemoveByPrefix pre) = False"
| "keeps_rows _ = True"

fun wipes_db :: "cache_op \<Rightarrow> bool" where
  "wipes_db (OpClear ok left stored) = (stored = [])"
| "wipes_db _ = True"

lemma mirror_step:
  assumes "sql_all w" "mirror full c" "wipes_db op" "full \<longrightarrow> keeps_rows op"
  shows "mirror full (cache_step w op c)"
proof (cases op)
  case (OpRemoveByPrefix pre)
  with assms(4) have "\<not> full" by auto
  with OpRemoveByPrefix mirror_removeByPrefix [OF assms(1,2)] show ?thesis by simp
next
  case (OpClear ok left stored)
  with assms(3) show ?thesis by (simp add: clear_def mirror_def openMetadataDB_def)
next
  case OpStop
  then show ?thesis by (simp add: stop_def mirror_def)
qed (use assms(1,2) in \<open>simp_all add: wf_intros\<close>)

lemma mirror_run:
  assumes "sql_all w"
  shows "mirror full c \<Longrightarrow> list_all (\<lambda>op. wipes_db op \<and> (full \<longrightarrow> keeps_rows op)) ops \<Longrightarrow>
    mirror full (cache_run w ops c)"
  unfolding cache_run_def
  by (induction ops arbitrary: c) (simp_all add: mirror_step [OF assms])

lemma mirror_demo: "mirror full demo_cache"
  by (simp add: mirror_def demo_cache_def)

end
