(* ===== verification/Server_Lifecycle.thy ===== *)
theory Server_Lifecycle
  imports Cache_Lifecycle Cache_Mirror
begin

text \<open>
  The lifecycle of the package servers: \<open>Start\<close> and \<open>Stop\<close> of \<^verbatim>\<open>npm/npm.go\<close>,
  \<^verbatim>\<open>apt/apt.go\<close> and \<^verbatim>\<open>s3/server.go\<close>, the requests that run meanwhile, and the
  eviction of the cache below them. The servers differ in the order in which \<open>Stop\<close> closes
  the cache and drains the requests. The sockets and the time limit of \<open>Shutdown\<close> are the
  environment's choices; a request is the operations it performs on the cache, one at a
  time.
\<close>

section \<open>States and steps\<close>

datatype stop_stage =
    Close_Cache   \<comment> \<open>\<open>cache.Stop()\<close>\<close>
  | Shut_Server   \<comment> \<open>\<open>server.Shutdown(ctx)\<close> with its time limit\<close>

record server_life =
  sv_life :: lifecycle
  sv_addr :: "string option"                     \<comment> \<open>the address \<open>Addr\<close> tells\<close>
  sv_server :: bool                              \<comment> \<open>the field \<open>server\<close> is set\<close>
  sv_accepting :: bool                           \<comment> \<open>the listener is open\<close>
  sv_busy :: nat                                 \<comment> \<open>requests in progress\<close>
  sv_todo :: "stop_stage list option"            \<comment> \<open>what is left of \<open>Stop\<close>, once called\<close>
  sv_failed :: bool                              \<comment> \<open>\<open>Shutdown\<close> ran out of time\<close>
  sv_rows :: "(string \<times> db_row) list option"     \<comment> \<open>the rows on disk when the cache closed\<close>

definition new_server :: "cache \<Rightarrow> server_life" where
  "new_server c = \<lparr>sv_life = new_lifecycle c, sv_addr = None, sv_server = False, sv_accepting = False,
     sv_busy = 0, sv_todo = None, sv_failed = False, sv_rows = None\<rparr>"

text \<open>\<open>Start\<close>, with what \<open>net.Listen\<close> answers; nothing happens when it fails.\<close>

definition npm_start :: "string option \<Rightarrow> server_life \<Rightarrow> string option \<times> server_life" where
  "npm_start bound s =
     (case bound of None \<Rightarrow> (None, s)
      | Some addr \<Rightarrow> (Some addr, s\<lparr>sv_addr := Some addr, sv_server := True, sv_accepting := True,
          sv_life := startEviction (sv_life s)\<rparr>))"

definition apt_start :: "string option \<Rightarrow> server_life \<Rightarrow> string option \<times> server_life" where
  "apt_start = npm_start"

definition s3_start :: "string option \<Rightarrow> server_life \<Rightarrow> string option \<times> server_life" where
  "s3_start = npm_start"

text \<open>The order of \<open>Stop\<close>.\<close>

definition npm_stop :: "stop_stage list" where "npm_stop = [Close_Cache, Shut_Server]"

definition apt_stop :: "stop_stage list" where "apt_stop = [Close_Cache, Shut_Server]"

definition s3_stop :: "stop_stage list" where "s3_stop = [Shut_Server, Close_Cache]"

definition server_cache :: "server_life \<Rightarrow> cache" where
  "server_cache s = lf_cache (sv_life s)"

definition on_cache :: "(cache \<Rightarrow> cache) \<Rightarrow> server_life \<Rightarrow> server_life" where
  "on_cache f s = s\<lparr>sv_life := (sv_life s)\<lparr>lf_cache := f (lf_cache (sv_life s))\<rparr>\<rparr>"

text \<open>The last part of \<open>cache.Stop\<close>: the database is closed, and its rows stay on disk.\<close>

definition close_cache :: "stop_stage list \<Rightarrow> server_life \<Rightarrow> server_life" where
  "close_cache rest s =
     s\<lparr>sv_life := stop_ends (sv_life s), sv_todo := Some rest,
       sv_rows := (if sv_rows s = None then c_db (server_cache s) else sv_rows s)\<rparr>"

text \<open>What handlers do to the cache.\<close>

fun request_op :: "cache_op \<Rightarrow> bool" where
  "request_op (OpGet now key) = True"
| "request_op (OpPut now key data ttl io) = True"
| "request_op (OpGetOrFetch now key fetch) = True"
| "request_op (OpRegister now key path n) = True"
| "request_op (OpRemove key) = True"
| "request_op (OpRemoveMatching match) = True"
| "request_op _ = False"

inductive server_step :: "stop_stage list \<Rightarrow> world \<Rightarrow> server_life \<Rightarrow> server_life \<Rightarrow> bool" for stages w where
  start: "sv_todo s = None \<Longrightarrow> \<not> sv_server s \<Longrightarrow> server_step stages w s (snd (npm_start bound s))"
| evict: "loop_step w (sv_life s) l \<Longrightarrow> server_step stages w s (s\<lparr>sv_life := l\<rparr>)"
| accept: "sv_accepting s \<Longrightarrow> server_step stages w s (s\<lparr>sv_busy := Suc (sv_busy s)\<rparr>)"
| work: "0 < sv_busy s \<Longrightarrow> request_op op \<Longrightarrow> server_step stages w s (on_cache (cache_step w op) s)"
| answer: "0 < sv_busy s \<Longrightarrow> server_step stages w s (s\<lparr>sv_busy := sv_busy s - 1\<rparr>)"
| stop: "sv_todo s = None \<Longrightarrow> server_step stages w s (s\<lparr>sv_todo := Some stages\<rparr>)"
| close_unstarted: "sv_todo s = Some (Close_Cache # rest) \<Longrightarrow> lf_owner (sv_life s) = Idle \<Longrightarrow>
    lf_cancel (sv_life s) = None \<Longrightarrow> server_step stages w s (close_cache rest s)"
| cancel: "sv_todo s = Some (Close_Cache # rest) \<Longrightarrow> lf_owner (sv_life s) = Idle \<Longrightarrow>
    lf_cancel (sv_life s) = Some i \<Longrightarrow> server_step stages w s (s\<lparr>sv_life := stop_begins i (sv_life s)\<rparr>)"
| close: "sv_todo s = Some (Close_Cache # rest) \<Longrightarrow> lf_owner (sv_life s) = Awaiting ch \<Longrightarrow>
    ch \<in> set (lf_closed (sv_life s)) \<Longrightarrow> server_step stages w s (close_cache rest s)"
| no_server: "sv_todo s = Some (Shut_Server # rest) \<Longrightarrow> \<not> sv_server s \<Longrightarrow>
    server_step stages w s (s\<lparr>sv_todo := Some rest\<rparr>)"
| refuse: "sv_todo s = Some (Shut_Server # rest) \<Longrightarrow> sv_server s \<Longrightarrow>
    server_step stages w s (s\<lparr>sv_accepting := False\<rparr>)"
| drained: "sv_todo s = Some (Shut_Server # rest) \<Longrightarrow> sv_server s \<Longrightarrow> \<not> sv_accepting s \<Longrightarrow> sv_busy s = 0 \<Longrightarrow>
    server_step stages w s (s\<lparr>sv_todo := Some rest\<rparr>)"
| timeout: "sv_todo s = Some (Shut_Server # rest) \<Longrightarrow> sv_server s \<Longrightarrow> \<not> sv_accepting s \<Longrightarrow>
    server_step stages w s (s\<lparr>sv_todo := Some rest, sv_failed := True\<rparr>)"

inductive_cases server_stepE: "server_step stages w s s'"

inductive server_reach :: "stop_stage list \<Rightarrow> world \<Rightarrow> cache \<Rightarrow> server_life \<Rightarrow> bool" for stages w c where
  initially: "server_reach stages w c (new_server c)"
| after: "server_reach stages w c s \<Longrightarrow> server_step stages w s s' \<Longrightarrow> server_reach stages w c s'"

section \<open>What holds throughout\<close>

lemma life_simps [simp]:
  "sv_life (on_cache f s) = (sv_life s)\<lparr>lf_cache := f (server_cache s)\<rparr>"
  "sv_busy (on_cache f s) = sv_busy s" "sv_todo (on_cache f s) = sv_todo s" "sv_server (on_cache f s) = sv_server s"
  "sv_accepting (on_cache f s) = sv_accepting s" "sv_failed (on_cache f s) = sv_failed s" "sv_rows (on_cache f s) = sv_rows s"
  "server_cache (on_cache f s) = f (server_cache s)" "server_cache (s\<lparr>sv_life := l\<rparr>) = lf_cache l"
  by (simp_all add: on_cache_def server_cache_def)

text \<open>The loop is stopped once, by \<open>Stop\<close>, and no server means no requests.\<close>

definition server_inv :: "server_life \<Rightarrow> bool" where
  "server_inv s \<longleftrightarrow>
     lifecycle_inv (sv_life s)
     \<and> (\<not> sv_server s \<longrightarrow> lf_loops (sv_life s) = [] \<and> \<not> sv_accepting s \<and> sv_busy s = 0)
     \<and> (lf_owner (sv_life s) \<noteq> Idle \<longrightarrow> (\<exists>rest. sv_todo s = Some (Close_Cache # rest)))"

lemma owner_simps [simp]:
  "lf_owner (startEviction l) = lf_owner l" "lf_loops (startEviction l) = lf_loops l @ [Spawned]"
  "lf_owner (stop_ends l) = Idle" "lf_loops (stop_ends l) = lf_loops l" "lf_cache (stop_ends l) = stop (lf_cache l)"
  "lf_owner (stop_begins i l) = Awaiting (lf_stopped l)" "lf_loops (stop_begins i l) = lf_loops l"
  "lf_cache (startEviction l) = lf_cache l" "lf_cache (stop_begins i l) = lf_cache l"
  by (simp_all add: startEviction_def stop_ends_def stop_begins_def)

lemma loop_step_owner:
  "loop_step w l l' \<Longrightarrow> lf_owner l' = lf_owner l \<and> length (lf_loops l') = length (lf_loops l) \<and> lf_loops l \<noteq> []"
  by (erule loop_stepE) (auto simp: loop_begins_def loop_ends_def)

lemma server_inv_step:
  assumes "server_step stages w s s'" "server_inv s"
  shows "server_inv s'"
  using assms
proof (cases rule: server_step.cases)
  case (evict l)
  then show ?thesis
    using assms(2) loop_step_owner [OF evict(2)] by (auto simp: server_inv_def intro: inv_loop_step)
qed (auto simp: server_inv_def npm_start_def close_cache_def inv_start inv_owner_steps split: option.splits)

lemma server_inv_reach: "server_reach stages w c s \<Longrightarrow> server_inv s"
proof (induction rule: server_reach.induct)
  case (after s s')
  then show ?case by (blast intro: server_inv_step)
qed (simp add: server_inv_def new_server_def, simp add: new_lifecycle_def)

text \<open>The account of the cache holds whoever works on it.\<close>

lemma cache_inv_server_step:
  assumes "server_step stages w s s'" "world_ok w" "cache_inv u (server_cache s)"
  shows "cache_inv u (server_cache s')"
  using assms(1)
proof (cases rule: server_step.cases)
  case (evict l)
  from evict(2) show ?thesis
    using assms(3) cache_inv_step [OF assms(2,3), of "OpTick now" for now] evict(1)
    by (cases rule: loop_step.cases) (auto simp: server_cache_def loop_begins_def loop_ends_def)
next
  case (work op)
  have "untracked_after op u = u" using work(3) by (cases op) simp_all
  then show ?thesis using cache_inv_step [OF assms(2,3), of op] work(1) by simp
qed (use assms(3) in \<open>auto simp: server_cache_def npm_start_def close_cache_def stop_def cache_inv_def split: option.splits\<close>)

lemma cache_inv_server:
  assumes "server_reach stages w c s" "world_ok w" "cache_inv u c"
  shows "cache_inv u (server_cache s)"
  using assms(1)
proof (induction rule: server_reach.induct)
  case (after s s')
  then show ?case by (blast intro: cache_inv_server_step assms(2))
qed (simp add: assms(3) server_cache_def new_server_def new_lifecycle_def)

section \<open>Stop always comes to an end\<close>

lemma server_steps_evict:
  "loop_step w (sv_life s) l \<Longrightarrow> (server_step stages w)\<^sup>*\<^sup>* s (s\<lparr>sv_life := l\<rparr>)"
  by (blast intro: server_step.evict)

lemma closing_ends:
  assumes "server_inv s" "sv_todo s = Some (Close_Cache # rest)" "lf_owner (sv_life s) = Awaiting ch"
  shows "\<exists>s'. (server_step stages w)\<^sup>*\<^sup>* s s' \<and> sv_todo s' = Some rest \<and> server_inv s'"
proof -
  have inv: "lifecycle_inv (sv_life s)" using assms(1) by (simp add: server_inv_def)
  have "\<exists>l. (server_step stages w)\<^sup>*\<^sup>* s (s\<lparr>sv_life := l\<rparr>) \<and> lf_owner l = Awaiting ch \<and> ch \<in> set (lf_closed l)"
    using stop_progress [OF inv assms(3), of w]
  proof (rule disjE)
    assume "ch \<in> set (lf_closed (sv_life s)) \<and> list_all (\<lambda>l. l = Ended) (lf_loops (sv_life s))"
    then show ?thesis using assms(3) by (intro exI [of _ "sv_life s"]) simp
  next
    assume "\<exists>l1 l2. (l1 = sv_life s \<or> loop_step w (sv_life s) l1) \<and> loop_step w l1 l2 \<and> lf_owner l2 = Awaiting ch
      \<and> ch \<in> set (lf_closed l2)"
    then obtain l1 l2 where l1: "l1 = sv_life s \<or> loop_step w (sv_life s) l1" and l2: "loop_step w l1 l2"
      and waits: "lf_owner l2 = Awaiting ch" "ch \<in> set (lf_closed l2)" by blast
    have "(server_step stages w)\<^sup>*\<^sup>* s (s\<lparr>sv_life := l1\<rparr>)" using l1 server_steps_evict by auto
    moreover have "(server_step stages w)\<^sup>*\<^sup>* (s\<lparr>sv_life := l1\<rparr>) (s\<lparr>sv_life := l2\<rparr>)"
      using server_steps_evict [of w "s\<lparr>sv_life := l1\<rparr>" l2] l2 by simp
    ultimately show ?thesis using waits by (blast intro: rtranclp_trans)
  qed
  then obtain l where l: "(server_step stages w)\<^sup>*\<^sup>* s (s\<lparr>sv_life := l\<rparr>)" "lf_owner l = Awaiting ch" "ch \<in> set (lf_closed l)"
    by blast
  have last: "server_step stages w (s\<lparr>sv_life := l\<rparr>) (close_cache rest (s\<lparr>sv_life := l\<rparr>))"
    using l assms(2) by (intro server_step.close) simp_all
  have "server_inv (s\<lparr>sv_life := l\<rparr>)"
    using l(1) assms(1) by (induction rule: rtranclp_induct) (blast intro: server_inv_step)+
  then have "server_inv (close_cache rest (s\<lparr>sv_life := l\<rparr>))" by (rule server_inv_step [OF last])
  then show ?thesis
    using rtranclp.rtrancl_into_rtrancl [OF l(1) last] by (auto simp: close_cache_def)
qed

lemma stopping_ends:
  "server_inv s \<Longrightarrow> sv_todo s = Some todo \<Longrightarrow> \<exists>s'. (server_step stages w)\<^sup>*\<^sup>* s s' \<and> sv_todo s' = Some []"
proof (induction todo arbitrary: s)
  case (Cons stage rest)
  have "\<exists>s1. (server_step stages w)\<^sup>*\<^sup>* s s1 \<and> sv_todo s1 = Some rest \<and> server_inv s1"
  proof (cases stage)
    case Close_Cache
    note todo = Cons.prems(2) [unfolded Close_Cache]
    show ?thesis
    proof (cases "lf_owner (sv_life s)")
      case Idle
      show ?thesis
      proof (cases "lf_cancel (sv_life s)")
        case None
        then have "server_step stages w s (close_cache rest s)" by (rule server_step.close_unstarted [OF todo Idle])
        then show ?thesis using server_inv_step [OF _ Cons.prems(1)] by (auto simp: close_cache_def)
      next
        case (Some i)
        let ?s = "s\<lparr>sv_life := stop_begins i (sv_life s)\<rparr>"
        have one: "server_step stages w s ?s" by (rule server_step.cancel [OF todo Idle Some])
        have "\<exists>s'. (server_step stages w)\<^sup>*\<^sup>* ?s s' \<and> sv_todo s' = Some rest \<and> server_inv s'"
          using closing_ends [OF server_inv_step [OF one Cons.prems(1)], of rest "lf_stopped (sv_life s)" stages w] todo
          by simp
        with one show ?thesis by (blast intro: converse_rtranclp_into_rtranclp)
      qed
    next
      case (Awaiting ch)
      with closing_ends [OF Cons.prems(1) todo] show ?thesis by blast
    qed
  next
    case Shut_Server
    note todo = Cons.prems(2) [unfolded Shut_Server]
    show ?thesis
    proof (cases "sv_server s")
      case False
      with todo have "server_step stages w s (s\<lparr>sv_todo := Some rest\<rparr>)" by (intro server_step.no_server)
      then show ?thesis using server_inv_step [OF _ Cons.prems(1)] by auto
    next
      case True
      let ?s = "s\<lparr>sv_accepting := False\<rparr>" and ?s' = "s\<lparr>sv_accepting := False, sv_todo := Some rest, sv_failed := True\<rparr>"
      have one: "server_step stages w s ?s" using todo True by (intro server_step.refuse)
      have two: "server_step stages w ?s ?s'"
        using server_step.timeout [of ?s rest stages w] todo True by simp
      have "server_inv ?s'" using server_inv_step [OF two server_inv_step [OF one Cons.prems(1)]] .
      then show ?thesis using one two by (intro exI [of _ ?s']) (auto intro: rtranclp_trans)
    qed
  qed
  then obtain s1 where "(server_step stages w)\<^sup>*\<^sup>* s s1" "sv_todo s1 = Some rest" "server_inv s1" by blast
  with Cons.IH [of s1] show ?case by (blast intro: rtranclp_trans)
qed blast

section \<open>The database stays open\<close>

lemma db_open_removeLocked [simp]: "(c_db (removeLocked w e c) = None) = (c_db c = None)"
  by (auto simp: removeLocked_def db_delete_def split: option.splits)

lemma db_open_remove_loop [simp]: "(c_db (snd (remove_loop w P es c n)) = None) = (c_db c = None)"
  by (induction w P es c n rule: remove_loop.induct) simp_all

lemma db_open_evict_loop [simp]: "(c_db (evict_loop w limit xs c) = None) = (c_db c = None)"
  by (induction w limit xs c rule: evict_loop.induct) simp_all

lemma db_open_removes [simp]:
  "(c_db (remove w key c) = None) = (c_db c = None)" "(c_db (snd (removeMatching w match c)) = None) = (c_db c = None)"
  "(c_db (evictLRU w c) = None) = (c_db c = None)" "(c_db (softEvictByAge w c) = None) = (c_db c = None)"
  "(c_db (evictExpired w now c) = None) = (c_db c = None)"
  by (simp_all add: remove_def removeMatching_def evictLRU_def softEvictByAge_def evictExpired_def Let_def
      split: option.split)

lemma db_open_tick [simp]: "(c_db (eviction_tick w now c) = None) = (c_db c = None)"
  by (simp add: eviction_tick_def Let_def)

lemma db_open_get: "(c_db (snd (get w now key c)) = None) = (c_db c = None)"
  by (auto simp: get_def Let_def split: option.splits if_splits)

lemma db_open_store [simp]: "(c_db (store_entry w key e c) = None) = (c_db c = None)"
  by (auto simp: store_entry_def Let_def split: option.splits)

lemma db_open_put: "(c_db (snd (put w now key data ttl io c)) = None) = (c_db c = None)"
  by (auto simp: put_def put_store_def drop_tmp_def Let_def split: put_fault.split)

lemma db_open_fetch: "(c_db (snd (doFetch w now key f c)) = None) = (c_db c = None)"
proof (cases f)
  case (Fetched data ttl io)
  then show ?thesis
    using db_open_put [of w now key data ttl io c] by (auto simp: doFetch_def split: prod.split sum.split)
qed (simp_all add: doFetch_def)

lemma db_open_getOrFetch: "(c_db (snd (snd (getOrFetch w now key f c))) = None) = (c_db c = None)"
  using db_open_get [of w now key c] db_open_fetch [of w now key f "snd (get w now key c)"]
    db_open_fetch [of w now key f "remove w key (snd (get w now key c))"]
  by (auto simp: getOrFetch_def Let_def split: prod.splits option.splits sum.splits)

lemma db_open_request: "request_op op \<Longrightarrow> (c_db (cache_step w op c) = None) = (c_db c = None)"
  by (cases op) (simp_all add: registerAfterStream_def Let_def db_open_get db_open_put db_open_getOrFetch)

section \<open>Draining before closing\<close>

text \<open>
  The stop of the S3 server: until the cache is closed, the rows mirror the entries; once the
  requests are drained nobody works on the cache any more, and the rows it leaves do.
\<close>

definition drained_inv :: "bool \<Rightarrow> server_life \<Rightarrow> bool" where
  "drained_inv db s \<longleftrightarrow>
     server_inv s
     \<and> (sv_todo s = None \<or> sv_todo s = Some s3_stop
        \<or> sv_todo s \<in> {Some [Close_Cache], Some []} \<and> (sv_failed s \<or> \<not> sv_accepting s \<and> sv_busy s = 0))
     \<and> (if sv_todo s = Some []
        then list_all (\<lambda>l. l = Ended) (lf_loops (sv_life s)) \<and> (db \<longrightarrow> sv_rows s \<noteq> None)
          \<and> (sv_failed s \<or> mirror True ((server_cache s)\<lparr>c_db := sv_rows s\<rparr>))
        else sv_rows s = None \<and> (db \<longrightarrow> c_db (server_cache s) \<noteq> None) \<and> mirror True (server_cache s))"

lemma request_op_mirror:
  assumes "sql_all w" "mirror True c" "request_op op"
  shows "mirror True (cache_step w op c)"
proof (rule mirror_step [OF assms(1,2)])
  show "wipes_db op" "True \<longrightarrow> keeps_rows op" using assms(3) by (cases op; simp)+
qed

lemma loop_step_cache:
  assumes "loop_step w l l'" "sql_all w" "mirror True (lf_cache l)"
  shows "mirror True (lf_cache l') \<and> (c_db (lf_cache l') = None) = (c_db (lf_cache l) = None)"
  using assms by (cases rule: loop_step.cases) (simp_all add: loop_begins_def loop_ends_def mirror_tick)

lemma ended_loops_idle:
  assumes "loop_step w l l'" "list_all (\<lambda>l. l = Ended) (lf_loops l)"
  shows "lf_loops l' = lf_loops l \<and> lf_cache l' = lf_cache l"
  using assms by (cases rule: loop_step.cases) (auto simp: list_all_length)

lemma drained_close:
  assumes "drained_inv db s" "sv_todo s = Some (Close_Cache # rest)" "server_inv (close_cache rest s)"
    "list_all (\<lambda>l. l = Ended) (lf_loops (sv_life s))"
  shows "drained_inv db (close_cache rest s)"
proof -
  have "rest = []" using assms(1,2) by (auto simp: drained_inv_def s3_stop_def)
  moreover have "(stop (server_cache s))\<lparr>c_db := c_db (server_cache s)\<rparr> = server_cache s" by (simp add: stop_def)
  ultimately show ?thesis
    using assms by (auto simp: drained_inv_def close_cache_def s3_stop_def server_cache_def)
qed

lemma drained_step:
  assumes "server_step s3_stop w s s'" "sql_all w" "drained_inv db s"
  shows "drained_inv db s'"
proof -
  have inv: "server_inv s" using assms(3) by (simp add: drained_inv_def)
  have inv': "server_inv s'" using server_inv_step [OF assms(1) inv] .
  have life: "lifecycle_inv (sv_life s)" using inv by (simp add: server_inv_def)
  show ?thesis using assms(1)
  proof (cases rule: server_step.cases)
    case (start bound)
    then show ?thesis
      using assms(3) inv' by (auto simp: drained_inv_def npm_start_def server_cache_def split: option.splits)
  next
    case (evict l)
    have m: "mirror True (lf_cache l) \<and> (c_db (lf_cache l) = None) = (c_db (server_cache s) = None)"
      if "mirror True (server_cache s)"
      using loop_step_cache [OF evict(2) assms(2)] that by (simp add: server_cache_def)
    show ?thesis
    proof (cases "sv_todo s = Some []")
      case True
      then have "lf_loops l = lf_loops (sv_life s) \<and> lf_cache l = server_cache s"
        using ended_loops_idle [OF evict(2)] assms(3) by (simp add: drained_inv_def server_cache_def)
      with True show ?thesis using assms(3) inv' evict(1) by (auto simp: drained_inv_def s3_stop_def)
    next
      case False
      with m show ?thesis using assms(3) inv' evict(1) by (auto simp: drained_inv_def)
    qed
  next
    case (work op)
    have "sv_failed s" if "sv_todo s = Some []" using assms(3) work(2) that by (auto simp: drained_inv_def s3_stop_def)
    then show ?thesis
      using assms(3) inv' work request_op_mirror [OF assms(2) _ work(3)] db_open_request [OF work(3), of w]
      by (auto simp: drained_inv_def)
  next
    case close_unstarted
    have "lf_loops (sv_life s) = []" using life close_unstarted(4)
      by (auto simp: lifecycle_inv_def dest: last_loop_cancel split: if_splits)
    then show ?thesis using drained_close [OF assms(3) close_unstarted(2)] inv' close_unstarted(1) by simp
  next
    case (close rest ch)
    show ?thesis using drained_close [OF assms(3) close(2)] closed_all_ended [OF life close(3,4)] inv' close(1) by simp
  qed (use assms(3) inv' in \<open>auto simp: drained_inv_def s3_stop_def server_cache_def server_inv_def\<close>)
qed

lemma drained_reach:
  assumes "server_reach s3_stop w c s" "sql_all w" "mirror True c"
  shows "drained_inv (c_db c \<noteq> None) s"
  using assms(1)
proof (induction rule: server_reach.induct)
  case initially
  have "server_inv (new_server c)" by (rule server_inv_reach [OF server_reach.initially])
  then show ?case
    using assms(3) by (simp add: drained_inv_def) (simp add: new_server_def new_lifecycle_def server_cache_def)
next
  case (after s s')
  then show ?case using drained_step [OF _ assms(2)] by blast
qed

section \<open>Properties\<close>

text \<open>C21: A graceful stop of the S3 server loses nothing. Whatever requests and evictions ran, when
  \<open>Stop\<close> has returned without an error no request is in progress or can still come, and the
  rows on disk mirror the entries of the cache: every entry has its row, with its path, size
  and times, and every row has its entry, which is what a restart needs to restore them.\<close>

theorem s3_stop_keeps_entries:
  assumes "server_reach s3_stop w c s" "sql_all w" "mirror True c" "c_db c = Some rows"
    "sv_todo s = Some []" "\<not> sv_failed s"
  shows "sv_busy s = 0 \<and> \<not> sv_accepting s
    \<and> (\<exists>t. sv_rows s = Some t \<and> (\<forall>k. mirror_at True (map_of (c_entries (server_cache s)) k) (map_of t k)))"
  using drained_reach [OF assms(1-3)] assms(4-6) by (auto simp: drained_inv_def s3_stop_def mirror_def)

text \<open>The calls that lead to a stopped server; the loop begins late.\<close>

lemma reach_start:
  "server_reach stages w c
     ((new_server c)\<lparr>sv_addr := Some a, sv_server := True, sv_accepting := True, sv_life := startEviction (new_lifecycle c)\<rparr>)"
proof -
  have "server_step stages w (new_server c) (snd (npm_start (Some a) (new_server c)))"
    by (rule server_step.start) (simp_all add: new_server_def)
  then show ?thesis
    using server_reach.after [OF server_reach.initially] by (simp add: npm_start_def new_server_def)
qed

text \<open>The eviction lifecycle of one start that is stopped before it ticks.\<close>

definition closing_life :: "cache \<Rightarrow> lifecycle" where
  "closing_life c = loop_ends 0 1 (loop_begins 0 (stop_begins 0 (startEviction (new_lifecycle c))))"

lemma closing_life_simps [simp]:
  "lf_owner (closing_life c) = Awaiting 1" "lf_closed (closing_life c) = [1]" "lf_cache (closing_life c) = c"
  by (simp_all add: closing_life_def loop_ends_def loop_begins_def stop_begins_def startEviction_def new_lifecycle_def)

lemma reach_closing:
  assumes "server_reach stages w c s" "sv_todo s = Some (Close_Cache # rest)"
    "sv_life s = startEviction (new_lifecycle c)"
  shows "server_reach stages w c (close_cache rest (s\<lparr>sv_life := closing_life c\<rparr>))"
proof -
  let ?l1 = "stop_begins 0 (startEviction (new_lifecycle c))"
  note defs = loop_begins_def stop_begins_def startEviction_def new_lifecycle_def
  have "server_step stages w s (s\<lparr>sv_life := ?l1\<rparr>)"
    using server_step.cancel [OF assms(2), of 0 stages w] assms(3) by (simp add: startEviction_def new_lifecycle_def)
  with assms(1) have 1: "server_reach stages w c (s\<lparr>sv_life := ?l1\<rparr>)" by (rule server_reach.after)
  have "loop_step w ?l1 (loop_begins 0 ?l1)" by (rule loop_step.begins) (simp_all add: defs)
  then have 2: "server_reach stages w c (s\<lparr>sv_life := loop_begins 0 ?l1\<rparr>)"
    using server_reach.after [OF 1 server_step.evict] by simp
  have "loop_step w (loop_begins 0 ?l1) (closing_life c)"
    unfolding closing_life_def by (rule loop_step.ends) (simp_all add: defs)
  then have 3: "server_reach stages w c (s\<lparr>sv_life := closing_life c\<rparr>)"
    using server_reach.after [OF 2 server_step.evict] by simp
  show ?thesis using assms(2) by (intro server_reach.after [OF 3] server_step.close [where ch = 1]) simp_all
qed

lemma demo_stopped:
  "\<exists>s. server_reach s3_stop demo_world demo_cache s \<and> sv_todo s = Some [] \<and> \<not> sv_failed s
     \<and> sv_rows s = c_db demo_cache \<and> server_cache s = stop demo_cache"
proof -
  let ?c = demo_cache and ?w = demo_world
  let ?s1 = "(new_server ?c)\<lparr>sv_addr := Some [], sv_server := True, sv_accepting := True,
    sv_life := startEviction (new_lifecycle ?c)\<rparr>"
  let ?s2 = "?s1\<lparr>sv_todo := Some s3_stop\<rparr>" let ?s3 = "?s2\<lparr>sv_accepting := False\<rparr>"
  let ?s4 = "?s3\<lparr>sv_todo := Some [Close_Cache]\<rparr>"
  have 2: "server_reach s3_stop ?w ?c ?s2"
    by (rule server_reach.after [OF reach_start], rule server_step.stop) (simp add: new_server_def)
  have 3: "server_reach s3_stop ?w ?c ?s3"
    by (rule server_reach.after [OF 2], rule server_step.refuse [where rest = "[Close_Cache]"]) (simp_all add: s3_stop_def)
  have 4: "server_reach s3_stop ?w ?c ?s4"
    by (rule server_reach.after [OF 3], rule server_step.drained [where rest = "[Close_Cache]"])
      (simp_all add: s3_stop_def new_server_def)
  have "server_reach s3_stop ?w ?c (close_cache [] (?s4\<lparr>sv_life := closing_life ?c\<rparr>))"
    by (rule reach_closing [OF 4]) simp_all
  then show ?thesis
    by (intro exI [of _ "close_cache [] (?s4\<lparr>sv_life := closing_life ?c\<rparr>)"])
      (auto simp: close_cache_def new_server_def server_cache_def)
qed

lemma demo_sql_all: "sql_all demo_world"
  by (simp add: sql_all_def)

theorem s3_stop_keeps_entries_witness:
  "\<exists>w c s t. server_reach s3_stop w c s \<and> sv_rows s = Some t \<and> map_of (c_entries (server_cache s)) ''k2'' \<noteq> None
     \<and> (\<forall>k. mirror_at True (map_of (c_entries (server_cache s)) k) (map_of t k))"
proof -
  obtain s where s: "server_reach s3_stop demo_world demo_cache s" "sv_todo s = Some []" "\<not> sv_failed s"
    "server_cache s = stop demo_cache" using demo_stopped by blast
  have "c_db demo_cache = Some (the (c_db demo_cache))" by (simp add: demo_cache_def)
  from s3_stop_keeps_entries [OF s(1) demo_sql_all mirror_demo this s(2,3)] s(1)
  show ?thesis
    by (intro exI [of _ demo_world] exI [of _ demo_cache] exI [of _ s]) (auto simp: s(4) stop_def demo_cache_def)
qed

text \<open>C40: The npm and APT servers close the cache first. A request still in progress when \<open>Stop\<close> is
  called then stores its file in a cache without a database: \<open>Stop\<close> returns without an error,
  the file is there, and no row describes it, so that after the next start it is unreachable
  and its bytes are counted forever.\<close>

theorem early_close_loses_entry:
  fixes io :: put_io
  assumes "stages \<in> {npm_stop, apt_stop}" "c_db c = Some rows" "map_of rows key = None"
    "c_maxSize c \<le> 0" "pi_fault io = NoFault"
  shows "\<exists>s e. server_reach stages w c s \<and> sv_todo s = Some [] \<and> \<not> sv_failed s \<and> sv_rows s = Some rows
    \<and> map_of (c_entries (server_cache s)) key = Some e \<and> map_of (c_files (server_cache s)) (e_path e) = Some data
    \<and> map_of rows key = None"
proof -
  let ?s1 = "(new_server c)\<lparr>sv_addr := Some [], sv_server := True, sv_accepting := True,
    sv_life := startEviction (new_lifecycle c)\<rparr>"
  let ?s2 = "?s1\<lparr>sv_busy := 1\<rparr>" let ?s3 = "?s2\<lparr>sv_todo := Some stages\<rparr>"
  let ?s4 = "close_cache [Shut_Server] (?s3\<lparr>sv_life := closing_life c\<rparr>)"
  let ?s5 = "on_cache (cache_step w (OpPut now key data ttl io)) ?s4" let ?s6 = "?s5\<lparr>sv_busy := 0\<rparr>"
  let ?s7 = "?s6\<lparr>sv_accepting := False\<rparr>" let ?s8 = "?s7\<lparr>sv_todo := Some []\<rparr>"
  have stages: "stages = [Close_Cache, Shut_Server]" using assms(1) by (auto simp: npm_stop_def apt_stop_def)
  have 2: "server_reach stages w c ?s2"
    using server_reach.after [OF reach_start server_step.accept [of ?s1 stages w]] by (simp add: new_server_def)
  have 3: "server_reach stages w c ?s3"
    by (rule server_reach.after [OF 2], rule server_step.stop) (simp add: new_server_def)
  have 4: "server_reach stages w c ?s4" by (rule reach_closing [OF 3]) (simp_all add: stages)
  have 5: "server_reach stages w c ?s5"
    by (rule server_reach.after [OF 4], rule server_step.work) (simp_all add: close_cache_def)
  have 6: "server_reach stages w c ?s6"
    using server_reach.after [OF 5 server_step.answer] by (simp add: close_cache_def)
  have 7: "server_reach stages w c ?s7"
    by (rule server_reach.after [OF 6], rule server_step.refuse [where rest = "[]"]) (simp_all add: close_cache_def)
  have 8: "server_reach stages w c ?s8"
    by (rule server_reach.after [OF 7], rule server_step.drained [where rest = "[]"]) (simp_all add: close_cache_def)
  have cache: "server_cache ?s8 = snd (put w now key data ttl io (stop c))"
    by (simp add: server_cache_def on_cache_def close_cache_def)
  have rows: "sv_rows ?s8 = Some rows" using assms(2) by (simp add: close_cache_def new_server_def server_cache_def)
  have "\<exists>e. map_of (c_entries (server_cache ?s8)) key = Some e \<and> map_of (c_files (server_cache ?s8)) (e_path e) = Some data"
    unfolding cache using assms(4,5) by (simp add: put_def put_store_def store_entry_def stop_def Let_def update_conv' split: option.split)
  then show ?thesis using 8 rows assms(3) by (intro exI [of _ ?s8]) (auto simp: close_cache_def new_server_def)
qed

theorem early_close_loses_entry_witness:
  "\<exists>s e. server_reach npm_stop demo_world (demo_cache\<lparr>c_maxSize := 0\<rparr>) s \<and> sv_todo s = Some [] \<and> \<not> sv_failed s
     \<and> map_of (c_entries (server_cache s)) ''new'' = Some e \<and> map_of (the (sv_rows s)) ''new'' = None"
  using early_close_loses_entry [of npm_stop "demo_cache\<lparr>c_maxSize := 0\<rparr>" "the (c_db demo_cache)" "''new''"
      "\<lparr>pi_fault = NoFault, pi_tmp = ''t'', pi_partial = []\<rparr>" demo_world "[]"]
  by (auto simp: demo_cache_def)

text \<open>\<open>Stop\<close> can always come to its end: whatever the order of its parts, whatever was running when
  it was called and however far it has got, the loop, the requests' time limit and the
  channels let it return.\<close>

theorem stop_can_finish:
  assumes "server_reach stages w c s" "sv_todo s = Some todo"
  shows "\<exists>s'. (server_step stages w)\<^sup>*\<^sup>* s s' \<and> sv_todo s' = Some []"
  using stopping_ends [OF server_inv_reach [OF assms(1)] assms(2)] .

theorem stop_can_finish_witness:
  "\<exists>w s s'. server_reach s3_stop w demo_cache s \<and> sv_todo s = Some s3_stop
     \<and> (server_step s3_stop w)\<^sup>*\<^sup>* s s' \<and> sv_todo s' = Some []"
proof -
  let ?s = "(new_server demo_cache)\<lparr>sv_todo := Some s3_stop\<rparr>"
  have r: "server_reach s3_stop demo_world demo_cache ?s"
    by (rule server_reach.after [OF server_reach.initially], rule server_step.stop) (simp add: new_server_def)
  obtain s' where "(server_step s3_stop demo_world)\<^sup>*\<^sup>* ?s s'" "sv_todo s' = Some []"
    using stop_can_finish [OF r, of s3_stop] by auto
  with r show ?thesis by (intro exI [of _ demo_world] exI [of _ ?s] exI [of _ s']) simp
qed

end
