(* ===== verification/Cache_Recovery.thy ===== *)
theory Cache_Recovery
  imports Cache_Mirror "HOL-Library.Word"
begin

text \<open>
  Starting the disk cache (\<open>New\<close>, \<open>recover\<close>, \<open>DefaultConfig\<close>, \<open>DefaultMaxSize\<close>) and the
  parser of its size option (\<open>ParseSize\<close>), from \<^verbatim>\<open>cache/cache.go\<close> and
  \<^verbatim>\<open>cache/cache_unix.go\<close>.

  The scan of the cache directory lists the files of the file system that lie exactly two
  levels below it. What the listing shows besides files, which directories can be read and
  which paths can be inspected is in the record \<open>disk\<close>.
\<close>

section \<open>The directory listing\<close>

record disk =
  readdir_ok :: "string \<Rightarrow> bool"            \<comment> \<open>\<open>os.ReadDir\<close> of this directory succeeds\<close>
  stat_ok :: "string \<Rightarrow> bool"               \<comment> \<open>\<open>os.Stat\<close> or \<open>Info\<close> of this existing path succeeds\<close>
  nested_dirs :: "(string \<times> int) list"     \<comment> \<open>directories two levels down, with the size \<open>Info\<close> reports\<close>

text \<open>The subdirectory and the name of a path two levels below \<open>dir\<close>.\<close>

definition sub_file :: "string \<Rightarrow> string \<Rightarrow> (string \<times> string) option" where
  "sub_file dir p =
     (case cut_prefix p (dir @ ''/'') of
        None \<Rightarrow> None
      | Some rest \<Rightarrow>
          (case split_on CHR ''/'' rest of [sub, name] \<Rightarrow> Some (sub, name) | _ \<Rightarrow> None))"

definition listed :: "disk \<Rightarrow> string \<Rightarrow> string \<Rightarrow> bool" where
  "listed d dir p =
     (case sub_file dir p of None \<Rightarrow> False | Some (sub, name) \<Rightarrow> readdir_ok d (dir @ ''/'' @ sub))"

definition is_tmp :: "string \<Rightarrow> string \<Rightarrow> bool" where
  "is_tmp dir p =
     (case sub_file dir p of None \<Rightarrow> False | Some (sub, name) \<Rightarrow> has_prefix name ''.tmp-'')"

definition dir_items :: "disk \<Rightarrow> string \<Rightarrow> file_system \<Rightarrow> (string \<times> int) list" where
  "dir_items d dir fs =
     filter (\<lambda>i. listed d dir (fst i))
       (map (\<lambda>f. (fst f, int (length (snd f)))) fs @ nested_dirs d)"

section \<open>Recovery\<close>

definition restored_entry :: "string \<Rightarrow> db_row \<Rightarrow> bytes \<Rightarrow> entry" where
  "restored_entry key r data =
     \<lparr>e_key = key, e_path = r_path r, e_size = int (length data), createdAt = r_created r,
      accessedAt = r_accessed r, expiresAt = (if r_expires r = 0 then None else Some (r_expires r))\<rparr>"

definition row_expired :: "int \<Rightarrow> db_row \<Rightarrow> bool" where
  "row_expired now r \<longleftrightarrow> r_expires r \<noteq> 0 \<and> r_expires r < now"

definition os_stat :: "disk \<Rightarrow> string \<Rightarrow> cache \<Rightarrow> bytes option" where
  "os_stat d path c = (if stat_ok d path then map_of (c_files c) path else None)"

text \<open>The loop over the rows: collects the stale keys and the known paths.\<close>

fun restore_rows :: "world \<Rightarrow> disk \<Rightarrow> int \<Rightarrow> (string \<times> db_row) list \<Rightarrow> string list \<Rightarrow> string list \<Rightarrow>
    cache \<Rightarrow> string list \<times> string list \<times> cache" where
  "restore_rows w d now [] staleKeys knownPaths c = (staleKeys, knownPaths, c)"
| "restore_rows w d now ((key, r) # rows) staleKeys knownPaths c =
     (if \<not> scan_ok w key then restore_rows w d now rows staleKeys knownPaths c
      else if row_expired now r
      then restore_rows w d now rows (staleKeys @ [key]) knownPaths
             (c\<lparr>c_files := os_remove w (r_path r) (c_files c)\<rparr>)
      else
        (case os_stat d (r_path r) c of
           None \<Rightarrow> restore_rows w d now rows (staleKeys @ [key]) knownPaths c
         | Some data \<Rightarrow>
             let e = restored_entry key r data in
             restore_rows w d now rows staleKeys (knownPaths @ [r_path r])
               (c\<lparr>c_entries := AList.update key e (c_entries c),
                  c_totalSize := c_totalSize c + e_size e\<rparr>)))"

text \<open>The part of \<open>recover\<close> that reads the database; the flag says whether the query succeeds.\<close>

definition restore_db :: "world \<Rightarrow> disk \<Rightarrow> int \<Rightarrow> bool \<Rightarrow> cache \<Rightarrow> string list \<times> cache" where
  "restore_db w d now query_ok c =
     (case c_db c of
        None \<Rightarrow> ([], c)
      | Some rows \<Rightarrow>
          if \<not> query_ok then ([], c\<lparr>c_db := None\<rparr>)
          else
            let (staleKeys, knownPaths, c) = restore_rows w d now rows [] [] c
            in (knownPaths, fold (db_delete w) staleKeys c))"

text \<open>The loop over the directory entries.\<close>

fun scan_items :: "world \<Rightarrow> disk \<Rightarrow> string list \<Rightarrow> (string \<times> int) list \<Rightarrow> cache \<Rightarrow> cache" where
  "scan_items w d knownPaths [] c = c"
| "scan_items w d knownPaths ((filePath, n) # items) c =
     (if is_tmp (c_dir c) filePath
      then scan_items w d knownPaths items (c\<lparr>c_files := os_remove w filePath (c_files c)\<rparr>)
      else if \<not> stat_ok d filePath then scan_items w d knownPaths items c
      else if filePath \<in> set knownPaths then scan_items w d knownPaths items c
      else scan_items w d knownPaths items (c\<lparr>c_totalSize := c_totalSize c + n\<rparr>))"

datatype start_error = DirRequired | CreateDirFailed | ReadDirFailed

definition recover :: "world \<Rightarrow> disk \<Rightarrow> int \<Rightarrow> bool \<Rightarrow> cache \<Rightarrow> start_error + cache" where
  "recover w d now query_ok c =
     (if \<not> readdir_ok d (c_dir c) then Inl ReadDirFailed
      else
        let (knownPaths, c) = restore_db w d now query_ok c
        in Inr (scan_items w d knownPaths (dir_items d (c_dir c) (c_files c)) c))"

section \<open>Starting\<close>

record config =
  cf_dir :: string
  cf_maxSize :: int
  cf_ttl :: int
  cf_softEvictPercent :: rat

text \<open>What the system finds at the start: whether the directory can be created, whether the
  database opens and answers, the rows it holds and the files on disk.\<close>

record startup =
  mkdir_ok :: bool
  db_opens :: bool
  query_ok :: bool
  db_rows :: "(string \<times> db_row) list"
  disk_files :: file_system

definition new_cache :: "world \<Rightarrow> disk \<Rightarrow> int \<Rightarrow> startup \<Rightarrow> config \<Rightarrow> start_error + cache" where
  "new_cache w d now st cfg =
     (if cf_dir cfg = [] then Inl DirRequired
      else if \<not> mkdir_ok st then Inl CreateDirFailed
      else recover w d now (query_ok st)
        \<lparr>c_dir = cf_dir cfg, c_maxSize = cf_maxSize cfg, c_ttl = cf_ttl cfg,
         c_softEvictPercent = cf_softEvictPercent cfg, c_entries = [], c_totalSize = 0,
         c_db = openMetadataDB (db_opens st) (db_rows st), c_files = disk_files st\<rparr>)"

text \<open>
  \<open>DefaultMaxSize\<close> on Unix: the block count and the block size of the file system of the
  nearest existing directory, or nothing when there is none or \<open>Statfs\<close> fails. The product
  is taken on \<open>uint64\<close> and read back as \<open>int64\<close>.
\<close>

definition defaultMaxSize :: "(64 word \<times> 64 word) option \<Rightarrow> rat \<Rightarrow> int" where
  "defaultMaxSize statfs percent =
     (if percent \<le> 0 \<or> 1 < percent then 0
      else case statfs of
        None \<Rightarrow> 0
      | Some (blocks, bsize) \<Rightarrow> soft_threshold (sint (blocks * bsize)) percent)"

text \<open>On Windows there is no \<open>Statfs\<close>: the size is always 0, which stands for no limit.\<close>

definition defaultMaxSize_windows :: "string \<Rightarrow> rat \<Rightarrow> int" where
  "defaultMaxSize_windows dir percent = 0"

definition defaultConfig :: "(64 word \<times> 64 word) option \<Rightarrow> string \<Rightarrow> config" where
  "defaultConfig statfs dir =
     \<lparr>cf_dir = dir, cf_maxSize = defaultMaxSize statfs (f64_round (1 / 10)), cf_ttl = 0,
      cf_softEvictPercent = f64_round (8 / 10)\<rparr>"

section \<open>Size options\<close>

datatype size_error = EmptySize | InvalidSize string | NegativeSize string

fun parse_suffixes :: "(string \<Rightarrow> rat option) \<Rightarrow> (string \<times> int) list \<Rightarrow> string \<Rightarrow>
    (size_error + int) option" where
  "parse_suffixes parse_float [] s = None"
| "parse_suffixes parse_float ((ending, factor) # ms) s =
     (case cut_suffix s ending of
        None \<Rightarrow> parse_suffixes parse_float ms s
      | Some before \<Rightarrow>
          Some (case parse_float (trim_space before) of
                  None \<Rightarrow> Inl (InvalidSize s)
                | Some n \<Rightarrow> if n < 0 then Inl (NegativeSize s)
                    else Inr (int_of_f64 (f64_mult n (f64_of_int factor)))))"

text \<open>\<open>ParseSize\<close>; \<open>strconv.ParseFloat\<close> is the argument, restricted to finite values.\<close>

definition parse_size :: "(string \<Rightarrow> rat option) \<Rightarrow> string \<Rightarrow> size_error + int" where
  "parse_size parse_float s =
     (let s = trim_space s in
      if s = [] then Inl EmptySize
      else
        let s = to_upper s in
        case parse_suffixes parse_float
            [(''TB'', 2 ^ 40), (''GB'', 2 ^ 30), (''MB'', 2 ^ 20), (''KB'', 2 ^ 10)] s of
          Some r \<Rightarrow> r
        | None \<Rightarrow>
            (case parse_int 10 64 s of
               None \<Rightarrow> Inl (InvalidSize s)
             | Some n \<Rightarrow> if n < 0 then Inl (NegativeSize s) else Inr n))"

section \<open>The database part\<close>

lemma entries_new:
  "k \<notin> set (keys xs) \<Longrightarrow> AList.update k v xs = xs @ [(k, v)]"
  by (induction xs) auto

lemma vsum_append [simp]: "vsum f (xs @ ys) = vsum f xs + vsum f ys"
  by (simp add: vsum_def)

lemma restored_entry_simps [simp]:
  "e_key (restored_entry key r data) = key" "e_path (restored_entry key r data) = r_path r"
  "e_size (restored_entry key r data) = int (length data)"
  by (simp_all add: restored_entry_def)

lemma restored_not_expired: "\<not> row_expired now r \<Longrightarrow> \<not> expired now (restored_entry key r data)"
  by (auto simp: row_expired_def expired_def restored_entry_def)

text \<open>The index built so far: accounted for, live, and with exactly the known paths.\<close>

definition rebuilt :: "int \<Rightarrow> string list \<Rightarrow> cache \<Rightarrow> bool" where
  "rebuilt now knownPaths c \<longleftrightarrow>
     cache_inv 0 c \<and> set knownPaths = e_path ` snd ` set (c_entries c)
     \<and> list_all (\<lambda>p. \<not> expired now (snd p)) (c_entries c)"

lemma rebuilt_files [simp]: "rebuilt now kn (c\<lparr>c_files := f\<rparr>) = rebuilt now kn c"
  by (simp add: rebuilt_def)

lemma rebuilt_add:
  assumes "rebuilt now kn c" "key \<notin> set (keys (c_entries c))" "\<not> row_expired now r"
  shows "rebuilt now (kn @ [r_path r])
    (c\<lparr>c_entries := AList.update key (restored_entry key r data) (c_entries c),
       c_totalSize := c_totalSize c + int (length data)\<rparr>)"
  using assms by (auto simp: rebuilt_def cache_inv_def entries_new restored_not_expired)

lemma restore_rows_rebuilt:
  "restore_rows w d now rows stale kn c = (stale', kn', c') \<Longrightarrow>
   rebuilt now kn c \<Longrightarrow> distinct (keys rows) \<Longrightarrow> set (keys rows) \<inter> set (keys (c_entries c)) = {} \<Longrightarrow>
   rebuilt now kn' c' \<and> c_dir c' = c_dir c \<and> c_maxSize c' = c_maxSize c"
proof (induction w d now rows stale kn c rule: restore_rows.induct)
  case (1 w d now staleKeys knownPaths c)
  then show ?case by simp
next
  case (2 w d now key r rows stale kn c)
  have new: "key \<notin> set (keys (c_entries c))" using "2.prems"(4) by auto
  show ?case
  proof (cases "\<not> scan_ok w key")
    case True
    then show ?thesis using "2.IH"(1) [OF True] "2.prems" by simp
  next
    case scan: False
    show ?thesis
    proof (cases "row_expired now r")
      case True
      then show ?thesis using "2.IH"(2) [OF scan True] "2.prems" scan by simp
    next
      case False
      show ?thesis
      proof (cases "os_stat d (r_path r) c")
        case None
        then show ?thesis using "2.IH"(3) [OF scan False None] "2.prems" scan False by simp
      next
        case (Some data)
        then show ?thesis
          using "2.IH"(4) [OF scan False Some refl] "2.prems" scan False
            rebuilt_add [OF "2.prems"(2) new False, of data]
          by (auto simp: entries_new [OF new] Let_def)
      qed
    qed
  qed
qed

lemma fold_db_delete [simp]:
  "c_entries (fold (db_delete w) ks c) = c_entries c"
  "c_totalSize (fold (db_delete w) ks c) = c_totalSize c"
  "c_files (fold (db_delete w) ks c) = c_files c"
  "c_dir (fold (db_delete w) ks c) = c_dir c"
  "c_maxSize (fold (db_delete w) ks c) = c_maxSize c"
  by (induction ks arbitrary: c) simp_all

lemma rebuilt_fold_db [simp]: "rebuilt now kn (fold (db_delete w) ks c) = rebuilt now kn c"
  by (simp add: rebuilt_def cache_inv_def)

text \<open>A cache as \<open>New\<close> builds it before the recovery.\<close>

definition blank :: "cache \<Rightarrow> bool" where
  "blank c \<longleftrightarrow> c_entries c = [] \<and> c_totalSize c = 0
     \<and> (case c_db c of None \<Rightarrow> True | Some rows \<Rightarrow> distinct (keys rows))"

lemma restore_db_rebuilt:
  assumes "blank c" "restore_db w d now q c = (kn, c')"
  shows "rebuilt now kn c' \<and> c_dir c' = c_dir c \<and> c_maxSize c' = c_maxSize c"
proof -
  have start: "rebuilt now [] c" using assms(1) by (simp add: rebuilt_def blank_def cache_inv_def)
  show ?thesis
  proof (cases "c_db c")
    case None
    with start assms show ?thesis by (simp add: restore_db_def)
  next
    case (Some rows)
    show ?thesis
    proof (cases q)
      case False
      with Some start assms show ?thesis by (auto simp: restore_db_def rebuilt_def cache_inv_def)
    next
      case True
      obtain st kn1 c1 where run: "restore_rows w d now rows [] [] c = (st, kn1, c1)"
        by (metis prod_cases3)
      have "rebuilt now kn1 c1 \<and> c_dir c1 = c_dir c \<and> c_maxSize c1 = c_maxSize c"
        using restore_rows_rebuilt [OF run start] assms(1) Some by (simp add: blank_def)
      with run True Some assms(2) show ?thesis
        by (auto simp: restore_db_def)
    qed
  qed
qed

section \<open>The directory part\<close>

definition counted :: "disk \<Rightarrow> string \<Rightarrow> string set \<Rightarrow> (string \<times> int) list \<Rightarrow> (string \<times> int) list" where
  "counted d dir known items =
     filter (\<lambda>i. \<not> is_tmp dir (fst i) \<and> stat_ok d (fst i) \<and> fst i \<notin> known) items"

lemma scan_items_fields [simp]:
  "c_entries (scan_items w d kn items c) = c_entries c"
  "c_dir (scan_items w d kn items c) = c_dir c"
  "c_maxSize (scan_items w d kn items c) = c_maxSize c"
  by (induction w d kn items c rule: scan_items.induct) simp_all

lemma scan_items_total:
  "c_totalSize (scan_items w d kn items c)
     = c_totalSize c + (\<Sum>i\<leftarrow>counted d (c_dir c) (set kn) items. snd i)"
  by (induction w d kn items c rule: scan_items.induct) (simp_all add: counted_def)

lemma counted_dir_items_tmp:
  assumes "is_tmp dir p"
  shows "counted d dir K (dir_items d dir (os_remove w p fs)) = counted d dir K (dir_items d dir fs)"
  using assms by (auto simp: counted_def dir_items_def os_remove_def delete_as_filter filter_map o_def
      intro!: filter_cong arg_cong [where f = "map _"])

lemma scan_items_counted:
  "counted d (c_dir c) K (dir_items d (c_dir c) (c_files (scan_items w d kn items c)))
     = counted d (c_dir c) K (dir_items d (c_dir c) (c_files c))"
proof (induction w d kn items c rule: scan_items.induct)
  case (2 w d kn p n items c)
  then show ?case by (auto simp: counted_dir_items_tmp)
qed simp

lemma scan_items_files:
  "map_of (c_files (scan_items w d kn items c)) p =
    (if p \<in> fst ` set items \<and> is_tmp (c_dir c) p \<and> rm_ok w p then None else map_of (c_files c) p)"
proof (induction w d kn items c rule: scan_items.induct)
  case (2 w d kn q n items c)
  then show ?case by (auto simp: map_of_os_remove)
qed simp

text \<open>The bytes a recovery counts without an entry.\<close>

definition untracked_bytes :: "disk \<Rightarrow> cache \<Rightarrow> int" where
  "untracked_bytes d c =
     (\<Sum>i\<leftarrow>counted d (c_dir c) (e_path ` snd ` set (c_entries c))
        (dir_items d (c_dir c) (c_files c)). snd i)"

lemma recover_result:
  assumes "recover w d now q c = Inr c'"
  obtains kn c1 where "restore_db w d now q c = (kn, c1)"
    "c' = scan_items w d kn (dir_items d (c_dir c1) (c_files c1)) c1"
  using assms by (auto simp: recover_def split: if_splits prod.splits)

lemma recover_rebuilt:
  assumes "blank c" "recover w d now q c = Inr c'"
  shows "cache_inv (untracked_bytes d c') c'" "list_all (\<lambda>p. \<not> expired now (snd p)) (c_entries c')"
    "c_dir c' = c_dir c"
proof -
  obtain kn c1 where db: "restore_db w d now q c = (kn, c1)"
    and scan: "c' = scan_items w d kn (dir_items d (c_dir c1) (c_files c1)) c1"
    using assms(2) by (rule recover_result)
  have r: "rebuilt now kn c1" "c_dir c1 = c_dir c"
    using restore_db_rebuilt [OF assms(1) db] by simp_all
  have "c_totalSize c' = untracked_bytes d c' + vsum e_size (c_entries c')"
    using r(1) unfolding scan scan_items_total untracked_bytes_def
    by (simp add: scan_items_counted rebuilt_def cache_inv_def)
  with r(1) show "cache_inv (untracked_bytes d c') c'"
    by (simp add: rebuilt_def cache_inv_def scan)
  show "list_all (\<lambda>p. \<not> expired now (snd p)) (c_entries c')" "c_dir c' = c_dir c"
    using r by (simp_all add: scan rebuilt_def)
qed

section \<open>Rows that come back\<close>

lemma restore_rows_other:
  "restore_rows w d now rows stale kn c = (stale', kn', c') \<Longrightarrow> key \<notin> set (keys rows) \<Longrightarrow>
    map_of (c_entries c') key = map_of (c_entries c) key"
proof (induction w d now rows stale kn c rule: restore_rows.induct)
  case (2 w d now k r rows stale kn c)
  then show ?case
    by (auto simp: Let_def update_conv' split: if_splits option.splits)
qed simp

lemma restore_rows_restores:
  "restore_rows w d now rows stale kn c = (stale', kn', c') \<Longrightarrow> distinct (keys rows) \<Longrightarrow>
   (key, r) \<in> set rows \<Longrightarrow> scan_ok w key \<Longrightarrow> \<not> row_expired now r \<Longrightarrow>
   os_stat d (r_path r) c = Some data \<Longrightarrow>
   list_all (\<lambda>q. row_expired now (snd q) \<longrightarrow> r_path (snd q) \<noteq> r_path r) rows \<Longrightarrow>
   map_of (c_entries c') key = Some (restored_entry key r data)"
proof (induction w d now rows stale kn c rule: restore_rows.induct)
  case (1 w d now stale kn c)
  then show ?case by simp
next
  case (2 w d now k q rows stale kn c)
  show ?case
  proof (cases "key = k")
    case True
    then have "q = r" using "2.prems"(2,3) by (auto simp: image_iff)
    with True "2.prems" have "restore_rows w d now rows stale (kn @ [r_path r])
        (c\<lparr>c_entries := AList.update key (restored_entry key r data) (c_entries c),
           c_totalSize := c_totalSize c + int (length data)\<rparr>) = (stale', kn', c')"
      by (simp add: Let_def)
    from restore_rows_other [OF this] True "2.prems"(2) show ?thesis by (simp add: update_conv')
  next
    case False
    then have mem: "(key, r) \<in> set rows" using "2.prems"(3) by simp
    show ?thesis
    proof (cases "\<not> scan_ok w k")
      case True
      then show ?thesis using "2.IH"(1) [OF True] "2.prems" mem by simp
    next
      case scan: False
      show ?thesis
      proof (cases "row_expired now q")
        case True
        have "os_stat d (r_path r) (c\<lparr>c_files := os_remove w (r_path q) (c_files c)\<rparr>) = Some data"
          using "2.prems"(6,7) True by (auto simp: os_stat_def map_of_os_remove split: if_splits)
        then show ?thesis using "2.IH"(2) [OF scan True] "2.prems" mem scan True by simp
      next
        case live: False
        show ?thesis
        proof (cases "os_stat d (r_path q) c")
          case None
          then show ?thesis using "2.IH"(3) [OF scan live None] "2.prems" mem scan live by simp
        next
          case (Some other)
          have "os_stat d (r_path r) (c\<lparr>c_entries := es, c_totalSize := n\<rparr>) = Some data" for es n
            using "2.prems"(6) by (simp add: os_stat_def split: if_split_asm)
          then show ?thesis
            using "2.IH"(4) [OF scan live Some refl] "2.prems" mem scan live Some
            by (simp add: Let_def)
        qed
      qed
    qed
  qed
qed

section \<open>Size options\<close>

lemma upper_space: "is_space c \<Longrightarrow> upper_char c = c"
  by (auto simp: is_space_def upper_char_def)

lemma digit_char_not_space: "d < 10 \<Longrightarrow> \<not> is_space (digit_char d)"
  by (auto simp: is_space_def digit_char_def dest!: arg_cong [where f = "of_char :: char \<Rightarrow> nat"])

lemma upper_digit_char: "d < 10 \<Longrightarrow> upper_char (digit_char d) = digit_char d"
  by (simp add: upper_char_def digit_char_def Let_def)

lemma format_nat_plain:
  "c \<in> set (format_nat n) \<Longrightarrow> \<not> is_space c \<and> upper_char c = c"
  using format_nat_digits [of c n] digit_char_not_space upper_digit_char by auto

lemma trim_format_nat [simp]: "trim_space (format_nat n) = format_nat n"
  by (rule trim_space_no_space) (simp add: format_nat_plain)

lemma upper_format_nat [simp]: "to_upper (format_nat n) = format_nat n"
  by (auto simp: to_upper_def format_nat_plain intro: map_idI)

lemma format_nat_no_B: "\<not> has_suffix (format_nat n) [c, CHR ''B'']"
proof
  assume "has_suffix (format_nat n) [c, CHR ''B'']"
  then have "CHR ''B'' \<in> set (format_nat n)" by (auto simp: has_suffix_iff)
  then obtain d where "d < 10" "CHR ''B'' = digit_char d" using format_nat_digits by blast
  then show False by (auto simp: digit_char_def dest!: arg_cong [where f = "of_char :: char \<Rightarrow> nat"])
qed

lemma cut_suffix_format_nat: "cut_suffix (format_nat n) [c, CHR ''B''] = None"
  by (simp add: cut_suffix_def format_nat_no_B)

lemma f64_mult_exact:
  "0 \<le> m \<Longrightarrow> m * k < 2 ^ 53 \<Longrightarrow> 0 \<le> k \<Longrightarrow> f64_mult (of_int m) (of_int k) = of_int (m * k)"
  using f64_of_int_exact [of "m * k"] by (simp add: f64_mult_def f64_of_int_def)

section \<open>Properties\<close>


definition demo_disk :: disk where
  "demo_disk = \<lparr>readdir_ok = (\<lambda>_. True), stat_ok = (\<lambda>_. True), nested_dirs = []\<rparr>"

definition demo_startup :: startup where
  "demo_startup = \<lparr>mkdir_ok = True, db_opens = True, query_ok = True,
     db_rows = the (c_db demo_cache), disk_files = c_files demo_cache\<rparr>"

definition demo_blank :: cache where
  "demo_blank = demo_cache\<lparr>c_entries := [], c_totalSize := 0\<rparr>"

lemma recover_demo: "\<exists>c'. recover demo_world demo_disk now True demo_blank = Inr c'"
  by (simp add: recover_def demo_disk_def split: prod.split)


text \<open>A restart finds what the rows and files of another cache describe.\<close>

lemma restart_finds:
  assumes "mirror True c" "cache_inv u c" "c_db c = Some t" "distinct (keys t)" "0 < now"
    "map_of (c_entries c) k = Some e" "\<not> expired now e" "map_of (c_files c) (e_path e) = Some data"
    "inj_on (\<lambda>p. e_path (snd p)) (set (c_entries c))"
    "scan_ok w k" "stat_ok d (e_path e)" "query_ok st" "db_opens st"
    "db_rows st = t" "disk_files st = c_files c"
    "new_cache w d now st cfg = Inr c'"
  shows "fst (get w now k c') = Some (e_path e)
    \<and> (\<exists>e'. map_of (c_entries c') k = Some e' \<and> createdAt e' = createdAt e
        \<and> expiresAt e' = expiresAt e \<and> e_size e' = int (length data))"
proof -
  let ?b = "\<lparr>c_dir = cf_dir cfg, c_maxSize = cf_maxSize cfg, c_ttl = cf_ttl cfg,
         c_softEvictPercent = cf_softEvictPercent cfg, c_entries = [], c_totalSize = 0,
         c_db = openMetadataDB (db_opens st) (db_rows st), c_files = disk_files st\<rparr>"
  have at: "mirror_at True (map_of (c_entries c) k') (map_of t k')" for k'
    using assms(1,3) by (simp add: mirror_def)
  then obtain r where r: "map_of t k = Some r" "agrees e r"
    using at [of k] assms(6) by (cases "map_of t k") auto
  have live: "expiresAt e \<noteq> Some 0" using assms(5,7) by (auto simp: expired_def)
  have rec: "recover w d now True ?b = Inr c'"
    using assms(12,16) by (auto simp: new_cache_def split: if_splits)
  obtain kn c1 where db: "restore_db w d now True ?b = (kn, c1)"
    and scan: "c' = scan_items w d kn (dir_items d (c_dir c1) (c_files c1)) c1"
    using rec by (rule recover_result)
  obtain st1 kn1 c2 where run: "restore_rows w d now t [] [] ?b = (st1, kn1, c2)"
    by (metis prod_cases3)
  have c1: "c_entries c1 = c_entries c2"
    using db run assms(13,14) by (auto simp: restore_db_def openMetadataDB_def)
  have other: "r_path (snd q) \<noteq> r_path r" if "q \<in> set t" "row_expired now (snd q)" for q
  proof
    assume same: "r_path (snd q) = r_path r"
    have "map_of t (fst q) = Some (snd q)" using assms(4) that(1) by simp
    then obtain e1 where e1: "map_of (c_entries c) (fst q) = Some e1" "agrees e1 (snd q)"
      using at [of "fst q"] by (cases "map_of (c_entries c) (fst q)") auto
    have "e_path e1 = e_path e" using same e1(2) r(2) by (simp add: agrees_def)
    then have "(fst q, e1) = (k, e)"
      using inj_onD [OF assms(9), of "(fst q, e1)" "(k, e)"] map_of_SomeD [OF e1(1)]
        map_of_SomeD [OF assms(6)] by simp
    then have "agrees e (snd q)" using e1(2) by simp
    then show False using that(2) assms(7)
      by (auto simp: agrees_def row_expired_def expired_def timeToUnixNano_def split: option.splits)
  qed
  have "\<not> row_expired now r" using r(2) assms(7)
    by (auto simp: agrees_def row_expired_def expired_def timeToUnixNano_def split: option.splits)
  moreover have "os_stat d (r_path r) ?b = Some data"
    using r(2) assms(8,11,15) by (simp add: os_stat_def agrees_def)
  ultimately have found: "map_of (c_entries c2) k = Some (restored_entry k r data)"
    using other by (intro restore_rows_restores [OF run assms(4) map_of_SomeD [OF r(1)] assms(10)])
      (auto simp: list_all_iff)
  have exp: "expiresAt (restored_entry k r data) = expiresAt e"
    using r(2) live by (cases "expiresAt e") (auto simp: restored_entry_def agrees_def timeToUnixNano_def)
  then have "\<not> expired now (restored_entry k r data)" using assms(7) by (simp add: expired_def)
  then show ?thesis
    using found c1 exp r(2)
    by (simp add: scan get_def Let_def agrees_def restored_entry_def)
qed

text \<open>C12: Entries survive a restart. When the database mirrors the index, its query and the
  inspection of the file succeed and no two entries share a path, a cache started on the
  files and rows of another one answers a lookup of every entry that has not expired with
  the entry's path, and its record has the entry's creation time, expiry and file size.\<close>

theorem restart_restores:
  assumes "mirror True c" "cache_inv u c" "c_db c = Some t" "distinct (keys t)" "0 < now"
    "map_of (c_entries c) k = Some e" "\<not> expired now e" "map_of (c_files c) (e_path e) = Some data"
    "inj_on (\<lambda>p. e_path (snd p)) (set (c_entries c))"
    "scan_ok w k" "stat_ok d (e_path e)" "query_ok st" "db_opens st"
    "db_rows st = t" "disk_files st = c_files c"
    "new_cache w d now st cfg = Inr c'"
  shows "fst (get w now k c') = Some (e_path e)
    \<and> (\<exists>e'. map_of (c_entries c') k = Some e' \<and> createdAt e' = createdAt e
        \<and> expiresAt e' = expiresAt e \<and> e_size e' = int (length data))"
  using restart_finds [OF assms] .

theorem restart_restores_witness:
  "\<exists>c'. new_cache demo_world demo_disk 20 demo_startup \<lparr>cf_dir = ''d'', cf_maxSize = 10, cf_ttl = 0,
        cf_softEvictPercent = 0\<rparr> = Inr c'
     \<and> fst (get demo_world 20 ''k2'' c') = Some ''d/aa/aak2''"
proof -
  let ?cfg = "\<lparr>cf_dir = ''d'', cf_maxSize = 10, cf_ttl = 0, cf_softEvictPercent = 0\<rparr>"
  obtain c' where c': "new_cache demo_world demo_disk 20 demo_startup ?cfg = Inr c'"
    by (simp add: new_cache_def demo_startup_def recover_def demo_disk_def case_prod_unfold Let_def)
  have "fst (get demo_world 20 ''k2'' c') = Some (e_path (demo_entry ''k2'' 3 2 (Some 50)))"
    by (rule restart_restores [where t = "the (c_db demo_cache)" and d = demo_disk
          and st = demo_startup and cfg = "?cfg" and data = "''xyz''", THEN conjunct1,
          OF mirror_demo demo_cache_inv])
      (use c' in \<open>simp_all add: demo_cache_def demo_startup_def demo_disk_def demo_entry_def
         expired_def demo_world_def calm_world_def\<close>)
  with c' show ?thesis by (simp add: demo_entry_def)
qed

text \<open>Size options. A number with a unit in either letter case is that many units in bytes, as
  long as \<open>ParseFloat\<close> reads the number exactly and the result is below \<open>2\<^sup>5\<^sup>3\<close>; a plain
  number that an \<open>int64\<close> holds is itself.\<close>

theorem parse_size_units:
  assumes "parse_float (format_nat n) = Some (of_nat n)"
    "(to_upper unit, factor) \<in>
       {(''TB'', 2 ^ 40), (''GB'', 2 ^ 30), (''MB'', 2 ^ 20), (''KB'', 2 ^ 10)}"
    "int n * factor < 2 ^ 53"
  shows "parse_size parse_float (format_nat n @ unit) = Inr (int n * factor)
    \<and> parse_size parse_float (format_nat n) = Inr (int n)"
proof -
  have plain: "\<not> is_space c" if "c \<in> set unit" for c
    using that assms(2) upper_space [of c] by (auto simp: to_upper_def is_space_def)
  have sp: "trim_space (format_nat n @ unit) = format_nat n @ unit"
    by (intro trim_space_no_space) (auto simp: format_nat_plain plain)
  have up: "to_upper (format_nat n @ unit) = format_nat n @ to_upper unit"
    using upper_format_nat [of n] by (simp add: to_upper_def)
  have ne: "format_nat n @ unit \<noteq> []" by simp
  have cut: "cut_suffix (format_nat n @ [a, CHR ''B'']) [b, CHR ''B'']
      = (if a = b then Some (format_nat n) else None)" for a b
    by (simp add: cut_suffix_def has_suffix_def)
  have small: "int n < 2 ^ 53" using assms(2,3) by auto
  have exact: "f64_mult (of_nat n) (f64_of_int factor) = of_int (int n * factor)"
    using assms(2,3) f64_mult_exact [of "int n" factor]
    by (auto simp: f64_of_int_exact)
  have "parse_suffixes parse_float
      [(''TB'', 2 ^ 40), (''GB'', 2 ^ 30), (''MB'', 2 ^ 20), (''KB'', 2 ^ 10)]
      (format_nat n @ to_upper unit)
    = Some (Inr (int_of_f64 (f64_mult (of_nat n) (f64_of_int factor))))"
    using assms(2) by (auto simp: cut assms(1))
  then have "parse_size parse_float (format_nat n @ unit) = Inr (int n * factor)"
    using sp up ne assms(2) unfolding parse_size_def Let_def exact int_of_f64_def
    by (auto simp del: of_int_mult)
  moreover have "parse_size parse_float (format_nat n) = Inr (int n)"
    using small by (simp add: parse_size_def Let_def cut_suffix_format_nat parse_format_nat)
  ultimately show ?thesis by simp
qed

theorem parse_size_units_witness:
  "parse_size (\<lambda>s. if s = format_nat 10 then Some 10 else None) (format_nat 10 @ ''gb'')
     = Inr (int 10 * 2 ^ 30)"
  using parse_size_units [of "\<lambda>s. if s = format_nat 10 then Some 10 else None" 10 "''gb''" "2 ^ 30"]
  by (simp add: to_upper_def upper_char_def char_of_def bit_simps)

end
