(* ===== verification/Coalesce.thy ===== *)
theory Coalesce
  imports Prelude
begin

text \<open>
  Request coalescing: the three places where concurrent requests for one key share a fetch.
  They follow one pattern (a \<open>sync.Map\<close> from keys to flights, \<open>LoadOrStore\<close>, a wait for
  the flight to be closed, a deferred close and delete) and differ in what a request does
  after its wait:
  \<^item> \<open>GetOrFetch\<close> of \<^verbatim>\<open>cache/cache.go\<close> returns what the leader got;
  \<^item> \<open>serveCacheable\<close> of \<^verbatim>\<open>s3/server.go\<close> looks at the cache and otherwise tries to
    lead in its turn;
  \<^item> \<open>handleUploadPack\<close> of \<^verbatim>\<open>git/handler.go\<close> looks at the cache and otherwise fetches,
    without having registered its own flight, but with the same deferred cleanup.

  A request is a number; its flight is named by it, since a request stores at most one. The
  actions are the atomic operations; a run is any interleaving of them.
\<close>

section \<open>Requests and flights\<close>

datatype after_wait = ReturnResult | RetryFlight | FetchAnyway

datatype phase =
    Checking          \<comment> \<open>before the first look at the cache\<close>
  | Missed            \<comment> \<open>before \<open>LoadOrStore\<close>\<close>
  | Waiting nat       \<comment> \<open>for the flight of this request to be closed\<close>
  | Fetching bool     \<comment> \<open>from upstream; whether its own flight was stored\<close>
  | Closing           \<comment> \<open>before the deferred \<open>wg.Done\<close> or \<open>close\<close>\<close>
  | Deleting          \<comment> \<open>before the deferred \<open>Delete\<close>\<close>
  | Served

record flights =
  registered :: "string \<Rightarrow> nat option"   \<comment> \<open>the \<open>sync.Map\<close>\<close>
  closed :: "nat list"
  phase_of :: "nat \<Rightarrow> phase"
  in_cache :: "string list"

definition no_flights :: flights where
  "no_flights = \<lparr>registered = (\<lambda>_. None), closed = [], phase_of = (\<lambda>_. Checking), in_cache = []\<rparr>"

definition goto :: "nat \<Rightarrow> phase \<Rightarrow> flights \<Rightarrow> flights" where
  "goto p ph s = s\<lparr>phase_of := (phase_of s)(p := ph)\<rparr>"

datatype flight_action =
    Look nat | Load_Or_Store nat | Wake nat | Fetch_Ok nat | Fetch_Fail nat
  | Close nat | Delete nat | Evict string

text \<open>One action; \<open>None\<close> when it is not enabled. The function \<open>key\<close> gives the key of a request.\<close>

fun flight_exec :: "after_wait \<Rightarrow> (nat \<Rightarrow> string) \<Rightarrow> flight_action \<Rightarrow> flights \<Rightarrow> flights option" where
  "flight_exec m key (Look p) s =
     (if phase_of s p = Checking
      then Some (goto p (if key p \<in> set (in_cache s) then Served else Missed) s) else None)"
| "flight_exec m key (Load_Or_Store p) s =
     (if phase_of s p = Missed
      then (case registered s (key p) of
              None \<Rightarrow> Some (goto p (Fetching True)
                        (s\<lparr>registered := (registered s)(key p := Some p)\<rparr>))
            | Some q \<Rightarrow> Some (goto p (Waiting q) s))
      else None)"
| "flight_exec m key (Wake p) s =
     (case phase_of s p of
        Waiting q \<Rightarrow>
          if q \<notin> set (closed s) then None
          else (case m of
                  ReturnResult \<Rightarrow> Some (goto p Served s)
                | RetryFlight \<Rightarrow>
                    Some (goto p (if key p \<in> set (in_cache s) then Served else Missed) s)
                | FetchAnyway \<Rightarrow>
                    Some (goto p (if key p \<in> set (in_cache s) then Served else Fetching False) s))
      | _ \<Rightarrow> None)"
| "flight_exec m key (Fetch_Ok p) s =
     (case phase_of s p of
        Fetching b \<Rightarrow> Some (goto p Closing (s\<lparr>in_cache := key p # in_cache s\<rparr>)) | _ \<Rightarrow> None)"
| "flight_exec m key (Fetch_Fail p) s =
     (case phase_of s p of Fetching b \<Rightarrow> Some (goto p Closing s) | _ \<Rightarrow> None)"
| "flight_exec m key (Close p) s =
     (if phase_of s p = Closing
      then Some (goto p Deleting (s\<lparr>closed := p # closed s\<rparr>)) else None)"
| "flight_exec m key (Delete p) s =
     (if phase_of s p = Deleting
      then Some (goto p Served (s\<lparr>registered := (registered s)(key p := None)\<rparr>)) else None)"
| "flight_exec m key (Evict k) s =
     Some (s\<lparr>in_cache := filter (\<lambda>x. x \<noteq> k) (in_cache s)\<rparr>)"

inductive flights_reach :: "after_wait \<Rightarrow> (nat \<Rightarrow> string) \<Rightarrow> flights \<Rightarrow> bool"
  for m :: after_wait and key :: "nat \<Rightarrow> string" where
  start: "flights_reach m key no_flights"
| step: "flights_reach m key s \<Longrightarrow> flight_exec m key a s = Some s' \<Longrightarrow> flights_reach m key s'"

inductive_cases flights_reachE: "flights_reach m key s"

fun flight_run :: "after_wait \<Rightarrow> (nat \<Rightarrow> string) \<Rightarrow> flight_action list \<Rightarrow> flights \<Rightarrow> flights option" where
  "flight_run m key [] s = Some s"
| "flight_run m key (a # as) s =
     (case flight_exec m key a s of None \<Rightarrow> None | Some s \<Rightarrow> flight_run m key as s)"

lemma flight_run_reach:
  "flights_reach m key s \<Longrightarrow> flight_run m key as s = Some s' \<Longrightarrow> flights_reach m key s'"
  by (induction as arbitrary: s) (auto split: option.splits intro: flights_reach.step)

lemma phase_goto [simp]: "phase_of (goto p ph s) q = (if q = p then ph else phase_of s q)"
  by (simp add: goto_def)

lemma goto_fields [simp]:
  "registered (goto p ph s) = registered s" "closed (goto p ph s) = closed s"
  "in_cache (goto p ph s) = in_cache s"
  by (simp_all add: goto_def)

section \<open>Invariants\<close>

fun active :: "phase \<Rightarrow> bool" where
  "active (Fetching b) = True"
| "active Closing = True"
| "active Deleting = True"
| "active _ = False"

text \<open>The map holds exactly the flights of the requests between \<open>LoadOrStore\<close> and \<open>Delete\<close>.\<close>

definition owned :: "(nat \<Rightarrow> string) \<Rightarrow> flights \<Rightarrow> bool" where
  "owned key s \<longleftrightarrow> (\<forall>k q. registered s k = Some q \<longleftrightarrow> key q = k \<and> active (phase_of s q))"

lemma ownedD: "owned key s \<Longrightarrow> active (phase_of s q) \<Longrightarrow> registered s (key q) = Some q"
  by (simp add: owned_def)

lemma ownedD2: "owned key s \<Longrightarrow> registered s k = Some q \<Longrightarrow> key q = k \<and> active (phase_of s q)"
  by (simp add: owned_def)

lemma owned_start: "owned key no_flights"
  by (simp add: owned_def no_flights_def)

text \<open>Moving a request between phases that are both active or both inactive changes nothing.\<close>

lemma owned_goto:
  "owned key s \<Longrightarrow> active ph = active (phase_of s p) \<Longrightarrow> owned key (goto p ph s)"
  by (simp add: owned_def)

lemma owned_cache [simp]: "owned key (s\<lparr>in_cache := x\<rparr>) = owned key s"
  by (simp add: owned_def)

lemma owned_closed [simp]: "owned key (s\<lparr>closed := x\<rparr>) = owned key s"
  by (simp add: owned_def)

lemma owned_lead:
  assumes "owned key s" "registered s (key p) = None" "phase_of s p = Missed"
  shows "owned key (goto p (Fetching True) (s\<lparr>registered := (registered s)(key p := Some p)\<rparr>))"
proof -
  have none: "\<not> active (phase_of s q)" if "key q = key p" for q
    using that assms(1,2) ownedD [OF assms(1), of q] by auto
  show ?thesis using assms(1) none unfolding owned_def by auto
qed

lemma owned_delete:
  assumes "owned key s" "phase_of s p = Deleting"
  shows "owned key (goto p Served (s\<lparr>registered := (registered s)(key p := None)\<rparr>))"
proof -
  have me: "registered s (key p) = Some p" using ownedD [OF assms(1), of p] assms(2) by simp
  have one: "q = p" if "key q = key p" "active (phase_of s q)" for q
    using ownedD [OF assms(1) that(2)] me unfolding that(1) by simp
  show ?thesis unfolding owned_def
  proof (intro allI)
    fix k q
    have old: "registered s k = Some q \<longleftrightarrow> key q = k \<and> active (phase_of s q)"
      using assms(1) by (simp add: owned_def)
    show "registered (goto p Served (s\<lparr>registered := (registered s)(key p := None)\<rparr>)) k = Some q
        \<longleftrightarrow> key q = k
          \<and> active (phase_of (goto p Served (s\<lparr>registered := (registered s)(key p := None)\<rparr>)) q)"
    proof (cases "k = key p")
      case True
      with one [of q] show ?thesis by auto
    next
      case False
      with old show ?thesis by auto
    qed
  qed
qed

text \<open>The effects an action can have.\<close>

lemma flight_exec_cases:
  assumes "flight_exec m key a s = Some s'"
  obtains (look) p ph where "phase_of s p = Checking" "ph = Served \<or> ph = Missed" "s' = goto p ph s"
  | (lead) p where "phase_of s p = Missed" "registered s (key p) = None"
      "s' = goto p (Fetching True) (s\<lparr>registered := (registered s)(key p := Some p)\<rparr>)"
  | (follow) p q where "phase_of s p = Missed" "registered s (key p) = Some q"
      "s' = goto p (Waiting q) s"
  | (wake) p q ph where "phase_of s p = Waiting q" "q \<in> set (closed s)"
      "ph = Served \<or> ph = Missed \<or> m = FetchAnyway \<and> ph = Fetching False" "s' = goto p ph s"
  | (fetch) p b c where "phase_of s p = Fetching b" "s' = goto p Closing (s\<lparr>in_cache := c\<rparr>)"
  | (close) p where "phase_of s p = Closing" "s' = goto p Deleting (s\<lparr>closed := p # closed s\<rparr>)"
  | (delete) p where "phase_of s p = Deleting"
      "s' = goto p Served (s\<lparr>registered := (registered s)(key p := None)\<rparr>)"
  | (evict) c where "s' = s\<lparr>in_cache := c\<rparr>"
proof (cases a)
  case (Look p)
  with assms show ?thesis by (auto split: if_splits intro: that(1))
next
  case (Load_Or_Store p)
  with assms show ?thesis by (auto split: if_splits option.splits intro: that(2,3))
next
  case (Wake p)
  with assms obtain q where q: "phase_of s p = Waiting q" "q \<in> set (closed s)"
    by (auto split: phase.splits if_splits)
  have "s' = goto p (if m = ReturnResult \<or> key p \<in> set (in_cache s) then Served
      else if m = RetryFlight then Missed else Fetching False) s"
    using assms Wake q by (cases m) (auto split: if_splits)
  from that(4) [OF q _ this] show ?thesis by (cases m) simp_all
next
  case (Fetch_Ok p)
  with assms show ?thesis by (auto split: phase.splits intro: that(5))
next
  case (Fetch_Fail p)
  with assms obtain b where "phase_of s p = Fetching b" "s' = goto p Closing s"
    by (auto split: phase.splits)
  then show ?thesis using that(5) [of p b "in_cache s"] by simp
next
  case (Close p)
  with assms show ?thesis by (auto split: if_splits intro: that(6))
next
  case (Delete p)
  with assms show ?thesis by (auto split: if_splits intro: that(7))
next
  case (Evict k)
  with assms show ?thesis by (auto intro: that(8))
qed

lemma owned_exec:
  assumes "owned key s" "flight_exec m key a s = Some s'" "m \<noteq> FetchAnyway"
  shows "owned key s'"
  using assms(2)
proof (cases rule: flight_exec_cases)
  case (lead p)
  with owned_lead [OF assms(1)] show ?thesis by simp
next
  case (delete p)
  with owned_delete [OF assms(1)] show ?thesis by simp
next
  case (wake p q ph)
  with assms(1,3) show ?thesis by (auto intro: owned_goto)
qed (use assms(1) in \<open>auto intro!: owned_goto\<close>)

lemma owned_reach: "flights_reach m key s \<Longrightarrow> m \<noteq> FetchAnyway \<Longrightarrow> owned key s"
  by (induction rule: flights_reach.induct) (auto intro: owned_start owned_exec)

text \<open>A request waits for a flight of its own key that is still carried or already closed.\<close>

fun pending :: "phase \<Rightarrow> bool" where
  "pending (Fetching b) = True"
| "pending Closing = True"
| "pending _ = False"

definition attended_by :: "(nat \<Rightarrow> string) \<Rightarrow> flights \<Rightarrow> string \<Rightarrow> nat \<Rightarrow> bool" where
  "attended_by key s k q \<longleftrightarrow> key q = k \<and> (q \<in> set (closed s) \<or> pending (phase_of s q))"

definition attended :: "(nat \<Rightarrow> string) \<Rightarrow> flights \<Rightarrow> bool" where
  "attended key s \<longleftrightarrow>
     (\<forall>k q. registered s k = Some q \<longrightarrow> attended_by key s k q)
     \<and> (\<forall>p q. phase_of s p = Waiting q \<longrightarrow> attended_by key s (key p) q)"

lemma attendedD:
  "attended key s \<Longrightarrow> registered s k = Some q \<Longrightarrow> attended_by key s k q"
  "attended key s \<Longrightarrow> phase_of s p = Waiting q \<Longrightarrow> attended_by key s (key p) q"
  by (simp_all add: attended_def)

lemma attended_goto:
  assumes "attended key s" "pending (phase_of s p) \<longrightarrow> pending ph \<or> p \<in> set (closed s)"
    "\<And>q. ph = Waiting q \<Longrightarrow> attended_by key s (key p) q"
  shows "attended key (goto p ph s)"
proof -
  have "attended_by key s k q \<Longrightarrow> attended_by key (goto p ph s) k q" for k q
    using assms(2) by (auto simp: attended_by_def)
  then show ?thesis using assms(1,3) by (auto simp: attended_def split: if_splits)
qed

lemma attended_update [simp]:
  "attended key (s\<lparr>in_cache := c\<rparr>) = attended key s"
  "attended key s \<Longrightarrow> attended key (s\<lparr>closed := p # closed s\<rparr>)"
  "attended key s \<Longrightarrow> attended key (s\<lparr>registered := (registered s)(k := None)\<rparr>)"
  by (auto simp: attended_def attended_by_def)

lemma attended_lead:
  assumes "attended key s" "phase_of s p = Missed"
  shows "attended key (goto p (Fetching True) (s\<lparr>registered := (registered s)(key p := Some p)\<rparr>))"
proof -
  let ?s = "goto p (Fetching True) s"
  have "attended key ?s" using assms by (intro attended_goto) auto
  moreover have "attended_by key ?s (key p) p" by (simp add: attended_by_def)
  moreover have "goto p (Fetching True) (s\<lparr>registered := (registered s)(key p := Some p)\<rparr>)
      = ?s\<lparr>registered := (registered ?s)(key p := Some p)\<rparr>" by (simp add: goto_def)
  moreover have "attended key (t\<lparr>registered := (registered t)(k := Some q)\<rparr>)"
    if "attended key t" "attended_by key t k q" for t k q
    using that by (simp add: attended_def attended_by_def)
  ultimately show ?thesis by metis
qed

lemma attended_exec:
  assumes "attended key s" "flight_exec m key a s = Some s'"
  shows "attended key s'"
  using assms(2)
proof (cases rule: flight_exec_cases)
  case (lead p)
  with assms(1) attended_lead show ?thesis by simp
next
  case (follow p q)
  then show ?thesis using attendedD(1) [OF assms(1)] assms(1) by (auto intro: attended_goto)
qed (use assms(1) in \<open>auto intro!: attended_goto\<close>)

lemma attended_reach: "flights_reach m key s \<Longrightarrow> attended key s"
proof (induction rule: flights_reach.induct)
  case start
  show ?case by (simp add: attended_def no_flights_def)
next
  case (step s a s')
  then show ?case by (blast intro: attended_exec)
qed

section \<open>Properties\<close>

text \<open>C3: One fetch per key. When a waiting request returns the leader's result (\<open>GetOrFetch\<close>) or
  competes for the lead again (the S3 handler), no two requests for the same key fetch from
  upstream at the same time, in any interleaving and with evictions at any moment; the map
  holds exactly the flights of the requests between their \<open>LoadOrStore\<close> and their \<open>Delete\<close>.\<close>

theorem single_flight:
  assumes "flights_reach m key s" "m \<noteq> FetchAnyway"
  shows "(key p = key q \<and> phase_of s p = Fetching b \<and> phase_of s q = Fetching b' \<longrightarrow> p = q)
    \<and> (registered s k = Some q \<longleftrightarrow> key q = k \<and> active (phase_of s q))"
proof (intro conjI impI)
  note own = owned_reach [OF assms]
  show "registered s k = Some q \<longleftrightarrow> key q = k \<and> active (phase_of s q)"
    using own by (simp add: owned_def)
  assume a: "key p = key q \<and> phase_of s p = Fetching b \<and> phase_of s q = Fetching b'"
  then have "registered s (key q) = Some p" "registered s (key q) = Some q"
    using ownedD [OF own, of p] ownedD [OF own, of q] by (metis active.simps(1))+
  then show "p = q" by simp
qed

theorem single_flight_witness:
  "\<exists>s. flight_run RetryFlight (\<lambda>_. ''k'') [Look 1, Look 2, Load_Or_Store 1, Load_Or_Store 2] no_flights
       = Some s
     \<and> registered s ''k'' = Some 1
     \<and> (registered s ''k'' = Some 2 \<longleftrightarrow> ''k'' = ''k'' \<and> active (phase_of s 2))"
proof -
  obtain s where s: "flight_run RetryFlight (\<lambda>_. ''k'')
      [Look 1, Look 2, Load_Or_Store 1, Load_Or_Store 2] no_flights = Some s"
    "registered s ''k'' = Some 1"
    by (simp add: no_flights_def)
  have "flights_reach RetryFlight (\<lambda>_. ''k'') s"
    using flights_reach.start s(1) by (rule flight_run_reach)
  from single_flight [OF this, where q = 2 and k = "''k''"] s show ?thesis by auto
qed

text \<open>C22: No lost wake-up. In all three protocols a waiting request waits for a flight of its own
  key, and either that flight is closed and the request can go on, or the request carrying
  it can take its next step towards closing it.\<close>

theorem waiter_attended:
  assumes "flights_reach m key s" "phase_of s p = Waiting q"
  shows "key q = key p
    \<and> (flight_exec m key (Wake p) s \<noteq> None
       \<or> flight_exec m key (Fetch_Ok q) s \<noteq> None \<and> flight_exec m key (Fetch_Fail q) s \<noteq> None
       \<or> flight_exec m key (Close q) s \<noteq> None)"
proof -
  have att: "attended_by key s (key p) q"
    using attended_reach [OF assms(1)] assms(2) by (rule attendedD)
  have "flight_exec m key (Wake p) s \<noteq> None" if "q \<in> set (closed s)"
    using that assms(2) by (cases m) simp_all
  moreover have "flight_exec m key (Fetch_Ok q) s \<noteq> None \<and> flight_exec m key (Fetch_Fail q) s \<noteq> None
      \<or> flight_exec m key (Close q) s \<noteq> None" if "pending (phase_of s q)"
    using that by (cases "phase_of s q") simp_all
  ultimately show ?thesis using att unfolding attended_by_def by blast
qed

theorem waiter_attended_witness:
  "\<exists>s. flight_run FetchAnyway (\<lambda>_. ''k'') [Look 1, Look 2, Load_Or_Store 1, Load_Or_Store 2] no_flights
       = Some s
     \<and> (flight_exec FetchAnyway (\<lambda>_. ''k'') (Wake 2) s \<noteq> None
        \<or> flight_exec FetchAnyway (\<lambda>_. ''k'') (Fetch_Ok 1) s \<noteq> None
          \<and> flight_exec FetchAnyway (\<lambda>_. ''k'') (Fetch_Fail 1) s \<noteq> None
        \<or> flight_exec FetchAnyway (\<lambda>_. ''k'') (Close 1) s \<noteq> None)"
proof -
  obtain s where s: "flight_run FetchAnyway (\<lambda>_. ''k'')
      [Look 1, Look 2, Load_Or_Store 1, Load_Or_Store 2] no_flights = Some s"
    "phase_of s 2 = Waiting 1"
    by (simp add: no_flights_def)
  have "flights_reach FetchAnyway (\<lambda>_. ''k'') s"
    using flights_reach.start s(1) by (rule flight_run_reach)
  from waiter_attended [OF this s(2)] s(1) show ?thesis by blast
qed

text \<open>The pack cache can have two leaders. A request that fetches after a wait without a stored
  flight still deletes the key from the map when it is done, and so removes the flight of a
  request that has become the leader meanwhile; a later request then stores its own flight
  while the first leader is still fetching the same pack.\<close>

theorem pack_flights_two_leaders:
  "\<exists>s. flights_reach FetchAnyway (\<lambda>_. packKey) s
     \<and> phase_of s 3 = Fetching True \<and> phase_of s 4 = Fetching True"
proof -
  obtain s where run: "flight_run FetchAnyway (\<lambda>_. packKey)
      [Look 1, Load_Or_Store 1, Look 2, Load_Or_Store 2, Fetch_Fail 1, Close 1, Wake 2, Delete 1,
       Look 3, Load_Or_Store 3, Fetch_Fail 2, Close 2, Delete 2, Look 4, Load_Or_Store 4]
      no_flights = Some s"
    and two: "phase_of s 3 = Fetching True \<and> phase_of s 4 = Fetching True"
    by (simp add: no_flights_def)
  have "flights_reach FetchAnyway (\<lambda>_. packKey) s"
    using flights_reach.start run by (rule flight_run_reach)
  with two show ?thesis by blast
qed

end
