(* ===== verification/Go_Http.thy ===== *)
theory Go_Http
  imports Go_Strings "HOL-Library.Char_ord" "HOL-Library.List_Lexorder"
begin

text \<open>
  The parts of \<open>net/http\<close> and \<open>net/url\<close> the handlers use: header maps with canonical keys,
  percent encoding, query strings, the path of a URL in its two forms, and the response
  writer. A map is an association list with distinct keys, in the order of one iteration.
\<close>

section \<open>Headers\<close>

type_synonym header = "(string \<times> string list) list"

definition is_upper :: "char \<Rightarrow> bool" where
  "is_upper c = (let n = (of_char c :: nat) in 65 \<le> n \<and> n \<le> 90)"

definition is_lower :: "char \<Rightarrow> bool" where
  "is_lower c = (let n = (of_char c :: nat) in 97 \<le> n \<and> n \<le> 122)"

definition is_digit :: "char \<Rightarrow> bool" where
  "is_digit c = (let n = (of_char c :: nat) in 48 \<le> n \<and> n \<le> 57)"

definition is_alnum :: "char \<Rightarrow> bool" where
  "is_alnum c = (is_upper c \<or> is_lower c \<or> is_digit c)"

definition is_token_char :: "char \<Rightarrow> bool" where
  "is_token_char c = (is_alnum c \<or> c \<in> set ''!#$%&*+-.^_`|~'' \<or> c = CHR 0x27)"

fun canon :: "bool \<Rightarrow> string \<Rightarrow> string" where
  "canon upper [] = []"
| "canon upper (c # cs) =
     (if upper then upper_char c else lower_char c) # canon (c = CHR ''-'') cs"

text \<open>\<open>CanonicalHeaderKey\<close>: a name that is not a token is left alone.\<close>

definition canonical_key :: "string \<Rightarrow> string" where
  "canonical_key s = (if list_all is_token_char s then canon True s else s)"

definition h_values :: "header \<Rightarrow> string \<Rightarrow> string list" where
  "h_values h k = (case map_of h (canonical_key k) of None \<Rightarrow> [] | Some vs \<Rightarrow> vs)"

definition h_get :: "header \<Rightarrow> string \<Rightarrow> string" where
  "h_get h k = (case h_values h k of [] \<Rightarrow> [] | v # vs \<Rightarrow> v)"

definition h_set :: "header \<Rightarrow> string \<Rightarrow> string \<Rightarrow> header" where
  "h_set h k v = AList.update (canonical_key k) [v] h"

definition h_add :: "header \<Rightarrow> string \<Rightarrow> string \<Rightarrow> header" where
  "h_add h k v = AList.update (canonical_key k) (h_values h k @ [v]) h"

definition h_del :: "header \<Rightarrow> string \<Rightarrow> header" where
  "h_del h k = AList.delete (canonical_key k) h"

lemma of_char_less: "(of_char c :: nat) < 256"
  by (metis of_char_mod_256 mod_less_divisor zero_less_numeral)

lemma upper_lower_char [simp]:
  "upper_char (upper_char c) = upper_char c" "lower_char (lower_char c) = lower_char c"
  using of_char_less [of c] by (auto simp: upper_char_def lower_char_def Let_def)

lemma upper_char_eq_dash [simp]: "upper_char c = CHR ''-'' \<longleftrightarrow> c = CHR ''-''"
  by (auto simp: upper_char_def Let_def dest!: arg_cong [where f = "of_char :: char \<Rightarrow> nat"])

lemma lower_char_eq_dash [simp]: "lower_char c = CHR ''-'' \<longleftrightarrow> c = CHR ''-''"
  by (auto simp: lower_char_def Let_def dest!: arg_cong [where f = "of_char :: char \<Rightarrow> nat"])

lemma canon_canon [simp]: "canon u (canon u s) = canon u s"
  by (induction u s rule: canon.induct) auto

lemma case_alnum: "upper_char c = c \<or> is_alnum (upper_char c)" "lower_char c = c \<or> is_alnum (lower_char c)"
  by (auto simp: is_alnum_def is_upper_def is_lower_def upper_char_def lower_char_def Let_def)

lemma is_token_char_case [simp]:
  "is_token_char c \<Longrightarrow> is_token_char (upper_char c)" "is_token_char c \<Longrightarrow> is_token_char (lower_char c)"
  using case_alnum [of c] unfolding is_token_char_def by metis+

lemma canon_token: "list_all is_token_char s \<Longrightarrow> list_all is_token_char (canon u s)"
  by (induction u s rule: canon.induct) auto

lemma canonical_key_idem [simp]: "canonical_key (canonical_key s) = canonical_key s"
  by (simp add: canonical_key_def canon_token)

lemma h_values_set: "h_values (h_set h k v) q =
    (if canonical_key q = canonical_key k then [v] else h_values h q)"
  by (simp add: h_values_def h_set_def update_conv')

lemma h_values_del: "h_values (h_del h k) q =
    (if canonical_key q = canonical_key k then [] else h_values h q)"
  by (simp add: h_values_def h_del_def delete_conv')

lemma h_values_add: "h_values (h_add h k v) q =
    (if canonical_key q = canonical_key k then h_values h q @ [v] else h_values h q)"
  by (simp add: h_values_def h_add_def update_conv')

lemma h_get_del: "h_get (h_del h k) q = (if canonical_key q = canonical_key k then [] else h_get h q)"
  by (simp add: h_get_def h_values_del)

lemma h_get_set: "h_get (h_set h k v) q = (if canonical_key q = canonical_key k then v else h_get h q)"
  by (simp add: h_get_def h_values_set)

lemma distinct_h_ops:
  "distinct (keys h) \<Longrightarrow> distinct (keys (h_set h k v))"
  "distinct (keys h) \<Longrightarrow> distinct (keys (h_add h k v))"
  "distinct (keys h) \<Longrightarrow> distinct (keys (h_del h k))"
  by (auto simp: h_set_def h_add_def h_del_def)

section \<open>Percent encoding\<close>

datatype encoding = EncodePath | EncodeQuery

definition should_escape :: "encoding \<Rightarrow> char \<Rightarrow> bool" where
  "should_escape m c =
     (if is_alnum c \<or> c \<in> set ''-_.~'' then False
      else if c \<in> set ''$&+,/:;=?@'' then (case m of EncodePath \<Rightarrow> c = CHR ''?'' | EncodeQuery \<Rightarrow> True)
      else True)"

definition upper_hex :: "nat \<Rightarrow> char" where
  "upper_hex d = (if d < 10 then char_of (48 + d) else char_of (55 + d))"

definition escape_char :: "encoding \<Rightarrow> char \<Rightarrow> string" where
  "escape_char m c =
     (if c = CHR '' '' \<and> m = EncodeQuery then ''+''
      else if should_escape m c
      then [CHR ''%'', upper_hex (of_char c div 16), upper_hex (of_char c mod 16)]
      else [c])"

definition url_escape :: "encoding \<Rightarrow> string \<Rightarrow> string" where
  "url_escape m s = concat (map (escape_char m) s)"

definition hex_digit :: "char \<Rightarrow> nat option" where
  "hex_digit c = (case digit_val c of Some d \<Rightarrow> if d < 16 then Some d else None | None \<Rightarrow> None)"

fun url_unescape :: "encoding \<Rightarrow> string \<Rightarrow> string option" where
  "url_unescape m [] = Some []"
| "url_unescape m (c # cs) =
     (if c = CHR ''%''
      then (case cs of
              a # b # rest \<Rightarrow>
                (case (hex_digit a, hex_digit b) of
                   (Some x, Some y) \<Rightarrow>
                     map_option (Cons (char_of (16 * x + y))) (url_unescape m rest)
                 | _ \<Rightarrow> None)
            | _ \<Rightarrow> None)
      else map_option (Cons (if c = CHR ''+'' \<and> m = EncodeQuery then CHR '' '' else c))
             (url_unescape m cs))"

abbreviation query_escape :: "string \<Rightarrow> string" where
  "query_escape \<equiv> url_escape EncodeQuery"

lemma hex_digit_upper_hex [simp]: "d < 16 \<Longrightarrow> hex_digit (upper_hex d) = Some d"
  by (auto simp: hex_digit_def digit_val_def upper_hex_def Let_def)

lemma unescape_escape_char:
  "url_unescape m (escape_char m c @ s) = map_option (Cons c) (url_unescape m s)"
proof (cases "c = CHR '' '' \<and> m = EncodeQuery")
  case True
  then show ?thesis by (simp add: escape_char_def)
next
  case False
  show ?thesis
  proof (cases "should_escape m c")
    case True
    have "(of_char c :: nat) div 16 < 16"
      by (rule less_mult_imp_div_less) (simp add: of_char_less)
    moreover have "(char_of (16 * (of_char c div 16) + of_char c mod 16 :: nat) :: char) = c"
      by simp
    ultimately show ?thesis using True False
      by (simp add: escape_char_def del: mult_div_mod_eq)
  next
    case esc: False
    then have "c \<noteq> CHR ''%''" "c = CHR ''+'' \<longrightarrow> m \<noteq> EncodeQuery"
      by (auto simp: should_escape_def is_alnum_def is_upper_def is_lower_def is_digit_def)
    with esc False show ?thesis by (auto simp: escape_char_def)
  qed
qed

lemma unescape_escape [simp]: "url_unescape m (url_escape m s) = Some s"
  by (induction s) (simp_all add: url_escape_def unescape_escape_char)

lemma url_escape_inject [simp]: "url_escape m s = url_escape m t \<longleftrightarrow> s = t"
  by (metis unescape_escape option.inject)

lemma escape_query_chars: "c \<in> set (query_escape s) \<Longrightarrow> is_alnum c \<or> c \<in> set ''-_.~+%''"
proof -
  have hex: "is_alnum (upper_hex d)" if "d < 16" for d
    using that by (auto simp: is_alnum_def is_upper_def is_digit_def upper_hex_def Let_def)
  assume "c \<in> set (query_escape s)"
  then obtain x where c: "c \<in> set (escape_char EncodeQuery x)" by (auto simp: url_escape_def)
  have x: "(of_char x :: nat) div 16 < 16"
    by (rule less_mult_imp_div_less) (simp add: of_char_less)
  consider "c = CHR ''+''" | "c = CHR ''%''" | "is_alnum c" | "c = x" "\<not> should_escape EncodeQuery x"
    using c hex [OF x] hex [of "of_char x mod 16"] by (auto simp: escape_char_def split: if_splits)
  then show ?thesis
  proof cases
    case 4
    then show ?thesis by (auto simp: should_escape_def split: if_splits)
  qed simp_all
qed

section \<open>Query strings\<close>

definition add_value :: "string \<Rightarrow> string \<Rightarrow> header \<Rightarrow> header" where
  "add_value k v q = AList.update k ((case map_of q k of None \<Rightarrow> [] | Some vs \<Rightarrow> vs) @ [v]) q"

text \<open>\<open>ParseQuery\<close> as \<open>URL.Query\<close> uses it: malformed pairs are dropped.\<close>

fun parse_pairs :: "string list \<Rightarrow> header \<Rightarrow> header" where
  "parse_pairs [] q = q"
| "parse_pairs (pair # pairs) q =
     (if contains pair '';'' \<or> pair = [] then parse_pairs pairs q
      else
        let (key, value, found) = cut pair ''=''
        in case (url_unescape EncodeQuery key, url_unescape EncodeQuery value) of
             (Some k, Some v) \<Rightarrow> parse_pairs pairs (add_value k v q)
           | _ \<Rightarrow> parse_pairs pairs q)"

definition parse_query :: "string \<Rightarrow> header" where
  "parse_query s = parse_pairs (split_on CHR ''&'' s) []"

definition q_get :: "header \<Rightarrow> string \<Rightarrow> string" where
  "q_get q k = (case map_of q k of Some (v # vs) \<Rightarrow> v | _ \<Rightarrow> [])"

definition encode_values :: "header \<Rightarrow> string" where
  "encode_values q =
     join ''&'' (concat (map (\<lambda>k. map (\<lambda>v. query_escape k @ ''='' @ query_escape v)
         (case map_of q k of None \<Rightarrow> [] | Some vs \<Rightarrow> vs))
       (sort (keys q))))"

section \<open>URLs\<close>

record url =
  u_scheme :: string
  u_host :: string
  u_path :: string       \<comment> \<open>decoded\<close>
  u_rawPath :: string    \<comment> \<open>the encoded path when it is not the default encoding, or empty\<close>
  u_rawQuery :: string

definition valid_encoded :: "string \<Rightarrow> bool" where
  "valid_encoded s =
     list_all (\<lambda>c. c \<in> set ''!$&()*+,;=:@[]%'' \<or> c = CHR 0x27 \<or> \<not> should_escape EncodePath c) s"

definition escaped_path :: "url \<Rightarrow> string" where
  "escaped_path u =
     (if u_rawPath u \<noteq> [] \<and> valid_encoded (u_rawPath u)
         \<and> url_unescape EncodePath (u_rawPath u) = Some (u_path u)
      then u_rawPath u
      else if u_path u = ''*'' then ''*''
      else url_escape EncodePath (u_path u))"

definition url_query :: "url \<Rightarrow> header" where
  "url_query u = parse_query (u_rawQuery u)"

section \<open>Requests, responses and the response writer\<close>

record request =
  rq_method :: string
  rq_url :: url
  rq_host :: string
  rq_requestURI :: string
  rq_header :: header
  rq_body :: bytes
  rq_contentLength :: int  \<comment> \<open>-1: unknown\<close>
  rq_tls :: bool

record response =
  rs_status :: int
  rs_header :: header
  rs_body :: bytes
  rs_bodyErr :: bool       \<comment> \<open>reading the body fails after these bytes\<close>
  rs_contentLength :: int

text \<open>
  The response writer: the header map, what was sent, and how many body bytes the client
  takes before writes fail (\<open>None\<close>: all). A second \<open>WriteHeader\<close> is ignored.
\<close>

record writer =
  w_header :: header
  w_status :: "int option"
  w_sent :: header
  w_body :: bytes
  w_takes :: "nat option"

definition new_writer :: "nat option \<Rightarrow> writer" where
  "new_writer takes = \<lparr>w_header = [], w_status = None, w_sent = [], w_body = [], w_takes = takes\<rparr>"

definition set_header :: "string \<Rightarrow> string \<Rightarrow> writer \<Rightarrow> writer" where
  "set_header k v w = w\<lparr>w_header := h_set (w_header w) k v\<rparr>"

definition write_header :: "int \<Rightarrow> writer \<Rightarrow> writer" where
  "write_header status w =
     (case w_status w of
        Some _ \<Rightarrow> w
      | None \<Rightarrow> w\<lparr>w_status := Some status, w_sent := w_header w\<rparr>)"

text \<open>Writing bytes: the number the client took, and whether that was all.\<close>

definition write_bytes :: "bytes \<Rightarrow> writer \<Rightarrow> bool \<times> writer" where
  "write_bytes p w =
     (let w = write_header 200 w;
          room = (case w_takes w of None \<Rightarrow> length p | Some n \<Rightarrow> min (length p) (n - length (w_body w)))
      in (room = length p, w\<lparr>w_body := w_body w @ take room p\<rparr>))"

definition http_error :: "string \<Rightarrow> int \<Rightarrow> writer \<Rightarrow> writer" where
  "http_error message status w =
     (let w = set_header ''X-Content-Type-Options'' ''nosniff''
                (set_header ''Content-Type'' ''text/plain; charset=utf-8''
                  (w\<lparr>w_header := h_del (w_header w) ''Content-Length''\<rparr>))
      in snd (write_bytes (message @ [CHR 0x0A]) (write_header status w)))"

lemma write_header_status [simp]:
  "w_status (write_header st w) = Some (case w_status w of Some s \<Rightarrow> s | None \<Rightarrow> st)"
  by (simp add: write_header_def split: option.split)

lemma write_header_simps [simp]:
  "w_header (write_header st w) = w_header w" "w_body (write_header st w) = w_body w"
  "w_takes (write_header st w) = w_takes w"
  by (simp_all add: write_header_def split: option.split)

lemma write_bytes_status [simp]:
  "w_status (snd (write_bytes p w)) = Some (case w_status w of Some s \<Rightarrow> s | None \<Rightarrow> 200)"
  by (simp add: write_bytes_def Let_def)

lemma write_bytes_all:
  "w_takes w = None \<Longrightarrow> write_bytes p w
     = (True, (write_header 200 w)\<lparr>w_body := w_body w @ p\<rparr>)"
  by (simp add: write_bytes_def Let_def)

lemma set_header_simps [simp]:
  "w_status (set_header k v w) = w_status w" "w_body (set_header k v w) = w_body w"
  "w_takes (set_header k v w) = w_takes w" "w_sent (set_header k v w) = w_sent w"
  by (simp_all add: set_header_def)

lemma http_error_status:
  "w_status (http_error m st w) = Some (case w_status w of Some s \<Rightarrow> s | None \<Rightarrow> st)"
  by (simp add: http_error_def Let_def split: option.split)

section \<open>Host and port\<close>

definition valid_optional_port :: "string \<Rightarrow> bool" where
  "valid_optional_port p = (case p of [] \<Rightarrow> True | c # ds \<Rightarrow> c = CHR '':'' \<and> list_all is_digit ds)"

text \<open>\<open>URL.Hostname\<close>\<close>

definition url_hostname :: "url \<Rightarrow> string" where
  "url_hostname u =
     (let h = u_host u;
          h = (case last_index h '':'' of
                 Some i \<Rightarrow> if valid_optional_port (drop i h) then take i h else h
               | None \<Rightarrow> h)
      in if has_prefix h ''['' \<and> has_suffix h '']'' then take (length h - 2) (drop 1 h) else h)"

text \<open>\<open>net.SplitHostPort\<close>; \<open>None\<close> is an error.\<close>

definition split_host_port :: "string \<Rightarrow> (string \<times> string) option" where
  "split_host_port s =
     (case last_index s '':'' of
        None \<Rightarrow> None
      | Some i \<Rightarrow>
          if has_prefix s ''['' then
            (case index_of s '']'' of
               None \<Rightarrow> None
             | Some e \<Rightarrow>
                 if e + 1 \<noteq> i then None
                 else if contains (drop 1 s) ''['' \<or> contains (drop (e + 1) s) '']'' then None
                 else Some (take (e - 1) (drop 1 s), drop (i + 1) s))
          else if contains (take i s) '':'' then None
          else if contains s ''['' \<or> contains s '']'' then None
          else Some (take i s, drop (i + 1) s))"

end
