(* ===== verification/S3_Keys.thy ===== *)
theory S3_Keys
  imports Go_Http Go_Float
begin

text \<open>
  Who a request is and which cache record it means, in the S3 accelerator: the configuration
  and its validation (\<^verbatim>\<open>s3/config.go\<close>), the credential scopes and the request signing of
  \<^verbatim>\<open>s3/signer.go\<close>, and from \<^verbatim>\<open>s3/server.go\<close> the security of a request, the
  upstream URL, the cache policy and the cache key.

  Parameters: \<open>url_parse\<close> (\<open>url.Parse\<close>), \<open>sha\<close> (hexadecimal SHA-256) and \<open>sigv4\<close> (the signer
  of the AWS SDK). The resolvers of the configuration are functions.
\<close>

section \<open>Configuration\<close>

record credentials =
  accessKeyID :: string
  secretAccessKey :: string
  sessionToken :: string
  cr_region :: string
  cr_scope :: string

record identity =
  tenant :: string
  subject :: string

type_synonym signer = "request \<Rightarrow> request option"

record signing_context =
  sg_scope :: string
  sg_sign :: signer

text \<open>What a resolver returns: an error, or a value and whether it applies.\<close>

datatype 'a resolved = ResolveError | Resolved 'a bool

record s3_config =
  upstreamURL :: string
  upstreamScheme :: string
  cacheDir :: string
  maxCacheSize :: int
  maxEntrySize :: int
  freshTTL :: int
  versionedTTL :: int
  maxTTL :: int
  staleIfError :: int
  softEvictPercent :: rat
  evictionInterval :: int
  respectPrivate :: bool
  exposeCacheHeader :: bool
  pathStyle :: bool
  static_credentials :: "credentials option"
  credentialResolver :: "(request \<Rightarrow> identity \<Rightarrow> credentials resolved) option"
  identityResolver :: "(request \<Rightarrow> identity resolved) option"
  signingResolver :: "(request \<Rightarrow> identity \<Rightarrow> signing_context resolved) option"
  authorizer :: "(request \<Rightarrow> bool) option"    \<comment> \<open>whether it lets the request pass\<close>
  policy :: "(request \<Rightarrow> bool) option"

abbreviation second :: int where "second \<equiv> 1000000000"

definition defaultFreshTTL :: int where "defaultFreshTTL = 5 * 60 * second"
definition defaultVersionedTTL :: int where "defaultVersionedTTL = 7 * 24 * 3600 * second"
definition defaultMaxTTL :: int where "defaultMaxTTL = 24 * 3600 * second"
definition defaultEvictionInterval :: int where "defaultEvictionInterval = 60 * second"
definition defaultMaxEntrySize :: int where "defaultMaxEntrySize = 2 ^ 30"

definition applyConfigDefaults :: "s3_config \<Rightarrow> s3_config" where
  "applyConfigDefaults cfg =
     (let cfg = (if upstreamScheme cfg = [] then cfg\<lparr>upstreamScheme := ''https''\<rparr> else cfg);
          cfg = (if freshTTL cfg = 0 then cfg\<lparr>freshTTL := defaultFreshTTL\<rparr> else cfg);
          cfg = (if versionedTTL cfg = 0 then cfg\<lparr>versionedTTL := defaultVersionedTTL\<rparr> else cfg);
          cfg = (if maxTTL cfg = 0 then cfg\<lparr>maxTTL := defaultMaxTTL\<rparr> else cfg)
      in if evictionInterval cfg = 0 then cfg\<lparr>evictionInterval := defaultEvictionInterval\<rparr> else cfg)"

text \<open>The disk-derived cache size is an argument; the quotient is of non-negative numbers.\<close>

definition s3_default_config :: "int \<Rightarrow> rat \<Rightarrow> string \<Rightarrow> string \<Rightarrow> s3_config" where
  "s3_default_config maxSize softPercent cache_dir upstream_url =
     \<lparr>upstreamURL = upstream_url, upstreamScheme = ''https'', cacheDir = cache_dir,
      maxCacheSize = maxSize,
      maxEntrySize = (if 0 < maxSize \<and> maxSize div 10 < defaultMaxEntrySize
                      then maxSize div 10 else defaultMaxEntrySize),
      freshTTL = defaultFreshTTL, versionedTTL = defaultVersionedTTL, maxTTL = defaultMaxTTL,
      staleIfError = 0, softEvictPercent = softPercent, evictionInterval = defaultEvictionInterval,
      respectPrivate = True, exposeCacheHeader = True, pathStyle = True,
      static_credentials = None, credentialResolver = None, identityResolver = None,
      signingResolver = None, authorizer = None, policy = None\<rparr>"

datatype config_error =
    CacheDirRequired | InvalidUpstream string | UnsupportedUpstream string
  | UnsupportedScheme string | NegativeSizes | NegativeDurations | SoftPercentRange
  | NegativeInterval | IncompleteCredentials

definition validate_upstream :: "(string \<Rightarrow> url option) \<Rightarrow> s3_config \<Rightarrow> config_error option" where
  "validate_upstream url_parse cfg =
     (if upstreamURL cfg = [] then None
      else case url_parse (upstreamURL cfg) of
        None \<Rightarrow> Some (InvalidUpstream (upstreamURL cfg))
      | Some u \<Rightarrow>
          if u_scheme u = [] \<or> u_host u = [] then Some (InvalidUpstream (upstreamURL cfg))
          else if u_scheme u \<noteq> ''http'' \<and> u_scheme u \<noteq> ''https''
            then Some (UnsupportedUpstream (u_scheme u))
          else None)"

definition s3_validate :: "(string \<Rightarrow> url option) \<Rightarrow> s3_config \<Rightarrow> config_error option" where
  "s3_validate url_parse cfg =
     (if trim_space (cacheDir cfg) = [] then Some CacheDirRequired
      else case validate_upstream url_parse cfg of
        Some e \<Rightarrow> Some e
      | None \<Rightarrow>
          let scheme = trim_space (upstreamScheme cfg) in
          if scheme \<noteq> [] \<and> scheme \<noteq> ''http'' \<and> scheme \<noteq> ''https'' then Some (UnsupportedScheme scheme)
          else if maxCacheSize cfg < 0 \<or> maxEntrySize cfg < 0 then Some NegativeSizes
          else if freshTTL cfg < 0 \<or> versionedTTL cfg < 0 \<or> maxTTL cfg < 0 \<or> staleIfError cfg < 0
            then Some NegativeDurations
          else if softEvictPercent cfg < 0 \<or> 1 < softEvictPercent cfg then Some SoftPercentRange
          else if evictionInterval cfg < 0 then Some NegativeInterval
          else case static_credentials cfg of
            None \<Rightarrow> None
          | Some c \<Rightarrow>
              if trim_space (accessKeyID c) = [] \<or> trim_space (secretAccessKey c) = []
              then Some IncompleteCredentials else None)"

section \<open>Signing and scopes\<close>

definition signing_param :: "string \<Rightarrow> bool" where
  "signing_param key =
     (let lower = to_lower key in has_prefix lower ''x-amz-'' \<or> has_prefix lower ''x-goog-'')"

definition strip_signing_query :: "request \<Rightarrow> request" where
  "strip_signing_query r =
     (let q = filter (\<lambda>p. \<not> signing_param (fst p)) (url_query (rq_url r))
      in r\<lparr>rq_url := (rq_url r)\<lparr>u_rawQuery := encode_values q\<rparr>\<rparr>)"

definition empty_payload_sha256 :: string where
  "empty_payload_sha256 = ''e3b0c44298fc1c149afbf4c8996fb92427ae41e4649b934ca495991b7852b855''"

definition sign_request ::
    "(credentials \<Rightarrow> string \<Rightarrow> string \<Rightarrow> int \<Rightarrow> signer) \<Rightarrow> credentials \<Rightarrow> int \<Rightarrow> signer" where
  "sign_request sigv4 creds now r =
     (let r = strip_signing_query r;
          h = h_del (h_del (h_del (rq_header r) ''Authorization'') ''X-Amz-Date'')
                ''X-Amz-Security-Token'';
          region = trim_space (cr_region creds);
          region = (if region = [] then ''us-east-1'' else region);
          payloadHash = trim_space (h_get h ''X-Amz-Content-Sha256'');
          (payloadHash, h) =
            (if payloadHash \<noteq> [] then (payloadHash, h)
             else if rq_contentLength r = 0 then (empty_payload_sha256, h)
             else (''UNSIGNED-PAYLOAD'', h_set h ''X-Amz-Content-Sha256'' ''UNSIGNED-PAYLOAD''))
      in sigv4 creds payloadHash region now (r\<lparr>rq_header := h\<rparr>))"

definition credentialScope :: "(string \<Rightarrow> string) \<Rightarrow> credentials \<Rightarrow> string" where
  "credentialScope sha creds =
     (let scope = trim_space (cr_scope creds) in
      if scope \<noteq> [] then scope
      else if accessKeyID creds = [] then ''anonymous''
      else take 32 (sha (accessKeyID creds)))"

definition credentialIdentity :: "string \<Rightarrow> string" where
  "credentialIdentity v =
     (let v = trim_space v in
      if v = [] then []
      else
        let v = (case index_of v ''Credential='' of
                   Some idx \<Rightarrow> drop (idx + length ''Credential='') v
                 | None \<Rightarrow> v);
            v = trim_left (\<lambda>c. c = CHR '' '' \<or> c = CHR 0x09) v
        in takeWhile (\<lambda>c. c \<notin> {CHR ''/'', CHR '','', CHR '' '', CHR 0x09}) v)"

definition requestCredentialScope :: "(string \<Rightarrow> string) \<Rightarrow> request \<Rightarrow> string" where
  "requestCredentialScope sha r =
     (let identity = credentialIdentity (h_get (rq_header r) ''Authorization'');
          identity =
            (if identity = []
             then let i = credentialIdentity (q_get (url_query (rq_url r)) ''X-Amz-Credential'')
                  in if i = [] then credentialIdentity (q_get (url_query (rq_url r)) ''X-Goog-Credential'')
                     else i
             else identity)
      in if identity = [] then ''anonymous'' else take 32 (sha identity))"

section \<open>The security of a request\<close>

record request_security =
  se_identity :: identity
  authScope :: string
  se_signer :: "signer option"
  cacheable :: bool

definition resolve_identity :: "s3_config \<Rightarrow> request \<Rightarrow> request_security option" where
  "resolve_identity cfg r =
     (let security = \<lparr>se_identity = \<lparr>tenant = ''local'', subject = []\<rparr>, authScope = [],
                       se_signer = None, cacheable = True\<rparr>
      in case identityResolver cfg of
           None \<Rightarrow> Some security
         | Some f \<Rightarrow>
             (case f r of
                ResolveError \<Rightarrow> None
              | Resolved i ok \<Rightarrow>
                  Some (security\<lparr>se_identity := i, cacheable := (ok \<and> trim_space (tenant i) \<noteq> [])\<rparr>)))"

definition resolve_signing ::
    "(string \<Rightarrow> string) \<Rightarrow> (credentials \<Rightarrow> string \<Rightarrow> string \<Rightarrow> int \<Rightarrow> signer) \<Rightarrow> s3_config \<Rightarrow> int \<Rightarrow>
     request \<Rightarrow> request_security \<Rightarrow> request_security option" where
  "resolve_signing sha sigv4 cfg now r security =
     (case signingResolver cfg of
        Some f \<Rightarrow>
          (case f r (se_identity security) of
             ResolveError \<Rightarrow> None
           | Resolved ctx ok \<Rightarrow>
               Some (if ok
                     then let scope = trim_space (sg_scope ctx)
                          in security\<lparr>se_signer := Some (sg_sign ctx), authScope := scope,
                               cacheable := (cacheable security \<and> scope \<noteq> [])\<rparr>
                     else security))
      | None \<Rightarrow>
          (case (case credentialResolver cfg of
                   Some f \<Rightarrow> f r (se_identity security)
                 | None \<Rightarrow>
                     (case static_credentials cfg of
                        Some c \<Rightarrow> Resolved c True
                      | None \<Rightarrow> Resolved \<lparr>accessKeyID = [], secretAccessKey = [], sessionToken = [],
                          cr_region = [], cr_scope = []\<rparr> False)) of
             ResolveError \<Rightarrow> None
           | Resolved creds ok \<Rightarrow>
               Some (if ok
                     then security\<lparr>authScope := credentialScope sha creds,
                            se_signer := Some (sign_request sigv4 creds now)\<rparr>
                     else security)))"

definition resolveSecurity ::
    "(string \<Rightarrow> string) \<Rightarrow> (credentials \<Rightarrow> string \<Rightarrow> string \<Rightarrow> int \<Rightarrow> signer) \<Rightarrow> s3_config \<Rightarrow> int \<Rightarrow>
     request \<Rightarrow> request_security option" where
  "resolveSecurity sha sigv4 cfg now r =
     (case resolve_identity cfg r of
        None \<Rightarrow> None
      | Some security \<Rightarrow>
          (case resolve_signing sha sigv4 cfg now r security of
             None \<Rightarrow> None
           | Some security \<Rightarrow>
               Some (if authScope security = []
                     then security\<lparr>authScope := requestCredentialScope sha r\<rparr> else security)))"

section \<open>Target, policy and key\<close>

definition joinURLPath :: "string \<Rightarrow> string \<Rightarrow> string" where
  "joinURLPath base requestPath =
     (let base = trim_suffix base ''/'';
          requestPath = (if requestPath = [] then ''/'' else requestPath);
          requestPath = (if has_prefix requestPath ''/'' then requestPath else CHR ''/'' # requestPath)
      in base @ requestPath)"

text \<open>Adding the request's query values to those of the upstream URL.\<close>

definition add_query :: "header \<Rightarrow> header \<Rightarrow> header" where
  "add_query query extra =
     fold (\<lambda>(k, vs) q. fold (add_value k) vs q) extra query"

definition targetURL :: "url option \<Rightarrow> s3_config \<Rightarrow> request \<Rightarrow> url option" where
  "targetURL upstream cfg r =
     (case upstream of
        Some up \<Rightarrow>
          let target = up\<lparr>u_path := joinURLPath (u_path up) (u_path (rq_url r))\<rparr>;
              joinedRawPath = joinURLPath (escaped_path up) (escaped_path (rq_url r));
              target = (if joinedRawPath \<noteq> escaped_path target
                        then target\<lparr>u_rawPath := joinedRawPath\<rparr> else target\<lparr>u_rawPath := []\<rparr>);
              query = add_query (url_query target) (url_query (rq_url r))
          in Some (target\<lparr>u_rawQuery := encode_values query\<rparr>)
      | None \<Rightarrow>
          if u_scheme (rq_url r) \<noteq> [] then Some (rq_url r)
          else if rq_host r = [] then None
          else Some ((rq_url r)\<lparr>u_scheme := upstreamScheme cfg, u_host := rq_host r\<rparr>))"

definition control_params :: "string list" where
  "control_params = [''list-type'', ''prefix'', ''delimiter'', ''continuation-token'', ''uploads'',
     ''uploadId'', ''acl'', ''tagging'', ''location'', ''versions'', ''object-lock'']"

definition cachePolicy :: "s3_config \<Rightarrow> request \<Rightarrow> bool" where
  "cachePolicy cfg r =
     (case policy cfg of
        Some f \<Rightarrow> f r
      | None \<Rightarrow>
          let path = trim (\<lambda>c. c = CHR ''/'') (u_path (rq_url r)) in
          path \<noteq> [] \<and> \<not> (pathStyle cfg \<and> \<not> contains path ''/'')
          \<and> list_all (\<lambda>k. k \<notin> set (keys (url_query (rq_url r)))) control_params)"

definition encode_pairs :: "string \<Rightarrow> string list \<Rightarrow> string list" where
  "encode_pairs k vals =
     (if vals = [] then [query_escape k]
      else map (\<lambda>v. query_escape k @ ''='' @ query_escape v) (sort vals))"

definition encodeSortedQuery :: "header \<Rightarrow> string" where
  "encodeSortedQuery q =
     join ''&'' (concat (map (\<lambda>k. encode_pairs k (case map_of q k of None \<Rightarrow> [] | Some vs \<Rightarrow> vs))
       (sort (keys q))))"

definition stable_query :: "url \<Rightarrow> string" where
  "stable_query target =
     encodeSortedQuery (filter (\<lambda>p. \<not> signing_param (fst p)) (url_query target))"

definition cacheKey :: "url \<Rightarrow> request_security \<Rightarrow> string" where
  "cacheKey target security =
     join ''|''
       [''tenant='' @ tenant (se_identity security),
        ''subject='' @ subject (se_identity security),
        ''auth='' @ authScope security,
        ''host='' @ to_lower (u_host target),
        ''path='' @ escaped_path target,
        ''query='' @ stable_query target]"

end
