(* ===== verification/S3_Entry.thy ===== *)
theory S3_Entry
  imports S3_Keys Cache_Properties
begin

text \<open>
  Cached S3 objects (\<^verbatim>\<open>s3/entry.go\<close>): a metadata record and a body record of the disk cache,
  conditional requests, byte ranges, and the answer served from an entry; and the response
  headers of \<^verbatim>\<open>s3/server.go\<close>. The JSON encoding of the metadata is a pair of parameters.
\<close>

section \<open>Response headers\<close>

definition hop_by_hop :: "string list" where
  "hop_by_hop = [''Connection'', ''Proxy-Connection'', ''Keep-Alive'', ''Proxy-Authenticate'',
     ''Proxy-Authorization'', ''TE'', ''Trailer'', ''Transfer-Encoding'', ''Upgrade'']"

definition removeHopByHopHeaders :: "header \<Rightarrow> header" where
  "removeHopByHopHeaders h = fold (\<lambda>k h. h_del h k) hop_by_hop h"

definition filteredResponseHeader :: "header \<Rightarrow> header" where
  "filteredResponseHeader source = h_del (removeHopByHopHeaders source) ''X-Proxykit-Cache''"

definition copyResponseHeader :: "header \<Rightarrow> header \<Rightarrow> header" where
  "copyResponseHeader destination source =
     fold (\<lambda>(k, vs) h. fold (\<lambda>v h. h_add h k v) vs h) (filteredResponseHeader source)
       (fold (\<lambda>k h. h_del h k) (keys destination) destination)"

section \<open>Entries\<close>

record entry_metadata =
  statusCode :: int
  m_header :: header
  etag :: string
  lastModified :: string
  storedAt :: int
  freshUntil :: int
  hasBody :: bool
  bodySize :: int

record json =
  marshal :: "entry_metadata \<Rightarrow> bytes option"
  unmarshal :: "bytes \<Rightarrow> entry_metadata option"

definition metadataKey :: "string \<Rightarrow> string" where "metadataKey key = ''s3:meta:'' @ key"
definition bodyKey :: "string \<Rightarrow> string" where "bodyKey key = ''s3:body:'' @ key"

definition read_file :: "world \<Rightarrow> string \<Rightarrow> cache \<Rightarrow> bytes option" where
  "read_file w path c = os_open w path c"

definition loadMetadata :: "world \<Rightarrow> json \<Rightarrow> int \<Rightarrow> string \<Rightarrow> cache \<Rightarrow>
    (entry_metadata \<times> string) option \<times> cache" where
  "loadMetadata w js now key disk =
     (case get w now (metadataKey key) disk of
        (None, disk) \<Rightarrow> (None, disk)
      | (Some path, disk) \<Rightarrow>
          (case read_file w path disk of
             None \<Rightarrow> (None, remove w (metadataKey key) disk)
           | Some data \<Rightarrow>
               (case unmarshal js data of
                  None \<Rightarrow> (None, remove w (metadataKey key) disk)
                | Some meta \<Rightarrow>
                    if hasBody meta
                    then (case get w now (bodyKey key) disk of
                            (None, disk) \<Rightarrow> (None, remove w (metadataKey key) disk)
                          | (Some bodyPath, disk) \<Rightarrow> (Some (meta, bodyPath), disk))
                    else (Some (meta, []), disk))))"

definition storeMetadata :: "world \<Rightarrow> json \<Rightarrow> int \<Rightarrow> put_io \<Rightarrow> string \<Rightarrow> entry_metadata \<Rightarrow> cache \<Rightarrow>
    bool \<times> cache" where
  "storeMetadata w js now io key meta disk =
     (case marshal js meta of
        None \<Rightarrow> (False, disk)
      | Some data \<Rightarrow>
          (case put w now (metadataKey key) data (-1) io disk of
             (Inl _, disk) \<Rightarrow> (False, disk)
           | (Inr _, disk) \<Rightarrow> (True, disk)))"

definition removeEntry :: "world \<Rightarrow> string \<Rightarrow> cache \<Rightarrow> cache" where
  "removeEntry w key disk = remove w (bodyKey key) (remove w (metadataKey key) disk)"

section \<open>Conditional requests and ranges\<close>

definition normalizeETag :: "string \<Rightarrow> string" where
  "normalizeETag v =
     trim (\<lambda>c. c = CHR 0x22) (trim_space (trim_prefix (trim_space v) ''W/''))"

definition clientNotModified :: "request \<Rightarrow> entry_metadata \<Rightarrow> bool" where
  "clientNotModified r meta =
     (let v = h_get (rq_header r) ''If-None-Match'' in
      v \<noteq> [] \<and> etag meta \<noteq> []
      \<and> list_ex (\<lambda>candidate. trim_space candidate = ''*''
            \<or> normalizeETag candidate = normalizeETag (etag meta))
          (split_on CHR '','' v))"

definition parseRange :: "string \<Rightarrow> int \<Rightarrow> (int \<times> int) option" where
  "parseRange v bytesTotal =
     (if bytesTotal \<le> 0 \<or> \<not> has_prefix v ''bytes='' \<or> contains v '','' then None
      else case split_on CHR ''-'' (trim_prefix v ''bytes='') of
        [part0, part1] \<Rightarrow>
          if part0 = [] then
            (case parse_int 10 64 part1 of
               None \<Rightarrow> None
             | Some n \<Rightarrow>
                 if n \<le> 0 then None
                 else let n = (if bytesTotal < n then bytesTotal else n) in Some (bytesTotal - n, bytesTotal - 1))
          else
            (case parse_int 10 64 part0 of
               None \<Rightarrow> None
             | Some start \<Rightarrow>
                 if start < 0 \<or> bytesTotal \<le> start then None
                 else if part1 = [] then Some (start, bytesTotal - 1)
                 else
                   (case parse_int 10 64 part1 of
                      None \<Rightarrow> None
                    | Some end \<Rightarrow>
                        if end < start then None
                        else Some (start, if bytesTotal \<le> end then bytesTotal - 1 else end)))
      | _ \<Rightarrow> None)"

section \<open>Serving\<close>

definition set_cache_status :: "string \<Rightarrow> writer \<Rightarrow> writer" where
  "set_cache_status v out = (if v = [] then out else set_header ''X-Proxykit-Cache'' v out)"

text \<open>The first component says whether \<open>serveEntry\<close> returned without an error.\<close>

definition serveEntry :: "world \<Rightarrow> cache \<Rightarrow> request \<Rightarrow> entry_metadata \<Rightarrow> string \<Rightarrow> string \<Rightarrow> writer \<Rightarrow>
    bool \<times> writer" where
  "serveEntry w disk r meta bodyPath cacheStatus out =
     (let out = out\<lparr>w_header := copyResponseHeader (w_header out) (m_header meta)\<rparr>;
          out = set_cache_status cacheStatus out
      in if clientNotModified r meta then (True, write_header 304 out)
         else if rq_method r = ''HEAD'' then (True, write_header (statusCode meta) out)
         else if \<not> hasBody meta \<or> bodyPath = [] then (False, out)
         else case os_open w bodyPath disk of
           None \<Rightarrow> (False, out)
         | Some f \<Rightarrow>
             let v = h_get (rq_header r) ''Range'' in
             if v \<noteq> [] then
               (case parseRange v (bodySize meta) of
                  None \<Rightarrow>
                    (True, write_header 416
                       (set_header ''Content-Range'' (''bytes */'' @ format_int (bodySize meta)) out))
                | Some (start, end) \<Rightarrow>
                    let len = end - start + 1;
                        out = set_header ''Content-Range''
                                (''bytes '' @ format_int start @ ''-'' @ format_int end @ ''/''
                                  @ format_int (bodySize meta)) out;
                        out = write_header 206 (set_header ''Content-Length'' (format_int len) out);
                        part = take (nat len) (drop (nat start) f);
                        (ok, out) = write_bytes part out
                    in (ok \<and> length part = nat len, out))
             else
               write_bytes f
                 (write_header (statusCode meta)
                   (set_header ''Content-Length'' (format_int (bodySize meta)) out)))"

section \<open>Ranges\<close>

lemma parseRange_bounds:
  "parseRange v bytesTotal = Some (start, end) \<Longrightarrow> 0 \<le> start \<and> start \<le> end \<and> end < bytesTotal"
  by (auto simp: parseRange_def Let_def split: if_splits list.splits option.splits)

end
