(* ===== verification/S3_Server.thy ===== *)
theory S3_Server
  imports S3_Entry Cache_Recovery
begin

text \<open>
  The request handling of the S3 accelerator (\<^verbatim>\<open>s3/server.go\<close>), for one request that
  runs alone: \<open>ServeHTTP\<close> with its branches, the cacheable path with revalidation, stale
  answers and storing while streaming, mutations with their invalidation, and the counters.
  The coalescing of concurrent requests is in the theory on coalescing; here
  \<open>LoadOrStore\<close> always makes the request the leader.

  The environment holds what is outside: the clock (read once per request), the upstream
  (\<open>client.Do\<close>), the fate of the file operations. The list of requests sent upstream is
  recorded in the state.
\<close>

section \<open>State and environment\<close>

record stream_io =
  st_mkdir_ok :: bool
  st_create_ok :: bool
  st_tmp :: string
  st_chunks :: "bytes \<Rightarrow> bytes list"   \<comment> \<open>the pieces \<open>io.Copy\<close> reads\<close>
  st_room :: "nat option"             \<comment> \<open>bytes the disk takes before a write fails\<close>
  st_close_ok :: bool
  st_rename_ok :: bool

record s3_env =
  ev_world :: world
  ev_json :: json
  ev_now :: int
  ev_upstream :: "url option"
  ev_sigv4 :: "credentials \<Rightarrow> string \<Rightarrow> string \<Rightarrow> int \<Rightarrow> signer"
  ev_do :: "request \<Rightarrow> response option"
  ev_put :: put_io
  ev_stream :: stream_io

record s3_state =
  disk :: cache
  hits :: nat
  misses :: nat
  stores :: nat
  revalidations :: nat
  bypasses :: nat
  sent :: "request list"

definition int64 :: "int \<Rightarrow> int" where
  "int64 n = sint (word_of_int n :: 64 word)"

lemma int64_id: "- (2 ^ 63) \<le> n \<Longrightarrow> n < 2 ^ 63 \<Longrightarrow> int64 n = n"
  by (simp add: int64_def sint_sbintrunc' signed_take_bit_int_eq_self)

section \<open>Starting\<close>

datatype s3_new_error = BadConfig config_error | BadUpstream | CacheFailed start_error

definition s3_new :: "world \<Rightarrow> disk \<Rightarrow> int \<Rightarrow> startup \<Rightarrow> (string \<Rightarrow> url option) \<Rightarrow> s3_config \<Rightarrow>
    s3_new_error + (s3_config \<times> url option \<times> s3_state)" where
  "s3_new w d now st url_parse cfg =
     (let cfg = applyConfigDefaults cfg in
      case s3_validate url_parse cfg of
        Some e \<Rightarrow> Inl (BadConfig e)
      | None \<Rightarrow>
          if upstreamURL cfg \<noteq> [] \<and> url_parse (upstreamURL cfg) = None then Inl BadUpstream
          else
            (case new_cache w d now st
                \<lparr>cf_dir = cacheDir cfg, cf_maxSize = maxCacheSize cfg, cf_ttl = 0,
                 cf_softEvictPercent = softEvictPercent cfg\<rparr> of
               Inl e \<Rightarrow> Inl (CacheFailed e)
             | Inr c \<Rightarrow>
                 Inr (cfg, if upstreamURL cfg = [] then None else url_parse (upstreamURL cfg),
                   \<lparr>disk = c, hits = 0, misses = 0, stores = 0, revalidations = 0, bypasses = 0,
                    sent = []\<rparr>)))"

section \<open>Upstream\<close>

definition newUpstreamRequest :: "request \<Rightarrow> url \<Rightarrow> request" where
  "newUpstreamRequest r target =
     r\<lparr>rq_url := target, rq_host := u_host target, rq_requestURI := [],
       rq_header := h_del (removeHopByHopHeaders (rq_header r)) ''X-Proxykit-Cache''\<rparr>"

definition apply_signer :: "signer option \<Rightarrow> request \<Rightarrow> request option" where
  "apply_signer sg r = (case sg of None \<Rightarrow> Some r | Some f \<Rightarrow> f r)"

definition client_do :: "s3_env \<Rightarrow> request \<Rightarrow> s3_state \<Rightarrow> response option \<times> s3_state" where
  "client_do ev r s = (ev_do ev r, s\<lparr>sent := sent s @ [r]\<rparr>)"

definition cacheHeader :: "s3_config \<Rightarrow> string \<Rightarrow> string" where
  "cacheHeader cfg v = (if exposeCacheHeader cfg then v else [])"

definition copyUpstreamResponse :: "response \<Rightarrow> string \<Rightarrow> writer \<Rightarrow> writer" where
  "copyUpstreamResponse resp cacheStatus out =
     (let out = out\<lparr>w_header := copyResponseHeader (w_header out) (rs_header resp)\<rparr>;
          out = set_cache_status cacheStatus out
      in snd (write_bytes (rs_body resp) (write_header (rs_status resp) out)))"

definition forward :: "s3_env \<Rightarrow> s3_config \<Rightarrow> request \<Rightarrow> url \<Rightarrow> signer option \<Rightarrow> string \<Rightarrow> writer \<Rightarrow>
    s3_state \<Rightarrow> writer \<times> s3_state" where
  "forward ev cfg r target sg cacheStatus out s =
     (case apply_signer sg (newUpstreamRequest r target) of
        None \<Rightarrow> (http_error ''sign upstream request'' 502 out, s)
      | Some outgoing \<Rightarrow>
          (case client_do ev outgoing s of
             (None, s) \<Rightarrow> (http_error ''upstream request failed'' 502 out, s)
           | (Some resp, s) \<Rightarrow> (copyUpstreamResponse resp (cacheHeader cfg cacheStatus) out, s)))"

section \<open>Mutations\<close>

definition isMutation :: "string \<Rightarrow> bool" where
  "isMutation m = (m = ''PUT'' \<or> m = ''POST'' \<or> m = ''DELETE'')"

definition target_record :: "string \<Rightarrow> string \<Rightarrow> bool" where
  "target_record pre key =
     (has_prefix key (''s3:meta:'' @ pre @ ''|query='') \<or> has_prefix key (''s3:body:'' @ pre @ ''|query=''))"

definition invalidateTarget :: "world \<Rightarrow> url \<Rightarrow> request_security \<Rightarrow> cache \<Rightarrow> cache" where
  "invalidateTarget w target security c =
     (let key = cacheKey target security;
          (pre, _, _) = cut key ''|query=''
      in snd (removeMatching w (target_record pre) c))"

definition forwardMutation :: "s3_env \<Rightarrow> request \<Rightarrow> url \<Rightarrow> request_security \<Rightarrow> writer \<Rightarrow> s3_state \<Rightarrow>
    writer \<times> s3_state" where
  "forwardMutation ev r target security out s =
     (case apply_signer (se_signer security) (newUpstreamRequest r target) of
        None \<Rightarrow> (http_error ''sign upstream request'' 502 out, s)
      | Some outgoing \<Rightarrow>
          (case client_do ev outgoing s of
             (None, s) \<Rightarrow> (http_error ''upstream request failed'' 502 out, s)
           | (Some resp, s) \<Rightarrow>
               let s = (if 200 \<le> rs_status resp \<and> rs_status resp < 300 \<and> cacheable security
                        then s\<lparr>disk := invalidateTarget (ev_world ev) target security (disk s)\<rparr>
                        else s)
               in (copyUpstreamResponse resp [] out, s)))"

section \<open>What may be stored, and for how long\<close>

definition entryUsable :: "request \<Rightarrow> entry_metadata \<Rightarrow> bool" where
  "entryUsable r meta = (rq_method r = ''HEAD'' \<or> hasBody meta)"

definition canServeStale :: "s3_config \<Rightarrow> int \<Rightarrow> entry_metadata \<Rightarrow> bool" where
  "canServeStale cfg now meta =
     (0 < staleIfError cfg \<and> now < freshUntil meta + staleIfError cfg)"

definition shouldStore :: "s3_config \<Rightarrow> request \<Rightarrow> response \<Rightarrow> bool" where
  "shouldStore cfg r resp =
     (if rs_status resp \<noteq> 200 \<or> h_get (rq_header r) ''Range'' \<noteq> [] then False
      else
        let cc = to_lower (h_get (rs_header resp) ''Cache-Control'') in
        if contains cc ''no-store'' \<or> (respectPrivate cfg \<and> contains cc ''private'') then False
        else h_get (rs_header resp) ''Set-Cookie'' = [])"

fun max_age_parts :: "string list \<Rightarrow> int option" where
  "max_age_parts [] = None"
| "max_age_parts (part # parts) =
     (let part = trim_space (to_lower part) in
      if \<not> has_prefix part ''max-age='' then max_age_parts parts
      else case parse_int 10 64 (trim_space (trim_prefix part ''max-age='')) of
             Some seconds \<Rightarrow> if 0 \<le> seconds then Some seconds else None
           | None \<Rightarrow> None)"

definition cacheControlMaxAge :: "string \<Rightarrow> int option" where
  "cacheControlMaxAge v = max_age_parts (split_on CHR '','' v)"

definition ttlForResponse :: "s3_config \<Rightarrow> response \<Rightarrow> request \<Rightarrow> int" where
  "ttlForResponse cfg resp r =
     (case cacheControlMaxAge (h_get (rs_header resp) ''Cache-Control'') of
        Some n \<Rightarrow>
          let ttl = int64 (n * second)
          in if 0 < maxTTL cfg \<and> maxTTL cfg < ttl then maxTTL cfg else ttl
      | None \<Rightarrow>
          if q_get (url_query (rq_url r)) ''versionId'' \<noteq> [] then versionedTTL cfg
          else freshTTL cfg)"

definition metadataFromResponse :: "s3_config \<Rightarrow> int \<Rightarrow> response \<Rightarrow> request \<Rightarrow> bool \<Rightarrow> int \<Rightarrow>
    entry_metadata" where
  "metadataFromResponse cfg now resp r has_body n =
     \<lparr>statusCode = rs_status resp, m_header = filteredResponseHeader (rs_header resp),
      etag = h_get (rs_header resp) ''ETag'', lastModified = h_get (rs_header resp) ''Last-Modified'',
      storedAt = now, freshUntil = now + ttlForResponse cfg resp r, hasBody = has_body,
      bodySize = n\<rparr>"

definition mergeValidationHeaders :: "entry_metadata \<Rightarrow> header \<Rightarrow> entry_metadata" where
  "mergeValidationHeaders meta h =
     (let v = h_get h ''ETag'';
          meta = (if v \<noteq> [] then meta\<lparr>etag := v, m_header := h_set (m_header meta) ''ETag'' v\<rparr>
                  else meta);
          v = h_get h ''Last-Modified''
      in if v \<noteq> [] then meta\<lparr>lastModified := v, m_header := h_set (m_header meta) ''Last-Modified'' v\<rparr>
         else meta)"

section \<open>Storing while streaming\<close>

record limited_writer =
  lw_file :: bytes               \<comment> \<open>what the temporary file holds\<close>
  lw_limit :: int
  lw_written :: int
  lw_exceeded :: bool
  lw_failed :: bool
  lw_room :: "nat option"

definition lw_write :: "bytes \<Rightarrow> limited_writer \<Rightarrow> limited_writer" where
  "lw_write p lw =
     (if 0 < lw_limit lw \<and> lw_limit lw < lw_written lw + int (length p) then lw\<lparr>lw_exceeded := True\<rparr>
      else if lw_exceeded lw then lw
      else
        let n = (case lw_room lw of None \<Rightarrow> length p | Some m \<Rightarrow> min (length p) (m - length (lw_file lw)));
            lw = lw\<lparr>lw_file := lw_file lw @ take n p, lw_written := lw_written lw + int n\<rparr>
        in if n \<noteq> length p then lw\<lparr>lw_failed := True\<rparr> else lw)"

text \<open>\<open>io.Copy(io.MultiWriter(w, writer), body)\<close>: stops at the first failed write to the client.\<close>

fun copy_tee :: "bytes list \<Rightarrow> writer \<Rightarrow> limited_writer \<Rightarrow> int \<Rightarrow> int \<times> bool \<times> writer \<times> limited_writer" where
  "copy_tee [] out lw n = (n, True, out, lw)"
| "copy_tee (p # ps) out lw n =
     (case write_bytes p out of
        (False, out) \<Rightarrow> (n, False, out, lw)
      | (True, out) \<Rightarrow> copy_tee ps out (lw_write p lw) (n + int (length p)))"

definition stream_path :: "world \<Rightarrow> cache \<Rightarrow> string \<Rightarrow> string" where
  "stream_path w c key =
     (let hexHash = hashKey w (bodyKey key)
      in c_dir c @ ''/streams/'' @ take 2 hexHash @ ''/'' @ hexHash)"

text \<open>The bookkeeping after a complete copy: replace the body file, register it, store the metadata.\<close>

definition store_stream :: "s3_env \<Rightarrow> s3_config \<Rightarrow> response \<Rightarrow> request \<Rightarrow> string \<Rightarrow> bytes \<Rightarrow> int \<Rightarrow>
    s3_state \<Rightarrow> s3_state" where
  "store_stream ev cfg resp r key content written s =
     (let w = ev_world ev; io = ev_stream ev; tmp = st_tmp io;
          finalPath = stream_path w (disk s) key;
          c = remove w (bodyKey key) (disk s)
      in if \<not> st_rename_ok io
         then s\<lparr>disk := c\<lparr>c_files := os_remove w tmp (c_files c)\<rparr>\<rparr>
         else
           let c = c\<lparr>c_files := AList.update finalPath content (AList.delete tmp (c_files c))\<rparr>;
               c = registerAfterStream w (ev_now ev) (bodyKey key) finalPath written c;
               meta = metadataFromResponse cfg (ev_now ev) resp r True written
           in case storeMetadata w (ev_json ev) (ev_now ev) (ev_put ev) key meta c of
                (False, c) \<Rightarrow> s\<lparr>disk := remove w (bodyKey key) c\<rparr>
              | (True, c) \<Rightarrow> s\<lparr>disk := c, stores := stores s + 1\<rparr>)"

definition streamAndStore :: "s3_env \<Rightarrow> s3_config \<Rightarrow> response \<Rightarrow> request \<Rightarrow> string \<Rightarrow> writer \<Rightarrow>
    s3_state \<Rightarrow> writer \<times> s3_state" where
  "streamAndStore ev cfg resp r key out s =
     (let io = ev_stream ev; w = ev_world ev in
      if 0 < maxEntrySize cfg \<and> maxEntrySize cfg < rs_contentLength resp
         \<or> \<not> st_mkdir_ok io \<or> \<not> st_create_ok io
      then (copyUpstreamResponse resp (cacheHeader cfg ''BYPASS'') out, s)
      else
        let out = out\<lparr>w_header := copyResponseHeader (w_header out) (rs_header resp)\<rparr>;
            out = set_cache_status (cacheHeader cfg ''MISS'') out;
            out = write_header (rs_status resp) out;
            (written, copied, out, lw) =
              copy_tee (st_chunks io (rs_body resp)) out
                \<lparr>lw_file = [], lw_limit = maxEntrySize cfg, lw_written = 0, lw_exceeded = False,
                 lw_failed = False, lw_room = st_room io\<rparr> 0;
            s = s\<lparr>disk := (disk s)\<lparr>c_files := AList.update (st_tmp io) (lw_file lw) (c_files (disk s))\<rparr>\<rparr>
        in if \<not> copied \<or> rs_bodyErr resp \<or> \<not> st_close_ok io \<or> lw_exceeded lw \<or> lw_failed lw
           then (out, s\<lparr>disk := (disk s)\<lparr>c_files := os_remove w (st_tmp io) (c_files (disk s))\<rparr>\<rparr>)
           else (out, store_stream ev cfg resp r key (lw_file lw) written s))"

section \<open>Cacheable requests\<close>

definition conditional_request :: "entry_metadata option \<Rightarrow> request \<Rightarrow> request \<Rightarrow> request \<times> bool" where
  "conditional_request stale r outgoing =
     (case stale of
        None \<Rightarrow> (outgoing, False)
      | Some m \<Rightarrow>
          if \<not> (rq_method r = ''HEAD'' \<or> hasBody m) then (outgoing, False)
          else if etag m \<noteq> []
            then (outgoing\<lparr>rq_header := h_set (rq_header outgoing) ''If-None-Match'' (etag m)\<rparr>, True)
          else if lastModified m \<noteq> []
            then (outgoing\<lparr>rq_header := h_set (rq_header outgoing) ''If-Modified-Since''
                    (lastModified m)\<rparr>, True)
          else (outgoing, False))"

definition revalidated :: "s3_env \<Rightarrow> s3_config \<Rightarrow> request \<Rightarrow> response \<Rightarrow> string \<Rightarrow> entry_metadata \<Rightarrow>
    string \<Rightarrow> writer \<Rightarrow> s3_state \<Rightarrow> writer \<times> s3_state" where
  "revalidated ev cfg r resp key stale staleBody out s =
     (let s = s\<lparr>revalidations := revalidations s + 1\<rparr>;
          stale = stale\<lparr>storedAt := ev_now ev, freshUntil := ev_now ev + ttlForResponse cfg resp r\<rparr>;
          stale = mergeValidationHeaders stale (rs_header resp);
          (_, c) = storeMetadata (ev_world ev) (ev_json ev) (ev_now ev) (ev_put ev) key stale (disk s);
          s = s\<lparr>disk := c\<rparr>;
          (_, out) = serveEntry (ev_world ev) (disk s) r stale staleBody (cacheHeader cfg ''REVALIDATED'') out
      in (out, s))"

definition fresh_response :: "s3_env \<Rightarrow> s3_config \<Rightarrow> request \<Rightarrow> response \<Rightarrow> string \<Rightarrow> writer \<Rightarrow>
    s3_state \<Rightarrow> writer \<times> s3_state" where
  "fresh_response ev cfg r resp key out s =
     (let w = ev_world ev;
          s = (if rs_status resp = 404 \<or> rs_status resp = 410
               then s\<lparr>disk := removeEntry w key (disk s)\<rparr> else s)
      in if \<not> shouldStore cfg r resp then (copyUpstreamResponse resp (cacheHeader cfg ''MISS'') out, s)
         else if rq_method r = ''HEAD'' then
           (let c = remove w (bodyKey key) (disk s);
                meta = metadataFromResponse cfg (ev_now ev) resp r False 0;
                (ok, c) = storeMetadata w (ev_json ev) (ev_now ev) (ev_put ev) key meta c;
                s = s\<lparr>disk := c, stores := (if ok then stores s + 1 else stores s)\<rparr>
            in (copyUpstreamResponse resp (cacheHeader cfg ''MISS'') out, s))
         else streamAndStore ev cfg resp r key out s)"

definition fetchAndMaybeStore :: "s3_env \<Rightarrow> s3_config \<Rightarrow> request \<Rightarrow> url \<Rightarrow> signer option \<Rightarrow> string \<Rightarrow>
    (entry_metadata \<times> string) option \<Rightarrow> writer \<Rightarrow> s3_state \<Rightarrow> writer \<times> s3_state" where
  "fetchAndMaybeStore ev cfg r target sg key stale out s =
     (let (outgoing, canRevalidate) =
            conditional_request (map_option fst stale) r (newUpstreamRequest r target) in
      case apply_signer sg outgoing of
        None \<Rightarrow> (http_error ''sign upstream request'' 502 out, s)
      | Some outgoing \<Rightarrow>
          (case client_do ev outgoing s of
             (None, s) \<Rightarrow>
               (case stale of
                  Some (meta, body) \<Rightarrow>
                    if canServeStale cfg (ev_now ev) meta \<and> entryUsable r meta
                    then (snd (serveEntry (ev_world ev) (disk s) r meta body (cacheHeader cfg ''STALE'') out), s)
                    else (http_error ''upstream request failed'' 502 out, s)
                | None \<Rightarrow> (http_error ''upstream request failed'' 502 out, s))
           | (Some resp, s) \<Rightarrow>
               if rs_status resp = 304 \<and> canRevalidate then
                 (case stale of
                    Some (meta, body) \<Rightarrow> revalidated ev cfg r resp key meta body out s
                  | None \<Rightarrow> (out, s))
               else fresh_response ev cfg r resp key out s))"

definition usable_fresh :: "s3_env \<Rightarrow> request \<Rightarrow> (entry_metadata \<times> string) option \<Rightarrow> bool" where
  "usable_fresh ev r found =
     (case found of None \<Rightarrow> False
      | Some (meta, _) \<Rightarrow> entryUsable r meta \<and> ev_now ev < freshUntil meta)"

definition leader :: "s3_env \<Rightarrow> s3_config \<Rightarrow> request \<Rightarrow> url \<Rightarrow> request_security \<Rightarrow> string \<Rightarrow> writer \<Rightarrow>
    s3_state \<Rightarrow> writer \<times> s3_state" where
  "leader ev cfg r target security key out s =
     (let (found, c) = loadMetadata (ev_world ev) (ev_json ev) (ev_now ev) key (disk s);
          s = s\<lparr>disk := c\<rparr>
      in case found of
           Some (meta, bodyPath) \<Rightarrow>
             if usable_fresh ev r found
             then (snd (serveEntry (ev_world ev) (disk s) r meta bodyPath (cacheHeader cfg ''HIT'') out),
                   s\<lparr>hits := hits s + 1\<rparr>)
             else fetchAndMaybeStore ev cfg r target (se_signer security) key found out
                    (s\<lparr>misses := misses s + 1\<rparr>)
         | None \<Rightarrow>
             fetchAndMaybeStore ev cfg r target (se_signer security) key None out
               (s\<lparr>misses := misses s + 1\<rparr>))"

definition serveCacheable :: "s3_env \<Rightarrow> s3_config \<Rightarrow> request \<Rightarrow> url \<Rightarrow> request_security \<Rightarrow> string \<Rightarrow>
    writer \<Rightarrow> s3_state \<Rightarrow> writer \<times> s3_state" where
  "serveCacheable ev cfg r target security key out s =
     (let (found, c) = loadMetadata (ev_world ev) (ev_json ev) (ev_now ev) key (disk s);
          s = s\<lparr>disk := c\<rparr>
      in case found of
           Some (meta, bodyPath) \<Rightarrow>
             if usable_fresh ev r found then
               (let s = s\<lparr>hits := hits s + 1\<rparr>;
                    (ok, out) = serveEntry (ev_world ev) (disk s) r meta bodyPath (cacheHeader cfg ''HIT'') out
                in if ok then (out, s)
                   else leader ev cfg r target security key out
                          (s\<lparr>disk := removeEntry (ev_world ev) key (disk s)\<rparr>))
             else leader ev cfg r target security key out s
         | None \<Rightarrow> leader ev cfg r target security key out s)"

definition s3_serveHTTP :: "s3_env \<Rightarrow> s3_config \<Rightarrow> request \<Rightarrow> writer \<Rightarrow> s3_state \<Rightarrow> writer \<times> s3_state" where
  "s3_serveHTTP ev cfg r out s =
     (if (case authorizer cfg of None \<Rightarrow> False | Some f \<Rightarrow> \<not> f r)
      then (http_error ''forbidden'' 403 out, s)
      else case resolveSecurity (hashKey (ev_world ev)) (ev_sigv4 ev) cfg (ev_now ev) r of
        None \<Rightarrow> (http_error ''request authorization failed'' 502 out, s)
      | Some security \<Rightarrow>
          (case targetURL (ev_upstream ev) cfg r of
             None \<Rightarrow> (http_error ''request has no upstream host'' 400 out, s)
           | Some target \<Rightarrow>
               let m = to_upper (rq_method r) in
               if isMutation m then forwardMutation ev r target security out s
               else if m \<noteq> ''GET'' \<and> m \<noteq> ''HEAD''
                 then forward ev cfg r target (se_signer security) [] out s
               else if \<not> cacheable security \<or> \<not> cachePolicy cfg r
                 then forward ev cfg r target (se_signer security) ''BYPASS'' out
                        (s\<lparr>bypasses := bypasses s + 1\<rparr>)
               else serveCacheable ev cfg r target security (cacheKey target security) out s))"

end
