(* ===== verification/S3_Key_Properties.thy ===== *)
theory S3_Key_Properties
  imports S3_Server
begin

text \<open>
  The cache keys of the S3 accelerator: which requests share a record, and which records an
  invalidation after a mutation reaches.
\<close>

section \<open>Characters of the parts of a key\<close>

lemma set_join: "set (join sep ws) \<subseteq> set sep \<union> (\<Union>w\<in>set ws. set w)"
  by (induction sep ws rule: join.induct) auto

lemma bar_not_escaped: "CHR ''|'' \<notin> set (url_escape m s)"
proof
  assume "CHR ''|'' \<in> set (url_escape m s)"
  then obtain c where c: "CHR ''|'' \<in> set (escape_char m c)" by (auto simp: url_escape_def)
  have hex: "CHR ''|'' \<noteq> upper_hex d" if "d < 16" for d
    using that by (auto simp: upper_hex_def dest!: arg_cong [where f = "of_char :: char \<Rightarrow> nat"])
  have "(of_char c :: nat) div 16 < 16"
    by (rule less_mult_imp_div_less) (simp add: of_char_less)
  then have "CHR ''|'' = c \<and> \<not> should_escape m c"
    using c hex [of "of_char c div 16"] hex [of "of_char c mod 16"]
    by (auto simp: escape_char_def split: if_splits)
  then show False
    by (auto simp: should_escape_def is_alnum_def is_upper_def is_lower_def is_digit_def split: if_splits)
qed

lemma bar_should_escape: "should_escape EncodePath CHR ''|''"
  by (simp add: should_escape_def is_alnum_def is_upper_def is_lower_def is_digit_def)

lemma bar_not_valid:
  assumes "valid_encoded s"
  shows "CHR ''|'' \<notin> set s"
proof
  assume "CHR ''|'' \<in> set s"
  then have "CHR ''|'' \<in> set ''!$&()*+,;=:@[]%'' \<or> CHR ''|'' = CHR 0x27
      \<or> \<not> should_escape EncodePath CHR ''|''"
    using assms unfolding valid_encoded_def list_all_iff by blast
  then show False using bar_should_escape by simp
qed

lemma bar_escaped_path: "CHR ''|'' \<notin> set (escaped_path u)"
  by (auto simp: escaped_path_def bar_not_escaped bar_not_valid)

lemma bar_encode_pairs: "p \<in> set (encode_pairs k vs) \<Longrightarrow> CHR ''|'' \<notin> set p"
  by (auto simp: encode_pairs_def bar_not_escaped split: if_splits)

lemma bar_stable_query: "CHR ''|'' \<notin> set (stable_query u)"
proof
  assume bar: "CHR ''|'' \<in> set (stable_query u)"
  define q where "q = filter (\<lambda>p. \<not> signing_param (fst p)) (url_query u)"
  define f where "f k = encode_pairs k (case map_of q k of None \<Rightarrow> [] | Some vs \<Rightarrow> vs)" for k
  define pairs where "pairs = concat (map f (sort (keys q)))"
  have pairs1: "stable_query u = join ''&'' pairs"
    unfolding stable_query_def encodeSortedQuery_def pairs_def f_def q_def ..
  have pairs2: "\<exists>k vs. p \<in> set (encode_pairs k vs)" if "p \<in> set pairs" for p
    using that unfolding pairs_def f_def by auto
  have "CHR ''|'' \<in> set ''&'' \<union> (\<Union>w\<in>set pairs. set w)"
    using bar set_join unfolding pairs1 by (rule rev_subsetD)
  then obtain p where "p \<in> set pairs" "CHR ''|'' \<in> set p" by auto
  with pairs2 show False using bar_encode_pairs by blast
qed

lemma bar_to_lower: "CHR ''|'' \<notin> set s \<Longrightarrow> CHR ''|'' \<notin> set (to_lower s)"
  by (auto simp: to_lower_def lower_char_def Let_def dest!: arg_cong [where f = "of_char :: char \<Rightarrow> nat"]
      split: if_splits)

section \<open>The parts of a key\<close>

text \<open>No separator in the parts a caller supplies.\<close>

definition no_bar :: "url \<Rightarrow> request_security \<Rightarrow> bool" where
  "no_bar target security \<longleftrightarrow>
     CHR ''|'' \<notin> set (tenant (se_identity security)) \<and> CHR ''|'' \<notin> set (subject (se_identity security))
     \<and> CHR ''|'' \<notin> set (authScope security) \<and> CHR ''|'' \<notin> set (u_host target)"

definition key_parts :: "url \<Rightarrow> request_security \<Rightarrow> string list" where
  "key_parts target security =
     [''tenant='' @ tenant (se_identity security), ''subject='' @ subject (se_identity security),
      ''auth='' @ authScope security, ''host='' @ to_lower (u_host target),
      ''path='' @ escaped_path target]"

lemma key_parts_no_bar: "no_bar t s \<Longrightarrow> w \<in> set (key_parts t s) \<Longrightarrow> CHR ''|'' \<notin> set w"
  using bar_to_lower [of "u_host t"] by (auto simp: key_parts_def no_bar_def bar_escaped_path)

lemma cacheKey_parts: "cacheKey t s = join ''|'' (key_parts t s @ [''query='' @ stable_query t])"
  by (simp add: cacheKey_def key_parts_def)

lemma split_join_rest:
  "ws \<noteq> [] \<Longrightarrow> (\<And>w. w \<in> set ws \<Longrightarrow> c \<notin> set w) \<Longrightarrow>
     split_on c (join [c] ws @ c # r) = ws @ split_on c r"
  by (induction "[c]" ws rule: join.induct) auto

lemma join_snoc: "ws \<noteq> [] \<Longrightarrow> join sep (ws @ [w]) = join sep ws @ sep @ w"
  by (induction sep ws rule: join.induct) auto

definition key_prefix :: "url \<Rightarrow> request_security \<Rightarrow> string" where
  "key_prefix t s = join ''|'' (key_parts t s)"

lemma cacheKey_prefix: "cacheKey t s = key_prefix t s @ ''|query='' @ stable_query t"
  by (simp add: cacheKey_parts key_prefix_def join_snoc key_parts_def)

lemma split_cacheKey:
  "no_bar t s \<Longrightarrow> split_on CHR ''|'' (cacheKey t s) = key_parts t s @ [''query='' @ stable_query t]"
  unfolding cacheKey_parts by (rule split_on_join) (auto simp: bar_stable_query key_parts_no_bar)

lemma has_prefix_cacheKey:
  assumes "no_bar t s" "no_bar t' s'"
  shows "has_prefix (cacheKey t' s') (key_prefix t s @ ''|query='') \<longleftrightarrow> key_parts t' s' = key_parts t s"
proof
  assume "has_prefix (cacheKey t' s') (key_prefix t s @ ''|query='')"
  then obtain r where r: "cacheKey t' s' = key_prefix t s @ CHR ''|'' # ''query='' @ r"
    by (auto simp: go_str)
  have "split_on CHR ''|'' (cacheKey t' s')
      = key_parts t s @ split_on CHR ''|'' (''query='' @ r)"
    unfolding r key_prefix_def
    by (rule split_join_rest) (auto simp: key_parts_no_bar [OF assms(1)] key_parts_def)
  then show "key_parts t' s' = key_parts t s"
    unfolding split_cacheKey [OF assms(2)] by (auto simp: key_parts_def)
next
  assume "key_parts t' s' = key_parts t s"
  then have "key_prefix t' s' = key_prefix t s" by (simp add: key_prefix_def)
  then show "has_prefix (cacheKey t' s') (key_prefix t s @ ''|query='')"
    unfolding cacheKey_prefix using has_prefix_append [of "key_prefix t s @ ''|query=''"] by simp
qed

text \<open>The cut of the key at its query finds the last part: no other part starts like it.\<close>

lemma cut_key:
  assumes "no_bar t s"
  shows "cut (cacheKey t s) ''|query='' = (key_prefix t s, stable_query t, True)"
proof -
  have nb: "CHR ''|'' \<notin> set (to_lower (u_host t))" using assms bar_to_lower by (simp add: no_bar_def)
  have tail: "cut (w @ ''|query='' @ stable_query t) ''|query='' = (w, stable_query t, True)"
    if "CHR ''|'' \<notin> set w" for w
    using cut_at_char [OF that, of "''query='' @ stable_query t" "''query=''"] by simp
  have step: "cut (w @ CHR ''|'' # (x # xs)) ''|query='' = (w @ CHR ''|'' # y, z, True)"
    if "CHR ''|'' \<notin> set w" "x \<noteq> CHR ''q''" "cut (x # xs) ''|query='' = (y, z, True)" for w x xs y z
    using cut_at_char [OF that(1), of "x # xs" "''query=''"] that(2,3) by simp
  have "cut (''path='' @ escaped_path t @ ''|query='' @ stable_query t) ''|query=''
      = (''path='' @ escaped_path t, stable_query t, True)"
    using tail [of "''path='' @ escaped_path t"] by (simp add: bar_escaped_path)
  from step [OF _ _ this [unfolded append_Cons], of "''host='' @ to_lower (u_host t)"] nb
  have "cut (''host='' @ to_lower (u_host t) @ ''|path='' @ escaped_path t @ ''|query='' @ stable_query t)
      ''|query='' = (''host='' @ to_lower (u_host t) @ ''|path='' @ escaped_path t, stable_query t, True)"
    by simp
  from step [OF _ _ this [unfolded append_Cons], of "''auth='' @ authScope s"] assms
  have "cut (''auth='' @ authScope s @ ''|host='' @ to_lower (u_host t) @ ''|path='' @ escaped_path t
        @ ''|query='' @ stable_query t) ''|query=''
      = (''auth='' @ authScope s @ ''|host='' @ to_lower (u_host t) @ ''|path='' @ escaped_path t,
         stable_query t, True)"
    by (simp add: no_bar_def)
  from step [OF _ _ this [unfolded append_Cons], of "''subject='' @ subject (se_identity s)"] assms
  have "cut (''subject='' @ subject (se_identity s) @ ''|auth='' @ authScope s
        @ ''|host='' @ to_lower (u_host t) @ ''|path='' @ escaped_path t
        @ ''|query='' @ stable_query t) ''|query=''
      = (''subject='' @ subject (se_identity s) @ ''|auth='' @ authScope s
        @ ''|host='' @ to_lower (u_host t) @ ''|path='' @ escaped_path t, stable_query t, True)"
    by (simp add: no_bar_def)
  from step [OF _ _ this [unfolded append_Cons], of "''tenant='' @ tenant (se_identity s)"] assms
  show ?thesis by (simp add: no_bar_def cacheKey_def key_prefix_def key_parts_def)
qed

section \<open>Order and signatures in the query\<close>

lemma sort_cong: "mset xs = mset ys \<Longrightarrow> sort xs = sort ys"
  for xs ys :: "string list"
  by (metis properties_for_sort sort_key_simps(1) mset_sort sorted_sort)

lemma encode_pairs_cong: "mset vs = mset vs' \<Longrightarrow> encode_pairs k vs = encode_pairs k vs'"
  by (auto simp: encode_pairs_def dest: sort_cong)

text \<open>The values of the parameters that are not part of a signature.\<close>

definition plain_values :: "url \<Rightarrow> string \<Rightarrow> string list option" where
  "plain_values u k = (if signing_param k then None else map_of (url_query u) k)"

lemma distinct_parse_pairs: "distinct (keys q) \<Longrightarrow> distinct (keys (parse_pairs ps q))"
  by (induction ps q rule: parse_pairs.induct)
    (auto simp: Let_def add_value_def distinct_update split: prod.split option.split)

lemma distinct_url_query: "distinct (keys (url_query u))"
  unfolding url_query_def parse_query_def by (rule distinct_parse_pairs) simp

lemma map_of_filter_plain:
  "map_of (filter (\<lambda>p. \<not> signing_param (fst p)) (url_query u)) k = plain_values u k"
  using map_of_filter_keys [of "\<lambda>k. \<not> signing_param k" "url_query u" k] by (simp add: plain_values_def)

lemma stable_query_cong:
  assumes "\<And>k. rel_option (\<lambda>vs vs'. mset vs = mset vs') (plain_values u k) (plain_values u' k)"
  shows "stable_query u = stable_query u'"
proof -
  let ?q = "filter (\<lambda>p. \<not> signing_param (fst p)) (url_query u)"
    and ?q' = "filter (\<lambda>p. \<not> signing_param (fst p)) (url_query u')"
  have dom: "k \<in> set (keys ?q) \<longleftrightarrow> k \<in> set (keys ?q')" for k
  proof -
    have "map_of ?q k = None \<longleftrightarrow> map_of ?q' k = None"
      unfolding map_of_filter_plain
      using assms [of k] by (cases "plain_values u k"; cases "plain_values u' k") simp_all
    then show ?thesis unfolding map_of_None_notin by blast
  qed
  have "distinct (keys ?q)" "distinct (keys ?q')"
    using distinct_url_query by (simp_all add: distinct_map_filter)
  moreover have "set (keys ?q) = set (keys ?q')" using dom by blast
  ultimately have "mset (keys ?q) = mset (keys ?q')" by (simp only: set_eq_iff_mset_eq_distinct)
  then have order: "sort (keys ?q) = sort (keys ?q')" by (rule sort_cong)
  have "encode_pairs k (case map_of ?q k of None \<Rightarrow> [] | Some vs \<Rightarrow> vs)
      = encode_pairs k (case map_of ?q' k of None \<Rightarrow> [] | Some vs \<Rightarrow> vs)" for k
    using assms [of k] unfolding map_of_filter_plain
    by (cases "plain_values u k"; cases "plain_values u' k") (auto intro: encode_pairs_cong)
  then show ?thesis by (simp only: stable_query_def encodeSortedQuery_def order)
qed

section \<open>Invalidation\<close>

lemma target_record_meta [simp]: "target_record pre (metadataKey k) = has_prefix k (pre @ ''|query='')"
  by (simp add: target_record_def metadataKey_def)

lemma target_record_body [simp]: "target_record pre (bodyKey k) = has_prefix k (pre @ ''|query='')"
  by (simp add: target_record_def bodyKey_def)

lemma invalidateTarget_entries:
  assumes "cache_inv u c" "no_bar t s"
  shows "c_entries (invalidateTarget w t s c)
    = filter (\<lambda>p. \<not> target_record (key_prefix t s) (fst p)) (c_entries c)"
proof -
  obtain m c' where run: "remove_loop w (\<lambda>key e. target_record (key_prefix t s) key) (c_entries c) c 0 = (m, c')"
    by fastforce
  have "c_entries c' = filter (\<lambda>(k, e). \<not> target_record (key_prefix t s) k) (c_entries c)"
    using remove_loop_all(3) [OF assms(1) run] .
  with run show ?thesis
    by (simp add: invalidateTarget_def cut_key [OF assms(2)] removeMatching_def case_prod_unfold)
qed

section \<open>Properties\<close>


definition demo_url :: "string \<Rightarrow> url" where
  "demo_url q = \<lparr>u_scheme = ''https'', u_host = ''s3.test'', u_path = ''/b/o'', u_rawPath = [],
     u_rawQuery = q\<rparr>"

definition demo_security :: "string \<Rightarrow> request_security" where
  "demo_security tenant_name = \<lparr>se_identity = \<lparr>tenant = tenant_name, subject = []\<rparr>,
     authScope = ''anonymous'', se_signer = None, cacheable = True\<rparr>"

lemma demo_no_bar: "CHR ''|'' \<notin> set n \<Longrightarrow> no_bar (demo_url q) (demo_security n)"
  by (simp add: no_bar_def demo_url_def demo_security_def)




text \<open>C7: A successful mutation invalidates its object and nothing else. After a \<open>PUT\<close>,
  \<open>POST\<close> or \<open>DELETE\<close> that the upstream answers with a 2xx status, no metadata or body record
  is left for the same identity, scope, host and path with any query, so that the next read
  goes upstream; every record of another key is still there.\<close>

theorem mutation_invalidates:
  assumes "cache_inv u (disk s)" "no_bar t sec" "cacheable sec"
    "apply_signer (se_signer sec) (newUpstreamRequest r t) = Some outgoing"
    "ev_do ev outgoing = Some resp" "200 \<le> rs_status resp" "rs_status resp < 300"
    "no_bar t' sec'"
  shows "let c' = disk (snd (forwardMutation ev r t sec out s)); same = (key_parts t' sec' = key_parts t sec)
     in map_of (c_entries c') (metadataKey (cacheKey t' sec'))
          = (if same then None else map_of (c_entries (disk s)) (metadataKey (cacheKey t' sec')))
      \<and> map_of (c_entries c') (bodyKey (cacheKey t' sec'))
          = (if same then None else map_of (c_entries (disk s)) (bodyKey (cacheKey t' sec')))"
proof -
  have run: "disk (snd (forwardMutation ev r t sec out s)) = invalidateTarget (ev_world ev) t sec (disk s)"
    using assms(3-7) by (simp add: forwardMutation_def client_do_def Let_def)
  have look: "map_of (c_entries (invalidateTarget (ev_world ev) t sec (disk s))) k
      = (if \<not> target_record (key_prefix t sec) k then map_of (c_entries (disk s)) k else None)" for k
    unfolding invalidateTarget_entries [OF assms(1,2)] by (rule map_of_filter_keys)
  show ?thesis
    unfolding run Let_def look target_record_meta target_record_body
      has_prefix_cacheKey [OF assms(2,8)] by simp
qed

end
