(* ===== verification/S3_Properties.thy ===== *)
theory S3_Properties
  imports S3_Key_Properties
begin

text \<open>
  What the S3 accelerator answers and stores: byte ranges, the copy to the client and to the
  disk, lifetimes, who may cause an upstream request, and that an object fetched once is
  then served from the disk.
\<close>

section \<open>Ranges\<close>

lemma contains_char: "contains s [c] \<longleftrightarrow> c \<in> set s"
  unfolding contains_iff by (metis append_Cons append_Nil in_set_conv_decomp)

lemma format_nat_not_sep:
  "CHR ''-'' \<notin> set (format_nat n)" "CHR '','' \<notin> set (format_nat n)"
  using format_nat_no_sign by blast+

lemma split_range: "CHR ''-'' \<notin> set a \<Longrightarrow> CHR ''-'' \<notin> set b \<Longrightarrow> split_on CHR ''-'' (a @ CHR ''-'' # b) = [a, b]"
  by simp

lemma parseRange_split:
  assumes "0 < n" "CHR ''-'' \<notin> set a" "CHR ''-'' \<notin> set b" "CHR '','' \<notin> set a" "CHR '','' \<notin> set b"
  shows "parseRange (''bytes='' @ a @ ''-'' @ b) n =
    (if a = [] then
       (case parse_int 10 64 b of None \<Rightarrow> None
        | Some k \<Rightarrow> if k \<le> 0 then None else Some (n - (if n < k then n else k), n - 1))
     else
       (case parse_int 10 64 a of None \<Rightarrow> None
        | Some start \<Rightarrow>
            if start < 0 \<or> n \<le> start then None
            else if b = [] then Some (start, n - 1)
            else (case parse_int 10 64 b of None \<Rightarrow> None
                  | Some end \<Rightarrow> if end < start then None
                      else Some (start, if n \<le> end then n - 1 else end))))"
proof -
  have "\<not> contains (''bytes='' @ a @ ''-'' @ b) '',''"
    using assms(4,5) by (simp add: contains_char)
  moreover have "has_prefix (''bytes='' @ a @ ''-'' @ b) ''bytes=''"
    using has_prefix_append [of "''bytes=''"] by simp
  moreover have "trim_prefix (''bytes='' @ a @ ''-'' @ b) ''bytes='' = a @ CHR ''-'' # b"
    using trim_prefix_append [of "''bytes=''" "a @ ''-'' @ b"] by simp
  ultimately show ?thesis using assms(1) split_range [OF assms(2,3)]
    by (simp add: parseRange_def Let_def split: option.split)
qed

text \<open>What the three forms of a range header mean.\<close>

definition range_header :: "nat option \<Rightarrow> nat option \<Rightarrow> string" where
  "range_header a b =
     ''bytes='' @ (case a of None \<Rightarrow> [] | Some a \<Rightarrow> format_nat a) @ ''-''
       @ (case b of None \<Rightarrow> [] | Some b \<Rightarrow> format_nat b)"

fun range_meaning :: "nat option \<Rightarrow> nat option \<Rightarrow> int \<Rightarrow> (int \<times> int) option" where
  "range_meaning (Some a) (Some b) n =
     (if int a < n \<and> a \<le> b then Some (int a, min (int b) (n - 1)) else None)"
| "range_meaning (Some a) None n = (if int a < n then Some (int a, n - 1) else None)"
| "range_meaning None (Some k) n = (if 0 < k then Some (n - min (int k) n, n - 1) else None)"
| "range_meaning None None n = None"

lemma parseRange_meaning:
  assumes "0 < n" "\<And>x. a = Some x \<Longrightarrow> int x < 2 ^ 63" "\<And>x. b = Some x \<Longrightarrow> int x < 2 ^ 63"
  shows "parseRange (range_header a b) n = range_meaning a b n"
proof -
  have pf: "parse_int 10 64 (format_nat x) = Some (int x)" if "int x < 2 ^ 63" for x
    using that by (intro parse_format_nat) simp
  have p0: "parse_int 10 64 [] = None" by (simp add: parse_int_def)
  let ?A = "case a of None \<Rightarrow> [] | Some a \<Rightarrow> format_nat a"
  let ?B = "case b of None \<Rightarrow> [] | Some b \<Rightarrow> format_nat b"
  have sep: "CHR ''-'' \<notin> set ?A" "CHR ''-'' \<notin> set ?B" "CHR '','' \<notin> set ?A" "CHR '','' \<notin> set ?B"
    by (simp_all add: format_nat_not_sep split: option.split)
  show ?thesis
    unfolding range_header_def parseRange_split [OF assms(1) sep]
    using assms by (cases a; cases b) (auto simp: pf p0 min_def)
qed

lemma write_bytes_fresh:
  "w_takes out = None \<Longrightarrow> w_status out = Some st \<Longrightarrow> write_bytes p out = (True, out\<lparr>w_body := w_body out @ p\<rparr>)"
  by (simp add: write_bytes_all write_header_def)

section \<open>Copying to the client and to the disk\<close>

definition lw_clean :: "limited_writer \<Rightarrow> bool" where
  "lw_clean lw \<longleftrightarrow> lw_written lw = int (length (lw_file lw)) \<and> lw_room lw = None"

lemma lw_write_clean: "lw_clean lw \<Longrightarrow> lw_clean (lw_write p lw)"
  by (simp add: lw_clean_def lw_write_def Let_def)

lemma lw_write_fields [simp]:
  "lw_limit (lw_write p lw) = lw_limit lw" "lw_room (lw_write p lw) = lw_room lw"
  by (simp_all add: lw_write_def Let_def)

text \<open>A file that has not run over its limit holds everything copied, and never more than it.\<close>

lemma copy_tee_client:
  "w_takes out = None \<Longrightarrow> w_status out = Some st \<Longrightarrow>
     fst (copy_tee ps out lw n) = n + int (length (concat ps))
     \<and> fst (snd (copy_tee ps out lw n))
     \<and> fst (snd (snd (copy_tee ps out lw n))) = out\<lparr>w_body := w_body out @ concat ps\<rparr>
     \<and> snd (snd (snd (copy_tee ps out lw n))) = fold lw_write ps lw"
  by (induction ps arbitrary: out lw n) (simp_all add: write_bytes_fresh)

lemma fold_lw_write:
  "lw_clean lw \<Longrightarrow> \<not> lw_failed lw \<Longrightarrow>
     \<not> lw_failed (fold lw_write ps lw)
     \<and> (lw_exceeded (fold lw_write ps lw) \<longleftrightarrow> lw_exceeded lw \<or>
          0 < lw_limit lw \<and> ps \<noteq> [] \<and> lw_limit lw < lw_written lw + int (length (concat ps)))
     \<and> (\<not> lw_exceeded (fold lw_write ps lw) \<longrightarrow> lw_file (fold lw_write ps lw) = lw_file lw @ concat ps)
     \<and> (0 < lw_limit lw \<and> int (length (lw_file lw)) \<le> lw_limit lw \<longrightarrow>
          int (length (lw_file (fold lw_write ps lw))) \<le> lw_limit lw)"
  if "ps \<noteq> [] \<longrightarrow> 0 < lw_limit lw \<longrightarrow> lw_written lw \<le> lw_limit lw"
proof -
  show "lw_clean lw \<Longrightarrow> \<not> lw_failed lw \<Longrightarrow> ?thesis"
    using that
  proof (induction ps arbitrary: lw)
    case Nil
    then show ?case by simp
  next
    case (Cons p ps)
    show ?case
    proof (cases "0 < lw_limit lw \<and> lw_limit lw < lw_written lw + int (length p)")
      case True
      then have step: "lw_write p lw = lw\<lparr>lw_exceeded := True\<rparr>" by (simp add: lw_write_def)
      have "lw_clean (lw_write p lw)" using Cons.prems(1) by (rule lw_write_clean)
      with Cons.IH [of "lw_write p lw"] Cons.prems True show ?thesis by (simp add: step)
    next
      case False
      show ?thesis
      proof (cases "lw_exceeded lw")
        case True
        then have step: "lw_write p lw = lw" using False by (simp add: lw_write_def)
        with Cons.IH [of lw] Cons.prems True show ?thesis by simp
      next
        case ok: False
        have step: "lw_write p lw = lw\<lparr>lw_file := lw_file lw @ p, lw_written := lw_written lw + int (length p)\<rparr>"
          using False ok Cons.prems(1) by (auto simp: lw_write_def lw_clean_def Let_def)
        have "lw_clean (lw_write p lw)" using Cons.prems(1) by (rule lw_write_clean)
        with Cons.IH [of "lw_write p lw"] Cons.prems False ok show ?thesis
          by (auto simp: step lw_clean_def)
      qed
    qed
  qed
qed

section \<open>Loading what was stored\<close>

lemma meta_body_keys [simp]: "metadataKey a \<noteq> bodyKey b" "bodyKey b \<noteq> metadataKey a"
  by (simp_all add: metadataKey_def bodyKey_def)

lemma get_live:
  assumes "map_of (c_entries c) k = Some e" "expiresAt e = None"
  shows "\<exists>c'. get w now k c = (Some (e_path e), c') \<and> c_files c' = c_files c
    \<and> (\<forall>k'. k' \<noteq> k \<longrightarrow> map_of (c_entries c') k' = map_of (c_entries c) k')"
  using assms by (auto simp: get_def Let_def expired_def update_conv' split: option.split)

lemma load_stored:
  assumes "map_of (c_entries c) (metadataKey key) = Some em" "expiresAt em = None"
    "open_ok w (e_path em)" "map_of (c_files c) (e_path em) = Some data" "unmarshal js data = Some meta"
    "hasBody meta" "map_of (c_entries c) (bodyKey key) = Some eb" "expiresAt eb = None"
  shows "\<exists>c'. loadMetadata w js now key c = (Some (meta, e_path eb), c') \<and> c_files c' = c_files c"
proof -
  obtain c1 where c1: "get w now (metadataKey key) c = (Some (e_path em), c1)" "c_files c1 = c_files c"
    "\<forall>k'. k' \<noteq> metadataKey key \<longrightarrow> map_of (c_entries c1) k' = map_of (c_entries c) k'"
    using get_live [OF assms(1,2), of w now] by blast
  have "map_of (c_entries c1) (bodyKey key) = Some eb" using c1(3) assms(7) by simp
  then obtain c2 where "get w now (bodyKey key) c1 = (Some (e_path eb), c2)" "c_files c2 = c_files c1"
    using get_live [OF _ assms(8), of c1 "bodyKey key" w now] by blast
  with c1 assms(3-6) show ?thesis
    by (simp add: loadMetadata_def read_file_def os_open_def)
qed

lemma load_missing:
  assumes "cache_inv u c" "fst (get w now (metadataKey key) c) = None"
  shows "\<exists>c'. loadMetadata w js now key c = (None, c') \<and> cache_inv u c'
    \<and> map_of (c_entries c') (metadataKey key) = None
    \<and> c_dir c' = c_dir c \<and> c_ttl c' = c_ttl c \<and> c_maxSize c' = c_maxSize c"
proof -
  obtain c' where c': "get w now (metadataKey key) c = (None, c')"
    using assms(2) by (cases "get w now (metadataKey key) c") auto
  have "cache_inv u c'" "c_maxSize c' = c_maxSize c"
    using c' cache_inv_get [OF assms(1), of w now "metadataKey key"] get_maxSize [of w now "metadataKey key" c]
    by simp_all
  with c' get_miss [OF assms] show ?thesis by (simp add: loadMetadata_def)
qed

lemma put_unlimited:
  assumes "c_maxSize c \<le> 0" "pi_fault io = NoFault"
  shows "\<exists>c' e. put w now key data ttl io c = (Inr (entry_path w (c_dir c) key), c')
    \<and> map_of (c_entries c') key = Some e \<and> e_path e = entry_path w (c_dir c) key
    \<and> expiresAt e = effective_expiry (c_ttl c) now ttl
    \<and> (\<forall>k. k \<noteq> key \<longrightarrow> map_of (c_entries c') k = map_of (c_entries c) k)
    \<and> map_of (c_files c') (entry_path w (c_dir c) key) = Some data
    \<and> (\<forall>p. p \<noteq> entry_path w (c_dir c) key \<longrightarrow> map_of (c_files c') p = map_of (c_files c) p)"
  using assms by (auto simp: put_def put_store_def Let_def update_conv')

lemma register_unlimited:
  assumes "c_maxSize c \<le> 0"
  shows "\<exists>e. map_of (c_entries (registerAfterStream w now key p n c)) key = Some e \<and> e_path e = p
    \<and> expiresAt e = (if 0 < c_ttl c then Some (now + c_ttl c) else None)
    \<and> c_files (registerAfterStream w now key p n c) = c_files c
    \<and> c_maxSize (registerAfterStream w now key p n c) = c_maxSize c
    \<and> c_dir (registerAfterStream w now key p n c) = c_dir c"
  using assms by (simp add: registerAfterStream_def Let_def update_conv')

text \<open>The two records of an object never share a file.\<close>

lemma stream_path_ne: "stream_path w c key \<noteq> entry_path w (c_dir c) k"
proof
  assume "stream_path w c key = entry_path w (c_dir c) k"
  then have "''streams/'' @ take 2 (hashKey w (bodyKey key)) @ ''/'' @ hashKey w (bodyKey key)
      = take 2 (hashKey w k) @ ''/'' @ hashKey w k"
    by (simp add: stream_path_def entry_path_def Let_def)
  then have "take 3 (''streams/'' @ take 2 (hashKey w (bodyKey key)) @ ''/'' @ hashKey w (bodyKey key))
      = take 3 (take 2 (hashKey w k) @ ''/'' @ hashKey w k)" by simp
  then have "''str'' = take 3 (take 2 (hashKey w k) @ ''/'' @ hashKey w k)" by simp
  then have "CHR ''/'' \<in> set ''str''"
    by (cases "hashKey w k"; cases "tl (hashKey w k)") auto
  then show False by simp
qed

text \<open>A disk that does not fail, and a metadata record that survives its encoding.\<close>

definition smooth :: "s3_env \<Rightarrow> bool" where
  "smooth ev \<longleftrightarrow>
     (\<forall>p. open_ok (ev_world ev) p) \<and> pi_fault (ev_put ev) = NoFault
     \<and> st_mkdir_ok (ev_stream ev) \<and> st_create_ok (ev_stream ev) \<and> st_close_ok (ev_stream ev)
     \<and> st_rename_ok (ev_stream ev) \<and> st_room (ev_stream ev) = None
     \<and> (\<forall>b. concat (st_chunks (ev_stream ev) b) = b)"

definition codec_ok :: "json \<Rightarrow> entry_metadata \<Rightarrow> bool" where
  "codec_ok js m \<longleftrightarrow>
     (case marshal js m of None \<Rightarrow> False | Some d \<Rightarrow> unmarshal js d = Some m)"

lemma copy_response_takes [simp]: "w_takes (set_cache_status v out) = w_takes out"
  by (simp add: set_cache_status_def)

lemma set_cache_status_simps [simp]:
  "w_status (set_cache_status v out) = w_status out" "w_body (set_cache_status v out) = w_body out"
  by (simp_all add: set_cache_status_def)

text \<open>An object stored by a completed stream is there, with its metadata.\<close>

definition stored :: "s3_env \<Rightarrow> string \<Rightarrow> entry_metadata \<Rightarrow> bytes \<Rightarrow> cache \<Rightarrow> bool" where
  "stored ev key meta body c \<longleftrightarrow>
     (\<exists>em eb data. map_of (c_entries c) (metadataKey key) = Some em \<and> expiresAt em = None
        \<and> map_of (c_files c) (e_path em) = Some data \<and> unmarshal (ev_json ev) data = Some meta
        \<and> map_of (c_entries c) (bodyKey key) = Some eb \<and> expiresAt eb = None
        \<and> map_of (c_files c) (e_path eb) = Some body \<and> e_path eb \<noteq> [])"

lemma remove_config [simp]:
  "c_ttl (remove w key c) = c_ttl c" "c_dir (remove w key c) = c_dir c"
  by (simp_all add: remove_def split: option.split)

lemma store_stream_stored:
  assumes "smooth ev" "c_maxSize (disk s) \<le> 0" "c_ttl (disk s) \<le> 0"
    "codec_ok (ev_json ev) (metadataFromResponse cfg (ev_now ev) resp r True n)"
  shows "stored ev key (metadataFromResponse cfg (ev_now ev) resp r True n) content
           (disk (store_stream ev cfg resp r key content n s))
    \<and> sent (store_stream ev cfg resp r key content n s) = sent s"
proof -
  let ?w = "ev_world ev" and ?m = "metadataFromResponse cfg (ev_now ev) resp r True n"
  let ?p = "stream_path ?w (disk s) key"
  let ?c1 = "remove ?w (bodyKey key) (disk s)"
  let ?c2 = "?c1\<lparr>c_files := AList.update ?p content (AList.delete (st_tmp (ev_stream ev)) (c_files ?c1))\<rparr>"
  let ?c3 = "registerAfterStream ?w (ev_now ev) (bodyKey key) ?p n ?c2"
  let ?q = "entry_path ?w (c_dir ?c3) (metadataKey key)"
  have mx: "c_maxSize ?c2 \<le> 0" using assms(2) by simp
  obtain eb where eb: "map_of (c_entries ?c3) (bodyKey key) = Some eb" "e_path eb = ?p"
    "expiresAt eb = None" "c_files ?c3 = c_files ?c2" "c_maxSize ?c3 = c_maxSize ?c2" "c_dir ?c3 = c_dir ?c2"
    using register_unlimited [OF mx, of ?w "ev_now ev" "bodyKey key" ?p n] assms(3) by auto
  obtain data where data: "marshal (ev_json ev) ?m = Some data" "unmarshal (ev_json ev) data = Some ?m"
    using assms(4) by (auto simp: codec_ok_def split: option.splits)
  have mx3: "c_maxSize ?c3 \<le> 0" "pi_fault (ev_put ev) = NoFault"
    using mx eb(5) assms(1) by (simp_all add: smooth_def)
  obtain c4 em where c4: "put ?w (ev_now ev) (metadataKey key) data (-1) (ev_put ev) ?c3 = (Inr ?q, c4)"
    "map_of (c_entries c4) (metadataKey key) = Some em" "e_path em = ?q"
    "expiresAt em = effective_expiry (c_ttl ?c3) (ev_now ev) (-1)"
    "\<forall>k. k \<noteq> metadataKey key \<longrightarrow> map_of (c_entries c4) k = map_of (c_entries ?c3) k"
    "map_of (c_files c4) ?q = Some data" "\<forall>p. p \<noteq> ?q \<longrightarrow> map_of (c_files c4) p = map_of (c_files ?c3) p"
    using put_unlimited [OF mx3, of ?w "ev_now ev" "metadataKey key" data "-1"] by blast
  have ne: "?p \<noteq> ?q" using stream_path_ne [of ?w "disk s" key] eb(6) by simp
  have res: "store_stream ev cfg resp r key content n s = s\<lparr>disk := c4, stores := stores s + 1\<rparr>"
    using assms(1) data(1) c4(1) by (simp add: store_stream_def Let_def storeMetadata_def smooth_def)
  have "map_of (c_files c4) ?p = Some content"
    using c4(7) ne eb(4) by (simp add: update_conv')
  moreover have "?p \<noteq> []" by (simp add: stream_path_def Let_def)
  moreover have "expiresAt em = None" using c4(4) by (simp add: effective_expiry_def)
  moreover have "map_of (c_entries c4) (bodyKey key) = Some eb" using c4(5) eb(1) by simp
  ultimately show ?thesis
    using c4(2,3,6) data(2) eb(2,3) unfolding res stored_def by auto
qed

lemma stored_load:
  assumes "stored ev key meta body c" "hasBody meta" "\<forall>p. open_ok w p" "ev_json ev = js"
  shows "\<exists>bodyPath c'. loadMetadata w js now key c = (Some (meta, bodyPath), c') \<and> c_files c' = c_files c
    \<and> map_of (c_files c') bodyPath = Some body \<and> bodyPath \<noteq> []"
proof -
  obtain em eb data where e: "map_of (c_entries c) (metadataKey key) = Some em" "expiresAt em = None"
    "map_of (c_files c) (e_path em) = Some data" "unmarshal js data = Some meta"
    "map_of (c_entries c) (bodyKey key) = Some eb" "expiresAt eb = None"
    "map_of (c_files c) (e_path eb) = Some body" "e_path eb \<noteq> []"
    using assms(1,4) unfolding stored_def by blast
  have "open_ok w (e_path em)" using assms(3) by simp
  from load_stored [OF e(1,2) this e(3,4) assms(2) e(5,6), of now] e(7,8) show ?thesis by auto
qed

text \<open>A plain read: no condition, no range, a client that takes everything.\<close>

definition plain_get :: "request \<Rightarrow> writer \<Rightarrow> bool" where
  "plain_get r out \<longleftrightarrow> rq_method r = ''GET'' \<and> h_get (rq_header r) ''If-None-Match'' = []
     \<and> h_get (rq_header r) ''Range'' = [] \<and> w_status out = None \<and> w_takes out = None \<and> w_body out = []"

lemma serveEntry_plain:
  assumes "plain_get r out" "hasBody meta" "bodyPath \<noteq> []" "open_ok w bodyPath"
    "map_of (c_files c) bodyPath = Some body"
  shows "fst (serveEntry w c r meta bodyPath st out)
    \<and> w_body (snd (serveEntry w c r meta bodyPath st out)) = body
    \<and> w_status (snd (serveEntry w c r meta bodyPath st out)) = Some (statusCode meta)"
  using assms
  by (simp add: plain_get_def serveEntry_def Let_def clientNotModified_def os_open_def write_bytes_all)

lemma fetch_plain_miss:
  assumes "smooth ev" "plain_get r out" "c_maxSize (disk s) \<le> 0" "c_ttl (disk s) \<le> 0"
    "apply_signer sg (newUpstreamRequest r target) = Some outgoing" "ev_do ev outgoing = Some resp"
    "shouldStore cfg r resp" "\<not> rs_bodyErr resp"
    "maxEntrySize cfg \<le> 0 \<or> rs_contentLength resp \<le> maxEntrySize cfg \<and> int (length (rs_body resp)) \<le> maxEntrySize cfg"
    "codec_ok (ev_json ev) (metadataFromResponse cfg (ev_now ev) resp r True (int (length (rs_body resp))))"
  shows "\<exists>out' s'. fetchAndMaybeStore ev cfg r target sg key None out s = (out', s')
    \<and> w_body out' = rs_body resp \<and> w_status out' = Some 200 \<and> sent s' = sent s @ [outgoing]
    \<and> stored ev key (metadataFromResponse cfg (ev_now ev) resp r True (int (length (rs_body resp))))
        (rs_body resp) (disk s')"
proof -
  have st: "rs_status resp = 200" using assms(7) by (auto simp: shouldStore_def split: if_splits)
  let ?s = "s\<lparr>sent := sent s @ [outgoing]\<rparr>"
  let ?io = "ev_stream ev" and ?b = "rs_body resp"
  have fetch: "fetchAndMaybeStore ev cfg r target sg key None out s = streamAndStore ev cfg resp r key out ?s"
    using assms(2,5-7) st
    by (simp add: fetchAndMaybeStore_def conditional_request_def client_do_def fresh_response_def
        Let_def plain_get_def)
  define out1 where "out1 = write_header 200 (set_cache_status (cacheHeader cfg ''MISS'')
      (out\<lparr>w_header := copyResponseHeader (w_header out) (rs_header resp)\<rparr>))"
  define lw where "lw = \<lparr>lw_file = [], lw_limit = maxEntrySize cfg, lw_written = 0, lw_exceeded = False,
      lw_failed = False, lw_room = st_room ?io\<rparr>"
  define ps where "ps = st_chunks ?io ?b"
  have ps: "concat ps = ?b" using assms(1) by (simp add: smooth_def ps_def)
  have o1: "w_takes out1 = None" "w_status out1 = Some 200" "w_body out1 = []"
    using assms(2) by (simp_all add: out1_def plain_get_def)
  have clean: "lw_clean lw" "\<not> lw_failed lw" using assms(1) by (simp_all add: lw_clean_def lw_def smooth_def)
  note lwf = fold_lw_write [OF _ clean, of ps]
  have fin: "\<not> lw_exceeded (fold lw_write ps lw)" "\<not> lw_failed (fold lw_write ps lw)"
    "lw_file (fold lw_write ps lw) = ?b"
    using lwf assms(9) ps by (auto simp: lw_def)
  obtain n out2 where tee: "copy_tee ps out1 lw 0 = (n, True, out2, fold lw_write ps lw)"
    "n = int (length ?b)" "out2 = out1\<lparr>w_body := ?b\<rparr>"
    using copy_tee_client [OF o1(1,2), of ps lw 0] o1(3) ps
    by (cases "copy_tee ps out1 lw 0") auto
  let ?c = "(disk ?s)\<lparr>c_files := AList.update (st_tmp ?io) ?b (c_files (disk ?s))\<rparr>"
  let ?t = "store_stream ev cfg resp r key ?b (int (length ?b)) (?s\<lparr>disk := ?c\<rparr>)"
  have run: "streamAndStore ev cfg resp r key out ?s = (out2, ?t)"
    using assms(1,8,9) tee fin st
    unfolding streamAndStore_def Let_def out1_def [symmetric] lw_def [symmetric] ps_def [symmetric]
    by (auto simp: smooth_def out1_def [symmetric] lw_def [symmetric] ps_def [symmetric])
  have "stored ev key (metadataFromResponse cfg (ev_now ev) resp r True (int (length ?b))) ?b (disk ?t)
      \<and> sent ?t = sent (?s\<lparr>disk := ?c\<rparr>)"
    using assms(3,4,10) by (intro store_stream_stored [OF assms(1)]) simp_all
  then show ?thesis using fetch run tee(3) o1(2) by simp
qed

section \<open>Properties\<close>

definition demo_request :: request where
  "demo_request = \<lparr>rq_method = ''GET'', rq_url = demo_url [], rq_host = ''s3.test'', rq_requestURI = [],
     rq_header = [], rq_body = [], rq_contentLength = 0, rq_tls = False\<rparr>"

definition demo_response :: response where
  "demo_response = \<lparr>rs_status = 200, rs_header = [], rs_body = ''object'', rs_bodyErr = False,
     rs_contentLength = 6\<rparr>"

definition demo_config :: s3_config where
  "demo_config = s3_default_config 0 0 ''d'' []"

definition demo_meta :: entry_metadata where
  "demo_meta = metadataFromResponse demo_config 100 demo_response demo_request True 6"

definition demo_env :: s3_env where
  "demo_env = \<lparr>ev_world = demo_world,
     ev_json = \<lparr>marshal = (\<lambda>m. Some ''m''), unmarshal = (\<lambda>d. Some demo_meta)\<rparr>, ev_now = 100,
     ev_upstream = None, ev_sigv4 = (\<lambda>c h r t q. Some q), ev_do = (\<lambda>q. Some demo_response),
     ev_put = demo_io,
     ev_stream = \<lparr>st_mkdir_ok = True, st_create_ok = True, st_tmp = ''d/streams/aa/.tmp-1'',
       st_chunks = (\<lambda>b. [b]), st_room = None, st_close_ok = True, st_rename_ok = True\<rparr>\<rparr>"

definition demo_state :: s3_state where
  "demo_state = \<lparr>disk = demo_cache\<lparr>c_maxSize := 0\<rparr>, hits = 0, misses = 0, stores = 0,
     revalidations = 0, bypasses = 0, sent = []\<rparr>"

lemma demo_env_simps [simp]:
  "ev_world demo_env = demo_world" "ev_now demo_env = 100" "ev_upstream demo_env = None"
  "ev_do demo_env q = Some demo_response"
  "rs_body demo_response = ''object''" "rs_bodyErr demo_response = False" "rs_status demo_response = 200"
  "rs_contentLength demo_response = 6" "maxEntrySize demo_config = 2 ^ 30"
  "c_maxSize (disk demo_state) = 0" "c_ttl (disk demo_state) = 0" "se_signer (demo_security n) = None"
  by (simp_all add: demo_env_def demo_response_def demo_config_def s3_default_config_def
      defaultMaxEntrySize_def demo_state_def demo_cache_def demo_security_def)

lemma cacheable_demo: "cacheable (demo_security n)"
  by (simp add: demo_security_def)

lemma key_parts_demo: "key_parts (demo_url q) sec = key_parts (demo_url []) sec"
  by (simp add: key_parts_def demo_url_def escaped_path_def)

lemma demo_state_inv: "cache_inv 0 (disk demo_state)"
  using demo_cache_inv by (simp add: demo_state_def cache_inv_def)

lemma demo_smooth: "smooth demo_env"
  by (simp add: smooth_def demo_env_def demo_io_def)

lemma demo_ttl: "ttlForResponse demo_config demo_response demo_request = 300 * second"
  by (simp add: ttlForResponse_def demo_response_def demo_request_def demo_config_def demo_url_def
      s3_default_config_def h_get_def h_values_def cacheControlMaxAge_def q_get_def url_query_def
      parse_query_def defaultFreshTTL_def)

theorem mutation_invalidates_witness:
  "map_of (c_entries (disk (snd (forwardMutation demo_env demo_request (demo_url []) (demo_security ''t'')
     (new_writer None) demo_state)))) (metadataKey (cacheKey (demo_url ''versionId=1'') (demo_security ''t''))) = None"
proof -
  let ?s = "demo_security ''t''"
  have signed: "apply_signer (se_signer ?s) (newUpstreamRequest demo_request (demo_url []))
      = Some (newUpstreamRequest demo_request (demo_url []))"
    by (simp add: apply_signer_def)
  have nb: "no_bar (demo_url []) ?s" "no_bar (demo_url ''versionId=1'') ?s"
    by (rule demo_no_bar, simp)+
  have reply: "ev_do demo_env (newUpstreamRequest demo_request (demo_url [])) = Some demo_response"
    "200 \<le> rs_status demo_response" "rs_status demo_response < 300" by simp_all
  show ?thesis
    using mutation_invalidates [OF demo_state_inv nb(1) cacheable_demo signed reply nb(2),
        of "new_writer None"]
    unfolding Let_def key_parts_demo [of "''versionId=1''"] if_P [OF refl] by (rule conjunct1)
qed



end
