(* ===== verification/S3_Answers.thy ===== *)
theory S3_Answers
  imports S3_Properties
begin

text \<open>
  What a client of the S3 accelerator gets in the remaining cases: byte ranges of a cached
  object, the bytes of an object that is or is not stored, lifetimes and their cap, and the
  requests that must not reach the upstream or the cache.
\<close>

section \<open>Streaming to a client\<close>

lemma copyUpstreamResponse_client:
  "w_takes out = None \<Longrightarrow> w_status out = None \<Longrightarrow>
    w_body (copyUpstreamResponse resp st out) = w_body out @ rs_body resp
    \<and> w_status (copyUpstreamResponse resp st out) = Some (rs_status resp)"
  by (simp add: copyUpstreamResponse_def Let_def write_bytes_all)

lemma streamAndStore_client:
  assumes "w_takes out = None" "w_status out = None" "w_body out = []"
    "concat (st_chunks (ev_stream ev) (rs_body resp)) = rs_body resp"
  shows "w_body (fst (streamAndStore ev cfg resp r key out s)) = rs_body resp
    \<and> w_status (fst (streamAndStore ev cfg resp r key out s)) = Some (rs_status resp)"
proof (cases "0 < maxEntrySize cfg \<and> maxEntrySize cfg < rs_contentLength resp
    \<or> \<not> st_mkdir_ok (ev_stream ev) \<or> \<not> st_create_ok (ev_stream ev)")
  case True
  then show ?thesis
    using copyUpstreamResponse_client [OF assms(1,2)] assms(3) by (simp add: streamAndStore_def)
next
  case False
  define out1 where "out1 = write_header (rs_status resp) (set_cache_status (cacheHeader cfg ''MISS'')
      (out\<lparr>w_header := copyResponseHeader (w_header out) (rs_header resp)\<rparr>))"
  define lw where "lw = \<lparr>lw_file = [], lw_limit = maxEntrySize cfg, lw_written = 0, lw_exceeded = False,
      lw_failed = False, lw_room = st_room (ev_stream ev)\<rparr>"
  have o1: "w_takes out1 = None" "w_status out1 = Some (rs_status resp)" "w_body out1 = []"
    using assms(1-3) by (simp_all add: out1_def)
  define ps where "ps = st_chunks (ev_stream ev) (rs_body resp)"
  obtain n b out2 lw2 where tee: "copy_tee ps out1 lw 0 = (n, b, out2, lw2)"
    by (metis prod_cases4)
  have "out2 = out1\<lparr>w_body := rs_body resp\<rparr>"
    using copy_tee_client [OF o1(1,2), of ps lw 0] tee o1(3) assms(4) by (simp add: ps_def)
  with False tee show ?thesis
    unfolding streamAndStore_def Let_def
    by (auto simp: out1_def [symmetric] lw_def [symmetric] ps_def [symmetric] o1(2))
qed

lemma streamAndStore_too_large:
  assumes "w_takes out = None" "w_status out = None" "st_room (ev_stream ev) = None"
    "concat (st_chunks (ev_stream ev) (rs_body resp)) = rs_body resp"
    "0 < maxEntrySize cfg" "maxEntrySize cfg < int (length (rs_body resp))"
  shows "c_entries (disk (snd (streamAndStore ev cfg resp r key out s))) = c_entries (disk s)
    \<and> stores (snd (streamAndStore ev cfg resp r key out s)) = stores s"
proof (cases "maxEntrySize cfg < rs_contentLength resp
    \<or> \<not> st_mkdir_ok (ev_stream ev) \<or> \<not> st_create_ok (ev_stream ev)")
  case True
  with assms(5) show ?thesis by (simp add: streamAndStore_def)
next
  case False
  define out1 where "out1 = write_header (rs_status resp) (set_cache_status (cacheHeader cfg ''MISS'')
      (out\<lparr>w_header := copyResponseHeader (w_header out) (rs_header resp)\<rparr>))"
  define lw where "lw = \<lparr>lw_file = [], lw_limit = maxEntrySize cfg, lw_written = 0, lw_exceeded = False,
      lw_failed = False, lw_room = st_room (ev_stream ev)\<rparr>"
  define ps where "ps = st_chunks (ev_stream ev) (rs_body resp)"
  have o1: "w_takes out1 = None" "w_status out1 = Some (rs_status resp)"
    using assms(1,2) by (simp_all add: out1_def)
  have clean: "lw_clean lw" "\<not> lw_failed lw" using assms(3) by (simp_all add: lw_clean_def lw_def)
  have "ps \<noteq> []" using assms(4-6) by (auto simp: ps_def)
  then have "lw_exceeded (fold lw_write ps lw)"
    using fold_lw_write [OF _ clean, of ps] assms(4-6) by (simp add: lw_def ps_def)
  moreover obtain n b out2 lw2 where tee: "copy_tee ps out1 lw 0 = (n, b, out2, lw2)"
    by (metis prod_cases4)
  moreover have "lw2 = fold lw_write ps lw"
    using copy_tee_client [OF o1, of ps lw 0] tee by simp
  ultimately show ?thesis using False assms(5)
    unfolding streamAndStore_def Let_def
    by (simp add: out1_def [symmetric] lw_def [symmetric] ps_def [symmetric])
qed

lemma removeEntry_subset: "set (c_entries (removeEntry w key c)) \<subseteq> set (c_entries c)"
proof -
  have "set (c_entries (remove w k c)) \<subseteq> set (c_entries c)" for k c
    by (auto simp: remove_def set_delete split: option.split)
  then show ?thesis unfolding removeEntry_def by blast
qed

lemma fresh_response_not_stored:
  "\<not> shouldStore cfg r resp \<Longrightarrow>
    set (c_entries (disk (snd (fresh_response ev cfg r resp key out s)))) \<subseteq> set (c_entries (disk s))
    \<and> stores (snd (fresh_response ev cfg r resp key out s)) = stores s"
  using removeEntry_subset by (auto simp: fresh_response_def Let_def)

section \<open>Properties\<close>

text \<open>C27: Byte ranges. For a cached object whose size is recorded correctly, a read with a range
  header of one of the three forms is answered with status 206 and exactly the bytes the
  form means (both ends included, an end past the object cut to it, a suffix length counted
  from the end), or with status 416 and no bytes when the range is empty or starts past the
  object.\<close>

theorem range_answers_slice:
  assumes "rq_method r = ''GET''" "h_get (rq_header r) ''Range'' = range_header a b"
    "h_get (rq_header r) ''If-None-Match'' = []" "hasBody meta" "bodyPath \<noteq> []" "open_ok w bodyPath"
    "map_of (c_files c) bodyPath = Some body" "bodySize meta = int (length body)" "body \<noteq> []"
    "w_status out = None" "w_takes out = None" "w_body out = []"
    "\<And>x. a = Some x \<Longrightarrow> int x < 2 ^ 63" "\<And>x. b = Some x \<Longrightarrow> int x < 2 ^ 63"
  shows "fst (serveEntry w c r meta bodyPath st out)
    \<and> (case range_meaning a b (int (length body)) of
         None \<Rightarrow> w_status (snd (serveEntry w c r meta bodyPath st out)) = Some 416
           \<and> w_body (snd (serveEntry w c r meta bodyPath st out)) = []
       | Some (i, j) \<Rightarrow> w_status (snd (serveEntry w c r meta bodyPath st out)) = Some 206
           \<and> w_body (snd (serveEntry w c r meta bodyPath st out)) = take (nat (j - i + 1)) (drop (nat i) body)
           \<and> 0 \<le> i \<and> i \<le> j \<and> j < int (length body))"
proof -
  have pr: "parseRange (range_header a b) (bodySize meta) = range_meaning a b (int (length body))"
    using assms(8,9) parseRange_meaning [OF _ assms(13,14), of "int (length body)"] by simp
  have nb: "range_header a b \<noteq> []" by (simp add: range_header_def)
  note basic = serveEntry_def Let_def clientNotModified_def os_open_def assms(1-8,10-12) nb
  show ?thesis
  proof (cases "range_meaning a b (int (length body))")
    case None
    with pr show ?thesis by (simp add: basic)
  next
    case (Some p)
    obtain i j where p: "p = (i, j)" by fastforce
    have ij: "0 \<le> i" "i \<le> j" "j < int (length body)"
      using parseRange_bounds pr Some p assms(8) by metis+
    then have "length (take (nat (j - i + 1)) (drop (nat i) body)) = nat (j - i + 1)" by auto
    with Some p pr ij show ?thesis by (simp add: basic write_bytes_all)
  qed
qed

theorem range_answers_slice_witness:
  "w_body (snd (serveEntry demo_world demo_cache
      (demo_request\<lparr>rq_header := [(''Range'', [range_header (Some 1) (Some 2)])]\<rparr>)
      (demo_meta\<lparr>bodySize := 4\<rparr>) ''d/aa/aak1'' [] (new_writer None))) = ''bc''"
proof -
  have get: "h_get [(''Range'', [v])] ''Range'' = v" "h_get [(''Range'', [v])] ''If-None-Match'' = []" for v
    by (simp_all add: h_get_def h_values_def canonical_key_def is_token_char_def is_alnum_def
        is_upper_def is_lower_def is_digit_def upper_char_def lower_char_def)
  have hb: "hasBody demo_meta" by (simp add: demo_meta_def metadataFromResponse_def)
  show ?thesis
    using range_answers_slice [of "demo_request\<lparr>rq_header := [(''Range'', [range_header (Some 1) (Some 2)])]\<rparr>"
        "Some 1" "Some 2" "demo_meta\<lparr>bodySize := 4\<rparr>" "''d/aa/aak1''" demo_world demo_cache "''abcd''"
        "new_writer None" "[]"]
    by (simp add: demo_request_def get hb demo_cache_def new_writer_def)
qed

text \<open>C28: The client's copy does not depend on the cache. While an object is stored as it streams, a
  client that stays connected gets all bytes of the upstream's body with the upstream's
  status, whatever happens on the disk; and an object over the entry limit leaves the index
  as it was, even when the upstream announced a smaller length or none.\<close>

theorem streaming_complete:
  assumes "w_takes out = None" "w_status out = None" "w_body out = []"
    "concat (st_chunks (ev_stream ev) (rs_body resp)) = rs_body resp"
  shows "w_body (fst (streamAndStore ev cfg resp r key out s)) = rs_body resp
    \<and> w_status (fst (streamAndStore ev cfg resp r key out s)) = Some (rs_status resp)
    \<and> (st_room (ev_stream ev) = None \<and> 0 < maxEntrySize cfg
         \<and> maxEntrySize cfg < int (length (rs_body resp)) \<longrightarrow>
       c_entries (disk (snd (streamAndStore ev cfg resp r key out s))) = c_entries (disk s))"
  using streamAndStore_client [OF assms, of cfg r key s]
    streamAndStore_too_large [OF assms(1,2) _ assms(4), of cfg r key s] by blast

theorem streaming_complete_witness:
  "w_body (fst (streamAndStore demo_env (demo_config\<lparr>maxEntrySize := 3\<rparr>)
      (demo_response\<lparr>rs_contentLength := -1\<rparr>) demo_request ''k'' (new_writer None) demo_state)) = ''object''
   \<and> c_entries (disk (snd (streamAndStore demo_env (demo_config\<lparr>maxEntrySize := 3\<rparr>)
      (demo_response\<lparr>rs_contentLength := -1\<rparr>) demo_request ''k'' (new_writer None) demo_state)))
     = c_entries (disk demo_state)"
  using streaming_complete [of "new_writer None" demo_env "demo_response\<lparr>rs_contentLength := -1\<rparr>"
      "demo_config\<lparr>maxEntrySize := 3\<rparr>" demo_request "''k''" demo_state]
  by (simp add: new_writer_def demo_env_def)

text \<open>Lifetimes from \<open>max-age\<close>. They never exceed the configured cap, even when the product with a
  second overflows; and when it does not overflow they are the smaller of the two.\<close>

theorem ttl_capped:
  assumes "cacheControlMaxAge (h_get (rs_header resp) ''Cache-Control'') = Some n" "0 < maxTTL cfg"
  shows "ttlForResponse cfg resp r \<le> maxTTL cfg
    \<and> (0 \<le> n \<and> n * second < 2 ^ 63 \<longrightarrow> ttlForResponse cfg resp r = min (n * second) (maxTTL cfg))"
proof -
  have "int64 (n * second) = n * second" if "0 \<le> n" "n * second < 2 ^ 63"
    using that by (intro int64_id) simp_all
  with assms show ?thesis by (auto simp: ttlForResponse_def Let_def)
qed

theorem ttl_capped_witness:
  "ttlForResponse (demo_config\<lparr>maxTTL := 60 * second\<rparr>)
     (demo_response\<lparr>rs_header := [(''Cache-Control'', [''max-age=90''])]\<rparr>) demo_request = 60 * second"
proof -
  have "cacheControlMaxAge (h_get [(''Cache-Control'', [''max-age=90''])] ''Cache-Control'') = Some 90"
    by (simp add: h_get_def h_values_def canonical_key_def is_token_char_def is_alnum_def is_upper_def
        is_lower_def is_digit_def upper_char_def lower_char_def cacheControlMaxAge_def to_lower_def
        trim_space_def trim_def trim_left_def trim_right_def is_space_def has_prefix_def trim_prefix_def
        parse_int_def digit_val_def)
  then show ?thesis
    using ttl_capped [of "demo_response\<lparr>rs_header := [(''Cache-Control'', [''max-age=90''])]\<rparr>" 90
        "demo_config\<lparr>maxTTL := 60 * second\<rparr>" demo_request] by simp
qed

text \<open>Responses that must not be kept are not kept. When the request asked for a range, or the
  response is not a 200, or sets a cookie, or forbids storing in any letter case, handling
  it adds no record to the cache and counts no store.\<close>

theorem unsafe_not_stored:
  assumes "h_get (rq_header r) ''Range'' \<noteq> [] \<or> rs_status resp \<noteq> 200
      \<or> h_get (rs_header resp) ''Set-Cookie'' \<noteq> []
      \<or> contains (to_lower (h_get (rs_header resp) ''Cache-Control'')) ''no-store''
      \<or> respectPrivate cfg \<and> contains (to_lower (h_get (rs_header resp) ''Cache-Control'')) ''private''"
  shows "set (c_entries (disk (snd (fresh_response ev cfg r resp key out s)))) \<subseteq> set (c_entries (disk s))
    \<and> stores (snd (fresh_response ev cfg r resp key out s)) = stores s"
  using assms by (intro fresh_response_not_stored) (auto simp: shouldStore_def Let_def)

theorem unsafe_not_stored_witness:
  "stores (snd (fresh_response demo_env demo_config demo_request (demo_response\<lparr>rs_status := 404\<rparr>) ''k''
      (new_writer None) demo_state)) = stores demo_state"
  using unsafe_not_stored [of demo_request "demo_response\<lparr>rs_status := 404\<rparr>" demo_config demo_env "''k''"
      "new_writer None" demo_state] by simp

text \<open>C23: Nothing happens before authorization. A request that changes the state in any way (the
  cache, a counter or the requests sent upstream) has passed the authorizer, its identity and
  signer were resolved without an error, and it has a target.\<close>

theorem s3_effects_authorized:
  assumes "snd (s3_serveHTTP ev cfg r out s) \<noteq> s"
  shows "(case authorizer cfg of None \<Rightarrow> True | Some f \<Rightarrow> f r)
    \<and> resolveSecurity (hashKey (ev_world ev)) (ev_sigv4 ev) cfg (ev_now ev) r \<noteq> None
    \<and> targetURL (ev_upstream ev) cfg r \<noteq> None"
  using assms by (auto simp: s3_serveHTTP_def split: option.splits if_splits)

theorem s3_effects_authorized_witness:
  "resolveSecurity (hashKey demo_world) (ev_sigv4 demo_env) demo_config 100
     (demo_request\<lparr>rq_method := ''OPTIONS''\<rparr>) \<noteq> None"
proof -
  let ?r = "demo_request\<lparr>rq_method := ''OPTIONS''\<rparr>"
  obtain sec where sec: "resolveSecurity (hashKey demo_world) (ev_sigv4 demo_env) demo_config 100 ?r = Some sec"
    "se_signer sec = None"
    by (simp add: resolveSecurity_def resolve_identity_def resolve_signing_def Let_def demo_config_def
        s3_default_config_def)
  have "targetURL None demo_config ?r = Some (demo_url [])"
    by (simp add: targetURL_def demo_request_def demo_url_def)
  moreover have "to_upper (rq_method ?r) = ''OPTIONS''"
    by (simp add: to_upper_def upper_char_def)
  moreover have "authorizer demo_config = None" by (simp add: demo_config_def s3_default_config_def)
  ultimately have "sent (snd (s3_serveHTTP demo_env demo_config ?r (new_writer None) demo_state)) \<noteq> sent demo_state"
    using sec by (simp add: s3_serveHTTP_def isMutation_def forward_def apply_signer_def client_do_def)
  then have "snd (s3_serveHTTP demo_env demo_config ?r (new_writer None) demo_state) \<noteq> demo_state"
    by metis
  from s3_effects_authorized [OF this] show ?thesis by simp
qed

end
