(* ===== verification/Fetch_Store.thy ===== *)
theory Fetch_Store
  imports Cache_Invalidation
begin

text \<open>
  The contract between the package proxies and the disk cache: what \<open>GetOrFetch\<close> of
  \<^verbatim>\<open>cache/cache.go\<close> promises the handlers of \<^verbatim>\<open>npm/npm.go\<close> and
  \<^verbatim>\<open>apt/apt.go\<close>, as an interface over the contents of the cache (bytes and expiry per
  key), and its interpretation on the model of an unlimited disk cache. The clients' facts
  are proved from the interface alone.
\<close>

section \<open>The interface\<close>

type_synonym contents = "string \<Rightarrow> (bytes \<times> int option) option"

definition live :: "int \<Rightarrow> (bytes \<times> int option) option \<Rightarrow> bytes option" where
  "live now x =
     (case x of None \<Rightarrow> None
      | Some (d, t) \<Rightarrow> (case t of None \<Rightarrow> Some d | Some t \<Rightarrow> if t < now then None else Some d))"

lemma live_simps [simp]:
  "live now None = None" "live now (Some (d, None)) = Some d"
  "live now (Some (d, Some t)) = (if t < now then None else Some d)"
  by (simp_all add: live_def)

locale fetch_store =
  fixes store_ok :: "'c \<Rightarrow> bool"
    and content :: "'c \<Rightarrow> contents"
    and calm :: "'e fetch_result \<Rightarrow> bool"
    and expiry :: "int \<Rightarrow> int \<Rightarrow> int option"
    and through :: "int \<Rightarrow> string \<Rightarrow> 'e fetch_result \<Rightarrow> 'c \<Rightarrow> ('e cache_error + bytes) \<times> bool \<times> 'c"
  assumes ok_through: "store_ok c \<Longrightarrow> calm f \<Longrightarrow> store_ok (snd (snd (through now k f c)))"
    and hit: "store_ok c \<Longrightarrow> live now (content c k) = Some d \<Longrightarrow>
      \<exists>c'. through now k f c = (Inr d, False, c') \<and> content c' = content c"
    and other: "store_ok c \<Longrightarrow> calm f \<Longrightarrow> k' \<noteq> k \<Longrightarrow>
      content (snd (snd (through now k f c))) k' = content c k'"
    and miss: "store_ok c \<Longrightarrow> live now (content c k) = None \<Longrightarrow> pi_fault io = NoFault \<Longrightarrow>
      calm (Fetched d ttl io) \<Longrightarrow>
      \<exists>c'. through now k (Fetched d ttl io) c = (Inr d, True, c')
        \<and> content c' k = Some (d, expiry now ttl)"
    and permanent: "ttl < 0 \<Longrightarrow> expiry now ttl = None"
    and failed: "store_ok c \<Longrightarrow> live now (content c k) = None \<Longrightarrow>
      \<exists>c'. through now k (FetchErr e) c = (Inl (FetchFailed e), True, c') \<and> content c' k = None"
begin

text \<open>A permanent record survives every fetch through the store.\<close>

lemma permanent_kept:
  assumes "store_ok c" "calm f" "content c k = Some (d, None)"
  shows "content (snd (snd (through now k' f c))) k = Some (d, None)"
proof (cases "k' = k")
  case True
  then show ?thesis using hit [of c now k d f] assms(1,3) by auto
next
  case False
  then show ?thesis using other [OF assms(1,2)] assms(3) by simp
qed

definition runs :: "(int \<times> string \<times> 'e fetch_result) list \<Rightarrow> 'c \<Rightarrow> 'c" where
  "runs fs c = fold (\<lambda>(now, k, f) c. snd (snd (through now k f c))) fs c"

lemma runs_permanent:
  assumes "store_ok c" "list_all (\<lambda>(now, k, f). calm f) fs" "content c k = Some (d, None)"
  shows "store_ok (runs fs c) \<and> content (runs fs c) k = Some (d, None)"
  using assms unfolding runs_def
proof (induction fs arbitrary: c)
  case (Cons x fs)
  obtain now k' f where "x = (now, k', f)" by (cases x)
  with Cons show ?case by (simp add: ok_through permanent_kept)
qed simp

text \<open>What is fetched to be kept is delivered again after any other fetches, without a fetch.\<close>

lemma fetched_once:
  assumes "store_ok c" "live now (content c k) = None" "pi_fault io = NoFault" "ttl < 0"
    "calm (Fetched d ttl io)" "list_all (\<lambda>(now, k, f). calm f) fs"
  shows "\<exists>c'. through now k (Fetched d ttl io) c = (Inr d, True, c')
    \<and> (\<exists>c''. through now' k g (runs fs c') = (Inr d, False, c''))"
proof -
  obtain c' where c': "through now k (Fetched d ttl io) c = (Inr d, True, c')"
    "content c' k = Some (d, expiry now ttl)"
    using miss [OF assms(1-3,5)] by blast
  have "store_ok c'" using ok_through [OF assms(1,5), of now k] c'(1) by simp
  moreover have "content c' k = Some (d, None)"
    using c'(2) assms(4) by (simp add: permanent)
  ultimately have "store_ok (runs fs c') \<and> content (runs fs c') k = Some (d, None)"
    using runs_permanent [OF _ assms(6)] by blast
  then have "\<exists>c''. through now' k g (runs fs c') = (Inr d, False, c'')"
    using hit [of "runs fs c'" now' k d g] by auto
  with c'(1) show ?thesis by blast
qed

end

section \<open>The disk cache provides it\<close>

text \<open>
  An unlimited cache without a default lifetime, as the package proxies create it when no
  maximum is set, on a disk where cached files open and file names do not collide.
\<close>

definition disk_ok :: "world \<Rightarrow> string \<Rightarrow> int \<Rightarrow> cache \<Rightarrow> bool" where
  "disk_ok w d t c \<longleftrightarrow>
     (\<forall>p. open_ok w p) \<and> inj (entry_path w d) \<and> c_dir c = d \<and> c_maxSize c \<le> 0 \<and> c_ttl c = t
     \<and> distinct (keys (c_entries c))
     \<and> (\<forall>k e. map_of (c_entries c) k = Some e \<longrightarrow> e_key e = k \<and> e_path e = entry_path w d k
          \<and> map_of (c_files c) (entry_path w d k) \<noteq> None)"

definition disk_content :: "cache \<Rightarrow> contents" where
  "disk_content c k =
     (case map_of (c_entries c) k of
        None \<Rightarrow> None
      | Some e \<Rightarrow> map_option (\<lambda>d. (d, expiresAt e)) (map_of (c_files c) (e_path e)))"

text \<open>The temporary file of a \<open>Put\<close> is not the file of an entry.\<close>

fun tmp_apart :: "world \<Rightarrow> string \<Rightarrow> 'e fetch_result \<Rightarrow> bool" where
  "tmp_apart w d (Fetched _ _ io) = (\<forall>k. pi_tmp io \<noteq> entry_path w d k)"
| "tmp_apart w d _ = True"

lemma disk_ok_entry:
  "disk_ok w d t c \<Longrightarrow> map_of (c_entries c) k = Some e \<Longrightarrow> e_key e = k \<and> e_path e = entry_path w d k
     \<and> map_of (c_files c) (entry_path w d k) \<noteq> None"
  by (simp add: disk_ok_def)

lemma disk_okD:
  assumes "disk_ok w d t c"
  shows "open_ok w p" "inj (entry_path w d)" "c_dir c = d" "c_maxSize c \<le> 0" "c_ttl c = t"
    "distinct (keys (c_entries c))"
  using assms by (simp_all add: disk_ok_def)

lemma disk_okI:
  assumes "disk_ok w d t c" "c_dir c' = c_dir c" "c_maxSize c' = c_maxSize c" "c_ttl c' = c_ttl c"
    "distinct (keys (c_entries c'))"
    "\<And>k e. map_of (c_entries c') k = Some e \<Longrightarrow> e_key e = k \<and> e_path e = entry_path w d k
       \<and> map_of (c_files c') (entry_path w d k) \<noteq> None"
  shows "disk_ok w d t c'"
  using assms by (simp add: disk_ok_def)

lemma path_eq: "disk_ok w d t c \<Longrightarrow> entry_path w d k = entry_path w d k' \<longleftrightarrow> k = k'"
  using disk_okD(2) by (metis injD)

lemma disk_content_at:
  assumes "disk_ok w d t c"
  shows "disk_content c k = (case map_of (c_entries c) k of
      None \<Rightarrow> None
    | Some e \<Rightarrow> map_option (\<lambda>data. (data, expiresAt e)) (map_of (c_files c) (entry_path w d k)))"
  using disk_ok_entry [OF assms, of k] by (auto simp: disk_content_def split: option.split)

text \<open>A lookup of a live record changes no content; one of a dead record forgets it.\<close>

lemma disk_get_live:
  assumes "disk_ok w d t c" "live now (disk_content c k) = Some data"
  shows "\<exists>c'. get w now k c = (Some (entry_path w d k), c') \<and> map_of (c_files c') (entry_path w d k) = Some data
    \<and> disk_ok w d t c' \<and> disk_content c' = disk_content c"
proof -
  obtain e where e: "map_of (c_entries c) k = Some e" "\<not> expired now e"
    "map_of (c_files c) (entry_path w d k) = Some data"
    using assms(2) unfolding disk_content_at [OF assms(1)]
    by (auto simp: expired_def live_def split: option.splits if_splits)
  note en = disk_ok_entry [OF assms(1)]
  obtain c' where c': "get w now k c = (Some (entry_path w d k), c')"
    "c_entries c' = AList.update k (e\<lparr>accessedAt := now\<rparr>) (c_entries c)" "c_files c' = c_files c"
    "c_dir c' = c_dir c" "c_maxSize c' = c_maxSize c" "c_ttl c' = c_ttl c"
    using e en [OF e(1)] by (auto simp: get_def Let_def split: option.split)
  have "disk_ok w d t c'"
  proof (rule disk_okI [OF assms(1) c'(4-6)])
    show "distinct (keys (c_entries c'))"
      using disk_okD(6) [OF assms(1)] by (simp add: c'(2) distinct_update)
    show "e_key e' = k' \<and> e_path e' = entry_path w d k' \<and> map_of (c_files c') (entry_path w d k') \<noteq> None"
      if "map_of (c_entries c') k' = Some e'" for k' e'
      using that en [OF e(1)] en [of k' e']
      by (auto simp: c'(2,3) update_conv' split: if_splits)
  qed
  moreover have "disk_content c' = disk_content c"
    by (rule ext) (simp add: disk_content_def c'(2,3) update_conv' e(1) split: option.split)
  ultimately show ?thesis using c'(1,3) e(3) by auto
qed

lemma disk_removeLocked:
  assumes "disk_ok w d t c" "map_of (c_entries c) k = Some e"
  shows "disk_ok w d t (removeLocked w e c) \<and> disk_content (removeLocked w e c) = (disk_content c)(k := None)"
proof -
  note en = disk_ok_entry [OF assms(1)]
  have ent: "c_entries (removeLocked w e c) = AList.delete k (c_entries c)"
    using en [OF assms(2)] by simp
  have other: "map_of (c_files (removeLocked w e c)) (entry_path w d k') = map_of (c_files c) (entry_path w d k')"
    if "k' \<noteq> k" for k'
    using that en [OF assms(2)] path_eq [OF assms(1)] by (simp add: os_remove_def delete_conv')
  have ok: "disk_ok w d t (removeLocked w e c)"
  proof (rule disk_okI [OF assms(1)])
    show "distinct (keys (c_entries (removeLocked w e c)))"
      unfolding ent using disk_okD(6) [OF assms(1)] by (rule distinct_delete)
    show "e_key e' = k' \<and> e_path e' = entry_path w d k'
        \<and> map_of (c_files (removeLocked w e c)) (entry_path w d k') \<noteq> None"
      if "map_of (c_entries (removeLocked w e c)) k' = Some e'" for k' e'
    proof -
      have "k' \<noteq> k" "map_of (c_entries c) k' = Some e'"
        using that unfolding ent by (auto simp: delete_conv' split: if_splits)
      with en [of k' e'] other [of k'] show ?thesis by auto
    qed
  qed simp_all
  have "disk_content (removeLocked w e c) k' = ((disk_content c)(k := None)) k'" for k'
    unfolding disk_content_at [OF ok] disk_content_at [OF assms(1)]
    using conjunct1 [OF en [OF assms(2)]] other [of k']
    by (cases "k' = k"; cases "map_of (c_entries c) k'") (simp_all add: delete_conv' disk_content_at [OF assms(1)])
  with ok show ?thesis by blast
qed

lemma disk_get_dead:
  assumes "disk_ok w d t c" "live now (disk_content c k) = None"
  shows "\<exists>c'. get w now k c = (None, c') \<and> disk_ok w d t c' \<and> disk_content c' = (disk_content c)(k := None)"
proof (cases "map_of (c_entries c) k")
  case None
  then have "get w now k c = (None, c)" "disk_content c k = None"
    by (simp_all add: get_def disk_content_def)
  with assms(1) show ?thesis by (auto simp: fun_upd_idem_iff)
next
  case (Some e)
  have "expired now e"
    using Some disk_ok_entry [OF assms(1) Some] assms(2) unfolding disk_content_at [OF assms(1)]
    by (auto simp: expired_def live_def split: option.splits if_splits)
  with Some have "get w now k c = (None, removeLocked w e c)" by (simp add: get_def)
  with disk_removeLocked [OF assms(1) Some] show ?thesis by blast
qed

text \<open>An invalidation by prefix forgets the content of the keys with the prefix.\<close>

lemma disk_fold_remove:
  assumes "disk_ok w d t c" "distinct (map fst es)" "list_all (\<lambda>(k, e). map_of (c_entries c) k = Some e) es"
  shows "disk_ok w d t (fold (removeLocked w) (map snd es) c)
    \<and> disk_content (fold (removeLocked w) (map snd es) c)
      = (\<lambda>k. if k \<in> fst ` set es then None else disk_content c k)"
  using assms
proof (induction es arbitrary: c)
  case (Cons p es)
  obtain k e where p: "p = (k, e)" by (cases p)
  have ek: "map_of (c_entries c) k = Some e" using Cons.prems(3) p by simp
  note one = disk_removeLocked [OF Cons.prems(1) ek]
  have "list_all (\<lambda>(k', e'). map_of (c_entries (removeLocked w e c)) k' = Some e') es"
    using Cons.prems(2,3) disk_ok_entry [OF Cons.prems(1) ek] p
    by (force simp: list_all_iff delete_conv')
  then show ?case using Cons.IH [of "removeLocked w e c"] one Cons.prems(2) p by (auto simp: fun_eq_iff)
qed simp

lemma disk_removeByPrefix:
  assumes "disk_ok w d t c"
  shows "disk_ok w d t (snd (removeByPrefix w pre c))
    \<and> disk_content (snd (removeByPrefix w pre c)) = (\<lambda>k. if has_prefix k pre then None else disk_content c k)"
proof -
  let ?es = "filter (\<lambda>(k, e). has_prefix k pre) (c_entries c)"
  let ?c = "fold (removeLocked w) (map snd ?es) c"
  have es: "distinct (map fst ?es)" "list_all (\<lambda>(k, e). map_of (c_entries c) k = Some e) ?es"
    using disk_okD(6) [OF assms] by (auto simp: list_all_iff distinct_map_filter)
  note f = disk_fold_remove [OF assms es]
  have files_same: "c_entries (snd (removeByPrefix w pre c)) = c_entries ?c"
    "c_files (snd (removeByPrefix w pre c)) = c_files ?c" "c_dir (snd (removeByPrefix w pre c)) = c_dir ?c"
    "c_maxSize (snd (removeByPrefix w pre c)) = c_maxSize ?c" "c_ttl (snd (removeByPrefix w pre c)) = c_ttl ?c"
    using remove_loop_fold [of w "\<lambda>k e. has_prefix k pre" "c_entries c" c 0]
    by (auto simp: removeByPrefix_def split: prod.splits option.splits)
  have "disk_content (snd (removeByPrefix w pre c)) k = disk_content ?c k" for k
    unfolding disk_content_def files_same ..
  moreover have "disk_content ?c k = (if has_prefix k pre then None else disk_content c k)" for k
    using f by (auto simp: disk_content_def image_iff split: option.split dest: map_of_SomeD)
  moreover have "disk_ok w d t (snd (removeByPrefix w pre c))"
    using f unfolding disk_ok_def files_same by blast
  ultimately show ?thesis by (simp add: fun_eq_iff)
qed

text \<open>A \<open>Put\<close> changes the content of its key, or nothing when a file operation fails.\<close>

lemma drop_tmp_file:
  "pi_tmp io \<noteq> p \<Longrightarrow> map_of (c_files (drop_tmp w io x c)) p = map_of (c_files c) p"
  by (simp add: drop_tmp_def os_remove_def delete_conv' update_conv')

lemma drop_tmp_disk:
  assumes "disk_ok w d t c" "\<forall>k. pi_tmp io \<noteq> entry_path w d k"
  shows "disk_ok w d t (drop_tmp w io x c) \<and> disk_content (drop_tmp w io x c) = disk_content c"
proof -
  have same: "c_entries (drop_tmp w io x c) = c_entries c" "c_dir (drop_tmp w io x c) = c_dir c"
    "c_maxSize (drop_tmp w io x c) = c_maxSize c" "c_ttl (drop_tmp w io x c) = c_ttl c"
    by (simp_all add: drop_tmp_def)
  have at_path: "map_of (c_files (drop_tmp w io x c)) (entry_path w d k) = map_of (c_files c) (entry_path w d k)" for k
    using assms(2) by (simp add: drop_tmp_file)
  have ok: "disk_ok w d t (drop_tmp w io x c)"
    using assms(1) by (simp add: disk_ok_def same at_path)
  show ?thesis
    by (rule conjI [OF ok], rule ext)
      (simp add: disk_content_at [OF ok] disk_content_at [OF assms(1)] same at_path split: option.split)
qed

lemma put_disk:
  assumes "disk_ok w d t c" "\<forall>k. pi_tmp io \<noteq> entry_path w d k"
  shows "(pi_fault io \<noteq> NoFault \<longrightarrow> (\<exists>e c'. put w now k data ttl io c = (Inl e, c') \<and> disk_ok w d t c'
        \<and> disk_content c' = disk_content c))
    \<and> (pi_fault io = NoFault \<longrightarrow> (\<exists>c'. put w now k data ttl io c = (Inr (entry_path w d k), c')
        \<and> disk_ok w d t c' \<and> map_of (c_files c') (entry_path w d k) = Some data
        \<and> disk_content c' = (disk_content c)(k := Some (data, effective_expiry t now ttl))))"
proof (cases "pi_fault io = NoFault")
  case False
  then show ?thesis
    using drop_tmp_disk [OF assms] assms(1)
    by (cases "pi_fault io") (simp_all add: put_def put_store_def)
next
  case True
  note D = disk_okD [OF assms(1)]
  define e where "e = \<lparr>e_key = k, e_path = entry_path w d k, e_size = int (length data), createdAt = now,
      accessedAt = now, expiresAt = effective_expiry t now ttl\<rparr>"
  obtain c' where ps: "put_store w now k data ttl io c = (Inr (entry_path w d k), c')"
    "c_entries c' = AList.update k e (c_entries c)"
    "c_files c' = AList.update (entry_path w d k) data (c_files c)"
    "c_dir c' = c_dir c" "c_maxSize c' = c_maxSize c" "c_ttl c' = c_ttl c"
    using True D(3,5) by (auto simp: put_store_def store_entry_def Let_def e_def split: option.split)
  have run: "put w now k data ttl io c = (Inr (entry_path w d k), c')"
    using D(4) by (simp add: put_def ps)
  have ok: "disk_ok w d t c'"
  proof (rule disk_okI [OF assms(1) ps(4-6)])
    show "distinct (keys (c_entries c'))" using D(6) by (simp add: ps(2) distinct_update)
    show "e_key e' = k' \<and> e_path e' = entry_path w d k' \<and> map_of (c_files c') (entry_path w d k') \<noteq> None"
      if "map_of (c_entries c') k' = Some e'" for k' e'
      using that disk_ok_entry [OF assms(1), of k' e']
      by (auto simp: ps(2,3) update_conv' e_def split: if_splits)
  qed
  have "disk_content c' = (disk_content c)(k := Some (data, effective_expiry t now ttl))"
    by (rule ext) (simp add: disk_content_at [OF ok] disk_content_at [OF assms(1)] ps(2,3) update_conv'
        path_eq [OF assms(1)] e_def split: option.split)
  with run ok True show ?thesis by (simp add: ps(3) update_conv')
qed

text \<open>\<open>GetOrFetch\<close> when the key has no live record.\<close>

lemma getOrFetch_dead:
  assumes "disk_ok w d t c" "live now (disk_content c k) = None" "tmp_apart w d f"
  shows "\<exists>r c'. getOrFetch w now k f c = (r, True, c') \<and> disk_ok w d t c'
    \<and> (\<exists>v. disk_content c' = (disk_content c)(k := v)
        \<and> (\<forall>data ttl io. f = Fetched data ttl io \<and> pi_fault io = NoFault \<longrightarrow>
              r = Inr data \<and> v = Some (data, effective_expiry t now ttl))
        \<and> (\<forall>e. f = FetchErr e \<longrightarrow> r = Inl (FetchFailed e) \<and> v = None)
        \<and> (\<forall>data. r = Inr data \<or> (\<exists>x. v = Some (data, x)) \<longrightarrow> (\<exists>ttl io. f = Fetched data ttl io)))"
proof -
  obtain c1 where c1: "get w now k c = (None, c1)" "disk_ok w d t c1"
    "disk_content c1 = (disk_content c)(k := None)"
    using disk_get_dead [OF assms(1,2)] by blast
  have op: "open_ok w p" for p using disk_okD(1) [OF assms(1)] .
  show ?thesis
  proof (cases f)
    case (Fetched data ttl io)
    then have apart: "\<forall>k. pi_tmp io \<noteq> entry_path w d k" using assms(3) by simp
    show ?thesis
      using put_disk [OF c1(2) apart, of now k data ttl] c1(3) op
      by (cases "pi_fault io = NoFault")
        (auto simp: Fetched getOrFetch_def doFetch_def c1(1) os_open_def)
  qed (use c1 in \<open>auto simp: getOrFetch_def doFetch_def\<close>)
qed

lemma getOrFetch_live:
  assumes "disk_ok w d t c" "live now (disk_content c k) = Some data"
  shows "\<exists>c'. getOrFetch w now k f c = (Inr data, False, c') \<and> disk_ok w d t c'
    \<and> disk_content c' = disk_content c"
  using disk_get_live [OF assms] disk_okD(1) [OF assms(1)]
  by (auto simp: getOrFetch_def os_open_def)

interpretation disk_store: fetch_store "disk_ok w d t" disk_content "tmp_apart w d" "effective_expiry t" "getOrFetch w"
  for w d t
proof
  fix c :: cache and f :: "'e fetch_result" and now k
  assume ok: "disk_ok w d t c"
  show "disk_ok w d t (snd (snd (getOrFetch w now k f c)))" if "tmp_apart w d f"
    using getOrFetch_live [OF ok, of now k _ f] getOrFetch_dead [OF ok _ that, of now k]
    by (cases "live now (disk_content c k)") fastforce+
  show "\<exists>c'. getOrFetch w now k f c = (Inr data, False, c') \<and> disk_content c' = disk_content c"
    if "live now (disk_content c k) = Some data" for data
    using getOrFetch_live [OF ok that, of f] by blast
  show "disk_content (snd (snd (getOrFetch w now k f c))) k' = disk_content c k'"
    if "tmp_apart w d f" "k' \<noteq> k" for k'
    using that(2) getOrFetch_live [OF ok, of now k _ f] getOrFetch_dead [OF ok _ that(1), of now k]
    by (cases "live now (disk_content c k)") fastforce+
  show "\<exists>c'. getOrFetch w now k (Fetched data ttl io :: 'e fetch_result) c = (Inr data, True, c')
      \<and> disk_content c' k = Some (data, effective_expiry t now ttl)"
    if "live now (disk_content c k) = None" "pi_fault io = NoFault"
      "tmp_apart w d (Fetched data ttl io :: 'e fetch_result)" for data ttl io
    using getOrFetch_dead [OF ok that(1,3)] that(2) by auto
  show "\<exists>c'. getOrFetch w now k (FetchErr e) c = (Inl (FetchFailed e), True, c') \<and> disk_content c' k = None"
    if "live now (disk_content c k) = None" for e :: 'e
    using getOrFetch_dead [OF ok that, of "FetchErr e"] by auto
qed (simp add: effective_expiry_def)

section \<open>Bodies streamed into the cache\<close>

text \<open>
  A body that \<open>Put\<close> copies as it arrives: when reading it fails, the copy fails after the
  bytes that were read, unless creating the temporary file had failed before.
\<close>

definition streamed_io :: "put_io \<Rightarrow> bytes \<Rightarrow> bool \<Rightarrow> put_io" where
  "streamed_io io body readErr =
     (if readErr \<and> pi_fault io \<notin> {MkdirFault, CreateTempFault}
      then io\<lparr>pi_fault := CopyFault, pi_partial := body\<rparr> else io)"

lemma streamed_io_simps [simp]:
  "pi_tmp (streamed_io io body b) = pi_tmp io" "streamed_io io body False = io"
  by (simp_all add: streamed_io_def)

end
