(* ===== verification/Npm.thy ===== *)
theory Npm
  imports Glob Go_Http Fetch_Store Cache_Recovery
begin

text \<open>
  The npm registry proxy: the registry allowlist and upstream routing of
  \<^verbatim>\<open>npm/registries.go\<close>, the rewriting of lockfiles of \<^verbatim>\<open>npm/lockfile_rewrite.go\<close>
  and the request handling of \<^verbatim>\<open>npm/npm.go\<close>, for one request at a time.

  Parameters: \<open>url.Parse\<close> with its error text, the quoting \<open>%q\<close> of \<open>fmt\<close>, \<open>net.ParseIP\<close> (as the
  predicate that it accepts the text) and the HTTP client (from URL and request headers to
  status and body, redirects followed by the client).
\<close>

section \<open>The allowlist\<close>

definition upstreamPathPrefix :: string where "upstreamPathPrefix = ''/_upstream/''"

definition default_registry_patterns :: "string list" where
  "default_registry_patterns =
     [''registry.npmjs.org'', ''registry.yarnpkg.com'', ''yarnpkg.com'', ''*.yarnpkg.com'',
      ''npm.pkg.github.com'', ''gitlab.com'', ''*.gitlab.com'', ''*-npm.pkg.dev'',
      ''*.d.codeartifact.*.amazonaws.com'', ''pkgs.dev.azure.com'', ''pkgs.visualstudio.com'',
      ''*.visualstudio.com'', ''cdn.sheetjs.com'', ''*.sheetjs.com'']"

text \<open>The loop of \<open>newUpstreamRegistryAllowlist\<close>, with the set of patterns seen; a pattern that
  does not compile makes it fail.\<close>

fun compile_patterns :: "string list \<Rightarrow> string list \<Rightarrow> glob_matcher list option" where
  "compile_patterns seen [] = Some []"
| "compile_patterns seen (p # ps) =
     (let p = trim_space p in
      if p = [] \<or> p \<in> set seen then compile_patterns seen ps
      else case compile_glob p of
             None \<Rightarrow> None
           | Some m \<Rightarrow> map_option (Cons m) (compile_patterns (p # seen) ps))"

definition new_allowlist :: "string list \<Rightarrow> glob_matcher list option" where
  "new_allowlist patterns =
     compile_patterns [] (if patterns = [] then default_registry_patterns else patterns)"

definition registry_allowed :: "glob_matcher list \<Rightarrow> string \<Rightarrow> bool" where
  "registry_allowed matchers host =
     (let host = to_lower (trim_space host)
      in host \<noteq> [] \<and> list_ex (\<lambda>m. glob_match (Some m) host) matchers)"

definition usesHTTPUpstream :: "(string \<Rightarrow> bool) \<Rightarrow> string \<Rightarrow> bool" where
  "usesHTTPUpstream is_ip host =
     (let name = (case split_host_port host of Some (h, p) \<Rightarrow> h | None \<Rightarrow> host)
      in equal_fold name ''localhost'' \<or> is_ip name)"

definition upstreamRegistryBaseURL :: "(string \<Rightarrow> bool) \<Rightarrow> string \<Rightarrow> string" where
  "upstreamRegistryBaseURL is_ip host =
     (let host = trim_suffix host ''/''
      in if usesHTTPUpstream is_ip host then ''http://'' @ host else ''https://'' @ host)"

definition proxyUpstreamBaseURL :: "string \<Rightarrow> string \<Rightarrow> string" where
  "proxyUpstreamBaseURL proxyHost upstreamHost =
     ''http://'' @ trim_suffix proxyHost ''/'' @ upstreamPathPrefix @ upstreamHost"

definition parseUpstreamPath :: "string \<Rightarrow> (string \<times> string) option" where
  "parseUpstreamPath path =
     (if \<not> has_prefix path upstreamPathPrefix then None
      else
        let rest = trim_prefix path upstreamPathPrefix;
            (host, remainder, ok) = cut rest ''/'';
            remainder = (if ok then CHR ''/'' # remainder else ''/'');
            host = trim_space host
        in if host = [] then None else Some (host, remainder))"

datatype upstream_error = InvalidURL | UnsupportedURLScheme string | EmptyHost | HostNotAllowed string
  | InvalidDefaultUpstream string

definition validateUpstreamFetchURL :: "(string \<Rightarrow> url option) \<Rightarrow> glob_matcher list \<Rightarrow> string \<Rightarrow>
    upstream_error + url" where
  "validateUpstreamFetchURL url_parse allowlist rawURL =
     (case url_parse rawURL of
        None \<Rightarrow> Inl InvalidURL
      | Some parsed \<Rightarrow>
          if u_scheme parsed \<noteq> ''http'' \<and> u_scheme parsed \<noteq> ''https''
          then Inl (UnsupportedURLScheme (u_scheme parsed))
          else if url_hostname parsed = [] then Inl EmptyHost
          else if \<not> registry_allowed allowlist (url_hostname parsed)
            then Inl (HostNotAllowed (url_hostname parsed))
          else Inr parsed)"

text \<open>The texts of these errors; \<open>quoted\<close> is the \<open>%q\<close> of \<open>fmt\<close> and \<open>parse_err\<close> the error text of \<open>url.Parse\<close>
  on the same input.\<close>

definition upstream_error_text :: "(string \<Rightarrow> string) \<Rightarrow> string \<Rightarrow> upstream_error \<Rightarrow> string" where
  "upstream_error_text quoted parse_err e =
     (case e of
        InvalidURL \<Rightarrow> ''invalid URL: '' @ parse_err
      | UnsupportedURLScheme x \<Rightarrow> ''unsupported scheme '' @ quoted x
      | EmptyHost \<Rightarrow> ''empty host''
      | HostNotAllowed h \<Rightarrow> ''host '' @ quoted h @ '' is not an allowed upstream fetch host''
      | InvalidDefaultUpstream u \<Rightarrow> ''invalid default upstream URL '' @ quoted u)"

definition isForwardProxyRequest :: "request \<Rightarrow> bool" where
  "isForwardProxyRequest r =
     (has_prefix (rq_requestURI r) ''http://'' \<or> has_prefix (rq_requestURI r) ''https://'')"

section \<open>Lockfiles\<close>

definition host_start :: "char \<Rightarrow> bool" where
  "host_start c = is_alnum c"

definition host_rest :: "char \<Rightarrow> bool" where
  "host_rest c = (is_alnum c \<or> c \<in> set ''._-'')"

text \<open>The class that excludes white space, both quotes and the backslash.\<close>

definition path_char :: "char \<Rightarrow> bool" where
  "path_char c = (c \<notin> {CHR 0x09, CHR 0x0A, CHR 0x0C, CHR 0x0D, CHR 0x20, CHR 0x22, CHR 0x27, CHR 0x5C})"

text \<open>
  The length of the leftmost match of \<open>directTarballURLPattern\<close> at the start of the text. The
  host and port parts are determined by their characters; the path takes the longest run
  and gives back until it ends in \<open>.tgz\<close>, at least one character before it; a query follows
  to the end of the run.
\<close>

definition match_path :: "string \<Rightarrow> nat option" where
  "match_path s =
     (let run = takeWhile path_char s in
      case last_index (drop 1 run) ''.tgz'' of
        None \<Rightarrow> None
      | Some i \<Rightarrow>
          let n = 1 + i + 4
          in Some (if has_prefix (drop n run) ''?'' then length run else n))"

definition match_tarball :: "string \<Rightarrow> nat option" where
  "match_tarball s =
     (case cut_prefix s ''https://'' of
        None \<Rightarrow> None
      | Some s1 \<Rightarrow>
          (case s1 of
             [] \<Rightarrow> None
           | c # cs \<Rightarrow>
               if \<not> host_start c then None
               else
                 let host = takeWhile host_rest cs;
                     s2 = drop (length host) cs;
                     port = (case s2 of
                               [] \<Rightarrow> []
                             | d # ds \<Rightarrow>
                                 if d = CHR '':'' \<and> takeWhile is_digit ds \<noteq> [] then d # takeWhile is_digit ds
                                 else []);
                     s3 = drop (length port) s2
                 in (case s3 of
                       [] \<Rightarrow> None
                     | d # path \<Rightarrow>
                         if d \<noteq> CHR ''/'' then None
                         else map_option (\<lambda>n. 8 + 1 + length host + length port + 1 + n) (match_path path))))"

definition rewrite_match :: "(string \<Rightarrow> url option) \<Rightarrow> string \<Rightarrow> glob_matcher list \<Rightarrow> string \<Rightarrow> string" where
  "rewrite_match url_parse proxyBase allowlist m =
     (case url_parse m of
        None \<Rightarrow> m
      | Some parsed \<Rightarrow>
          if u_host parsed = [] \<or> \<not> registry_allowed allowlist (url_hostname parsed) then m
          else
            let path = escaped_path parsed;
                path = (if path = [] then ''/'' else path);
                path = (if u_rawQuery parsed \<noteq> [] then path @ ''?'' @ u_rawQuery parsed else path)
            in proxyBase @ upstreamPathPrefix @ u_host parsed @ path)"

text \<open>\<open>ReplaceAllFunc\<close>: leftmost matches from left to right.\<close>

function replace_tarballs :: "(string \<Rightarrow> string) \<Rightarrow> string \<Rightarrow> string" where
  "replace_tarballs f [] = []"
| "replace_tarballs f (c # cs) =
     (case match_tarball (c # cs) of
        None \<Rightarrow> c # replace_tarballs f cs
      | Some n \<Rightarrow>
          if n = 0 then c # replace_tarballs f cs
          else f (take n (c # cs)) @ replace_tarballs f (drop n (c # cs)))"
  by pat_completeness auto
termination
  by (relation "measure (\<lambda>(f, s). length s)") auto

definition rewriteDirectTarballURLs :: "(string \<Rightarrow> url option) \<Rightarrow> string \<Rightarrow> glob_matcher list \<Rightarrow> bytes \<Rightarrow> bytes"
where
  "rewriteDirectTarballURLs url_parse proxyBase allowlist content =
     (if content = [] then content
      else replace_tarballs
        (rewrite_match url_parse (trim_right (\<lambda>c. c = CHR ''/'') proxyBase) allowlist) content)"

definition rewriteWithDefaults :: "(string \<Rightarrow> url option) \<Rightarrow> string \<Rightarrow> bytes \<Rightarrow> bytes option" where
  "rewriteWithDefaults url_parse proxyBase content =
     (case new_allowlist default_registry_patterns of
        None \<Rightarrow> None
      | Some allowlist \<Rightarrow> Some (rewriteDirectTarballURLs url_parse proxyBase allowlist content))"

section \<open>Package names and cache keys\<close>

definition extractPackageName :: "string \<Rightarrow> string" where
  "extractPackageName path =
     (let path = trim_prefix path ''/'' in
      if path = [] then []
      else if has_prefix path ''@''
      then (case split_n CHR ''/'' 3 path of a # b # _ \<Rightarrow> a @ ''/'' @ b | _ \<Rightarrow> [])
      else (case split_n CHR ''/'' 2 path of a # _ \<Rightarrow> a | [] \<Rightarrow> []))"

definition metadataCacheKey :: "string \<Rightarrow> string \<Rightarrow> string" where
  "metadataCacheKey upstreamHost path = ''meta:'' @ upstreamHost @ '':'' @ path"

definition tarballCacheKey :: "string \<Rightarrow> string \<Rightarrow> string" where
  "tarballCacheKey upstreamHost path =
     (let pkgName = extractPackageName path;
          (_, after, ok) = cut path ''/-/''
      in if \<not> ok then ''tar:'' @ upstreamHost @ '':'' @ path
         else ''tar:'' @ upstreamHost @ '':'' @ pkgName @ ''/'' @ after)"

definition isTarballPath :: "string \<Rightarrow> bool" where
  "isTarballPath path = has_suffix path ''.tgz''"

definition rewriteTarballURLs :: "bytes \<Rightarrow> string \<Rightarrow> string \<Rightarrow> bytes" where
  "rewriteTarballURLs data upstream_url proxyURL = replace_all data upstream_url proxyURL"

definition rewriteRegistryTarballURLs :: "bytes \<Rightarrow> string \<Rightarrow> string \<Rightarrow> string \<Rightarrow> bytes" where
  "rewriteRegistryTarballURLs data upstreamBase upstreamHost proxyHost =
     rewriteTarballURLs data (trim_right (\<lambda>c. c = CHR ''/'') upstreamBase)
       (proxyUpstreamBaseURL proxyHost upstreamHost)"

section \<open>Serving\<close>

record upstream_reply =
  up_status :: int
  up_body :: bytes
  up_readErr :: bool     \<comment> \<open>reading the body fails after these bytes\<close>

record npm_env =
  ne_world :: world
  ne_now :: int
  ne_parse :: "string \<Rightarrow> url option"
  ne_parseError :: "string \<Rightarrow> string"
  ne_quote :: "string \<Rightarrow> string"
  ne_isIP :: "string \<Rightarrow> bool"
  ne_get :: "string \<Rightarrow> header \<Rightarrow> upstream_reply option"     \<comment> \<open>the HTTP client: URL and headers of a \<open>GET\<close>\<close>
  ne_io :: put_io

record npm_server =
  ns_upstreamURL :: string
  ns_allowlist :: "glob_matcher list"
  ns_metadataTTL :: int

record npm_state =
  np_cache :: cache
  np_fetched :: "string list"     \<comment> \<open>the URLs requested from upstreams\<close>

definition trim_slashes :: "string \<Rightarrow> string" where
  "trim_slashes s = trim_right (\<lambda>c. c = CHR ''/'') s"

definition defaultMetadataTTL :: int where "defaultMetadataTTL = 60 * 10 ^ 9"

text \<open>\<open>DefaultConfig\<close>, for the file system the directory is on, and \<open>New\<close> with the cache it creates.\<close>

record npm_config =
  nc_upstreamURL :: string
  nc_patterns :: "string list"
  nc_cacheDir :: string
  nc_maxCacheSize :: int
  nc_metadataTTL :: int

definition defaultUpstreamURL :: string where "defaultUpstreamURL = ''https://registry.npmjs.org''"

definition npm_default_config :: "(64 word \<times> 64 word) option \<Rightarrow> string \<Rightarrow> npm_config" where
  "npm_default_config statfs cache_dir =
     \<lparr>nc_upstreamURL = defaultUpstreamURL, nc_patterns = default_registry_patterns, nc_cacheDir = cache_dir,
      nc_maxCacheSize = defaultMaxSize statfs (f64_round (1 / 10)), nc_metadataTTL = defaultMetadataTTL\<rparr>"

datatype npm_new_error = NpmDirRequired | NpmCacheFailed start_error | NpmBadPattern

definition npm_new :: "world \<Rightarrow> disk \<Rightarrow> int \<Rightarrow> startup \<Rightarrow> npm_config \<Rightarrow> npm_new_error + (npm_server \<times> cache)" where
  "npm_new w d now st cfg =
     (if nc_cacheDir cfg = [] then Inl NpmDirRequired
      else case new_cache w d now st
          \<lparr>cf_dir = nc_cacheDir cfg, cf_maxSize = nc_maxCacheSize cfg, cf_ttl = 0, cf_softEvictPercent = 0\<rparr> of
        Inl e \<Rightarrow> Inl (NpmCacheFailed e)
      | Inr c \<Rightarrow>
          (case new_allowlist (nc_patterns cfg) of
             None \<Rightarrow> Inl NpmBadPattern
           | Some allowlist \<Rightarrow>
               Inr (\<lparr>ns_upstreamURL =
                        trim_slashes (if nc_upstreamURL cfg = [] then defaultUpstreamURL else nc_upstreamURL cfg),
                      ns_allowlist = allowlist,
                      ns_metadataTTL = (if nc_metadataTTL cfg = 0 then defaultMetadataTTL else nc_metadataTTL cfg)\<rparr>,
                    c)))"

datatype npm_error = Transport | UpstreamStatus int | ReadMetadata

definition handleFetchError :: "npm_error cache_error \<Rightarrow> writer \<Rightarrow> writer" where
  "handleFetchError err out =
     (case err of
        FetchFailed (UpstreamStatus n) \<Rightarrow>
          if n = 404 then http_error ''not found'' 404 out else http_error ''bad gateway'' 502 out
      | _ \<Rightarrow> http_error ''bad gateway'' 502 out)"

definition fetchFromUpstream :: "npm_env \<Rightarrow> string \<Rightarrow> string \<Rightarrow> upstream_reply option" where
  "fetchFromUpstream ne upstreamBase path =
     ne_get ne (trim_slashes upstreamBase @ path) (h_set [] ''Accept'' ''application/json'')"

definition fetchFromUpstreamURL :: "npm_env \<Rightarrow> string \<Rightarrow> upstream_reply option" where
  "fetchFromUpstreamURL ne rawURL = ne_get ne rawURL []"

text \<open>\<open>GetOrFetch\<close> with a fetch of one URL: the request is made when the cache misses.\<close>

definition cached_fetch :: "npm_env \<Rightarrow> string \<Rightarrow> string \<Rightarrow> npm_error fetch_result \<Rightarrow>
    npm_state \<Rightarrow> (npm_error cache_error + bytes) \<times> npm_state" where
  "cached_fetch ne key target fetch s =
     (case getOrFetch (ne_world ne) (ne_now ne) key fetch (np_cache s) of
        (res, called, c) \<Rightarrow>
          (res, s\<lparr>np_cache := c,
                  np_fetched := (if called then np_fetched s @ [target] else np_fetched s)\<rparr>))"

definition metadata_fetch :: "npm_env \<Rightarrow> int \<Rightarrow> upstream_reply option \<Rightarrow> npm_error fetch_result" where
  "metadata_fetch ne ttl reply =
     (case reply of
        None \<Rightarrow> FetchErr Transport
      | Some resp \<Rightarrow>
          if 400 \<le> up_status resp then FetchErr (UpstreamStatus (up_status resp))
          else if up_readErr resp then FetchErr ReadMetadata
          else Fetched (up_body resp) ttl (ne_io ne))"

text \<open>A tarball is streamed into the cache: a failing body is a failing copy.\<close>

definition tarball_fetch :: "npm_env \<Rightarrow> upstream_reply option \<Rightarrow> npm_error fetch_result" where
  "tarball_fetch ne reply =
     (case reply of
        None \<Rightarrow> FetchErr Transport
      | Some resp \<Rightarrow>
          if 400 \<le> up_status resp then FetchErr (UpstreamStatus (up_status resp))
          else Fetched (up_body resp) (-1) (streamed_io (ne_io ne) (up_body resp) (up_readErr resp)))"

definition handleMetadata :: "npm_env \<Rightarrow> npm_server \<Rightarrow> request \<Rightarrow> string \<Rightarrow> string \<Rightarrow> string \<Rightarrow> writer \<Rightarrow>
    npm_state \<Rightarrow> writer \<times> npm_state" where
  "handleMetadata ne sv r upstreamBase path upstreamHost out s =
     (if extractPackageName path = [] then (http_error ''not found'' 404 out, s)
      else case cached_fetch ne (metadataCacheKey upstreamHost path) (trim_slashes upstreamBase @ path)
                  (metadata_fetch ne (ns_metadataTTL sv) (fetchFromUpstream ne upstreamBase path)) s of
        (Inl err, s) \<Rightarrow> (handleFetchError err out, s)
      | (Inr data, s) \<Rightarrow>
          if rq_host r = [] then (http_error ''missing Host header'' 400 out, s)
          else
            let rewritten = rewriteRegistryTarballURLs data upstreamBase upstreamHost (rq_host r)
            in (snd (write_bytes rewritten
                  (write_header 200 (set_header ''Content-Type'' ''application/json'' out))), s))"

definition serve_tarball :: "npm_env \<Rightarrow> string \<Rightarrow> string \<Rightarrow> upstream_reply option \<Rightarrow> writer \<Rightarrow> npm_state \<Rightarrow> writer \<times> npm_state" where
  "serve_tarball ne key target reply out s =
     (case cached_fetch ne key target (tarball_fetch ne reply) s of
        (Inl err, s) \<Rightarrow> (handleFetchError err out, s)
      | (Inr data, s) \<Rightarrow>
          (snd (write_bytes data
             (write_header 200 (set_header ''Content-Type'' ''application/octet-stream'' out))), s))"

definition handleTarball :: "npm_env \<Rightarrow> string \<Rightarrow> string \<Rightarrow> string \<Rightarrow> writer \<Rightarrow> npm_state \<Rightarrow>
    writer \<times> npm_state" where
  "handleTarball ne upstreamBase path upstreamHost out s =
     serve_tarball ne (tarballCacheKey upstreamHost path) (trim_slashes upstreamBase @ path)
       (fetchFromUpstream ne upstreamBase path) out s"

definition handleTarballURL :: "npm_env \<Rightarrow> string \<Rightarrow> writer \<Rightarrow> npm_state \<Rightarrow> writer \<times> npm_state" where
  "handleTarballURL ne fetchURL out s =
     serve_tarball ne (''tar:url:'' @ fetchURL) fetchURL (fetchFromUpstreamURL ne fetchURL) out s"

definition handleForwardProxy :: "npm_env \<Rightarrow> npm_server \<Rightarrow> request \<Rightarrow> writer \<Rightarrow> npm_state \<Rightarrow>
    writer \<times> npm_state" where
  "handleForwardProxy ne sv r out s =
     (case validateUpstreamFetchURL (ne_parse ne) (ns_allowlist sv) (rq_requestURI r) of
        Inl err \<Rightarrow>
          (http_error (''forbidden: '' @ upstream_error_text (ne_quote ne)
             (ne_parseError ne (rq_requestURI r)) err) 403 out, s)
      | Inr parsed \<Rightarrow>
          let fetchPath = u_path parsed
                @ (if u_rawQuery parsed \<noteq> [] then ''?'' @ u_rawQuery parsed else []);
              upstreamBase = u_scheme parsed @ ''://'' @ u_host parsed
          in if isTarballPath fetchPath then handleTarballURL ne (rq_requestURI r) out s
             else handleMetadata ne sv r upstreamBase fetchPath (u_host parsed) out s)"

definition resolveRegistryRequest :: "npm_env \<Rightarrow> npm_server \<Rightarrow> string \<Rightarrow>
    upstream_error + (string \<times> string \<times> string)" where
  "resolveRegistryRequest ne sv path =
     (case parseUpstreamPath path of
        Some (host, remainder) \<Rightarrow>
          if \<not> registry_allowed (ns_allowlist sv) host then Inl (HostNotAllowed host)
          else Inr (upstreamRegistryBaseURL (ne_isIP ne) host, remainder, host)
      | None \<Rightarrow>
          (case ne_parse ne (ns_upstreamURL sv) of
             None \<Rightarrow> Inl (InvalidDefaultUpstream (ns_upstreamURL sv))
           | Some parsed \<Rightarrow>
               if u_host parsed = [] then Inl (InvalidDefaultUpstream (ns_upstreamURL sv))
               else Inr (ns_upstreamURL sv, path, u_host parsed)))"

definition npm_handle :: "npm_env \<Rightarrow> npm_server \<Rightarrow> request \<Rightarrow> writer \<Rightarrow> npm_state \<Rightarrow> writer \<times> npm_state" where
  "npm_handle ne sv r out s =
     (if rq_method r \<noteq> ''GET'' then (http_error ''method not allowed'' 405 out, s)
      else if u_path (rq_url r) = ''/healthz'' \<and> \<not> isForwardProxyRequest r
      then (snd (write_bytes (''{'' @ [CHR 0x22] @ ''status'' @ [CHR 0x22] @ '':'' @ [CHR 0x22] @ ''ok''
              @ [CHR 0x22] @ ''}'')
            (write_header 200 (set_header ''Content-Type'' ''application/json'' out))), s)
      else if isForwardProxyRequest r then handleForwardProxy ne sv r out s
      else case url_unescape EncodePath (u_path (rq_url r)) of
        None \<Rightarrow> (http_error ''bad request'' 400 out, s)
      | Some decoded \<Rightarrow>
          (case resolveRegistryRequest ne sv decoded of
             Inl err \<Rightarrow>
               (http_error (''forbidden: '' @ upstream_error_text (ne_quote ne) [] err) 403 out, s)
           | Inr (upstream, fetchPath, upstreamHost) \<Rightarrow>
               if isTarballPath fetchPath then handleTarball ne upstream fetchPath upstreamHost out s
               else handleMetadata ne sv r upstream fetchPath upstreamHost out s))"

end
