(* ===== verification/Npm_Properties.thy ===== *)
theory Npm_Properties
  imports Npm
begin

text \<open>
  Properties of the npm proxy: what the allowlist admits, which URLs a request can make the
  proxy fetch, that rewritten tarball URLs route back to where they came from, and what the
  tarball cache keys tell apart.
\<close>

section \<open>The allowlist\<close>

lemma compile_patterns_spec:
  "\<exists>ms. compile_patterns seen ps = Some ms
    \<and> (\<forall>h. (list_ex (\<lambda>m. glob_match (Some m) h) ms
            \<or> list_ex (\<lambda>q. rx_match (glob_atoms q) h) seen)
          \<longleftrightarrow> (\<exists>p\<in>set ps. trim_space p \<noteq> [] \<and> rx_match (glob_atoms (trim_space p)) h)
            \<or> list_ex (\<lambda>q. rx_match (glob_atoms q) h) seen)"
proof (induction seen ps rule: compile_patterns.induct)
  case (1 seen)
  show ?case by simp
next
  case (2 seen p ps)
  show ?case
  proof (cases "trim_space p = [] \<or> trim_space p \<in> set seen")
    case True
    with "2.IH"(1) [OF refl True] show ?thesis by (auto simp: list_ex_iff)
  next
    case False
    note m = compile_glob_atoms [of "trim_space p"]
    obtain ms where "compile_patterns (trim_space p # seen) ps = Some ms"
      and sem: "\<forall>h. (list_ex (\<lambda>m. glob_match (Some m) h) ms
            \<or> list_ex (\<lambda>q. rx_match (glob_atoms q) h) (trim_space p # seen))
          \<longleftrightarrow> (\<exists>p\<in>set ps. trim_space p \<noteq> [] \<and> rx_match (glob_atoms (trim_space p)) h)
            \<or> list_ex (\<lambda>q. rx_match (glob_atoms q) h) (trim_space p # seen)"
      using "2.IH"(2) [OF refl False m] by blast
    then have "compile_patterns seen (p # ps)
        = Some (\<lparr>gm_pattern = trim_space p, gm_regex = glob_atoms (trim_space p)\<rparr> # ms)"
      using False m by (simp add: Let_def)
    then show ?thesis using sem False by (auto simp: glob_match_def)
  qed
qed

lemma new_allowlist_spec:
  "\<exists>ms. new_allowlist patterns = Some ms
    \<and> (\<forall>host. registry_allowed ms host \<longleftrightarrow>
        to_lower (trim_space host) \<noteq> []
        \<and> (\<exists>p\<in>set (if patterns = [] then default_registry_patterns else patterns).
             trim_space p \<noteq> [] \<and> rx_match (glob_atoms (trim_space p)) (to_lower (trim_space host))))"
  using compile_patterns_spec [of "[]" "if patterns = [] then default_registry_patterns else patterns"]
  by (auto simp: new_allowlist_def registry_allowed_def Let_def)

section \<open>Fetched URLs\<close>

lemma cached_fetch_log:
  "np_fetched (snd (cached_fetch ne key target f s)) = np_fetched s
    \<or> np_fetched (snd (cached_fetch ne key target f s)) = np_fetched s @ [target]"
  by (auto simp: cached_fetch_def split: prod.split)

lemma handleMetadata_log:
  "np_fetched (snd (handleMetadata ne sv r base path host out s)) = np_fetched s
    \<or> np_fetched (snd (handleMetadata ne sv r base path host out s)) = np_fetched s @ [trim_slashes base @ path]"
  using cached_fetch_log [of ne "metadataCacheKey host path" "trim_slashes base @ path"
      "metadata_fetch ne (ns_metadataTTL sv) (fetchFromUpstream ne base path)" s]
  by (auto simp: handleMetadata_def Let_def split: prod.split sum.split)

lemma serve_tarball_log:
  "np_fetched (snd (serve_tarball ne key target reply out s)) = np_fetched s
    \<or> np_fetched (snd (serve_tarball ne key target reply out s)) = np_fetched s @ [target]"
  using cached_fetch_log [of ne key target "tarball_fetch ne reply" s]
  by (auto simp: serve_tarball_def split: prod.split sum.split)

text \<open>The URLs the proxy is meant to fetch: below its default registry, below an allowed registry, or
  below the allowed origin of a forward proxy request.\<close>

definition sanctioned :: "npm_env \<Rightarrow> npm_server \<Rightarrow> request \<Rightarrow> string \<Rightarrow> bool" where
  "sanctioned ne sv r target \<longleftrightarrow>
     (\<exists>path. target = trim_slashes (ns_upstreamURL sv) @ path)
     \<or> (\<exists>host path. registry_allowed (ns_allowlist sv) host
          \<and> target = trim_slashes (upstreamRegistryBaseURL (ne_isIP ne) host) @ path)
     \<or> (\<exists>u path. ne_parse ne (rq_requestURI r) = Some u
          \<and> (u_scheme u = ''http'' \<or> u_scheme u = ''https'')
          \<and> registry_allowed (ns_allowlist sv) (url_hostname u)
          \<and> (target = rq_requestURI r
             \<or> target = trim_slashes (u_scheme u @ ''://'' @ u_host u) @ path))"

lemma npm_log_cases:
  assumes "np_fetched t = np_fetched s \<or> np_fetched t = np_fetched s @ [x]" "P x"
  shows "np_fetched t = np_fetched s \<or> (\<exists>x. np_fetched t = np_fetched s @ [x] \<and> P x)"
  using assms by blast

lemma forward_sanctioned:
  "np_fetched (snd (handleForwardProxy ne sv r out s)) = np_fetched s
    \<or> (\<exists>x. np_fetched (snd (handleForwardProxy ne sv r out s)) = np_fetched s @ [x] \<and> sanctioned ne sv r x)"
proof (cases "validateUpstreamFetchURL (ne_parse ne) (ns_allowlist sv) (rq_requestURI r)")
  case (Inl e)
  then show ?thesis by (simp add: handleForwardProxy_def)
next
  case (Inr u)
  then have u: "ne_parse ne (rq_requestURI r) = Some u" "u_scheme u = ''http'' \<or> u_scheme u = ''https''"
    "registry_allowed (ns_allowlist sv) (url_hostname u)"
    by (auto simp: validateUpstreamFetchURL_def split: option.splits if_splits)
  let ?p = "u_path u @ (if u_rawQuery u \<noteq> [] then ''?'' @ u_rawQuery u else [])"
  show ?thesis
  proof (cases "isTarballPath ?p")
    case True
    have "sanctioned ne sv r (rq_requestURI r)" using u unfolding sanctioned_def by blast
    from npm_log_cases [where P = "sanctioned ne sv r", OF serve_tarball_log this] True Inr show ?thesis
      by (simp add: handleForwardProxy_def handleTarballURL_def Let_def)
  next
    case False
    have "sanctioned ne sv r (trim_slashes (u_scheme u @ ''://'' @ u_host u) @ ?p)"
      using u unfolding sanctioned_def by blast
    from npm_log_cases [where P = "sanctioned ne sv r", OF handleMetadata_log this] False Inr show ?thesis
      by (simp add: handleForwardProxy_def Let_def)
  qed
qed

lemma resolve_sanctioned:
  "resolveRegistryRequest ne sv path = Inr (base, p, host) \<Longrightarrow> sanctioned ne sv r (trim_slashes base @ p)"
  by (auto simp: resolveRegistryRequest_def sanctioned_def split: option.splits if_splits)

section \<open>Routes\<close>

lemma cut_slash: "CHR ''/'' \<notin> set h \<Longrightarrow> cut (h @ CHR ''/'' # rest) ''/'' = (h, rest, True)"
  by simp

lemma parseUpstreamPath_route:
  assumes "CHR ''/'' \<notin> set h" "trim_space h = h" "h \<noteq> []"
  shows "parseUpstreamPath (upstreamPathPrefix @ h @ CHR ''/'' # rest) = Some (h, CHR ''/'' # rest)"
  using assms by (simp add: parseUpstreamPath_def trim_prefix_append)

lemma trim_suffix_slash: "CHR ''/'' \<notin> set h \<Longrightarrow> trim_suffix h ''/'' = h"
  by (auto simp: trim_suffix_def has_suffix_iff)

lemma trim_slashes_keep: "s \<noteq> [] \<Longrightarrow> last s \<noteq> CHR ''/'' \<Longrightarrow> trim_slashes s = s"
  by (simp add: trim_slashes_def trim_right_self)

lemma base_url_last:
  assumes "CHR ''/'' \<notin> set h" "h \<noteq> []"
  shows "trim_slashes (upstreamRegistryBaseURL ip h) = upstreamRegistryBaseURL ip h"
proof -
  have "last h \<noteq> CHR ''/''" using assms last_in_set by fastforce
  with assms show ?thesis
    by (intro trim_slashes_keep) (simp_all add: upstreamRegistryBaseURL_def Let_def trim_suffix_slash)
qed

lemma base_url_nonempty: "upstreamRegistryBaseURL ip h \<noteq> []"
  by (simp add: upstreamRegistryBaseURL_def Let_def)

text \<open>Replacing in a text in which the pattern does not occur changes nothing.\<close>

lemma replace_all_absent: "old \<noteq> [] \<Longrightarrow> \<not> contains s old \<Longrightarrow> replace_all s old new = s"
proof (induction s)
  case (Cons c s)
  have "\<not> has_prefix (c # s) old" "\<not> contains s old"
    using Cons.prems(2) by (auto simp: contains_def split: if_splits)
  with Cons show ?case by simp
qed simp

section \<open>Package names\<close>

lemma extract_unscoped:
  assumes "CHR ''/'' \<notin> set a" "a \<noteq> []" "hd a \<noteq> CHR ''@''"
  shows "extractPackageName (CHR ''/'' # a @ CHR ''/'' # rest) = a"
proof -
  have "trim_prefix (CHR ''/'' # a @ CHR ''/'' # rest) ''/'' = a @ CHR ''/'' # rest"
    using trim_prefix_append [of "''/''" "a @ CHR ''/'' # rest"] by simp
  moreover have "\<not> has_prefix (a @ CHR ''/'' # rest) ''@''"
    using assms(2,3) by (cases a) auto
  ultimately show ?thesis
    using assms(1,2) by (simp add: extractPackageName_def Let_def numeral_2_eq_2)
qed

lemma cut_project_path:
  assumes "CHR ''/'' \<notin> set i" "i \<noteq> ''-''"
  shows "snd (cut (''/api/v4/projects/'' @ i @ ''/packages/npm/p/-/p-1.tgz'') ''/-/'') = (''p-1.tgz'', True)"
proof -
  let ?t = "''packages/npm/p/-/p-1.tgz''"
  have c1: "cut ?t ''/-/'' = (''packages/npm/p'', ''p-1.tgz'', True)" by (simp add: cut_def)
  have "\<not> has_prefix (i @ CHR ''/'' # ?t) ''-/''"
    using assms by (cases i) (auto simp: neq_Nil_conv)
  moreover have "cut (i @ CHR ''/'' # ?t) ''/-/'' = (i @ CHR ''/'' # ''packages/npm/p'', ''p-1.tgz'', True)"
    using cut_at_char [OF assms(1), of ?t "''-/''"] c1 by simp
  ultimately show ?thesis
    using cut_at_char [of "CHR ''/''" "[]" "''api/v4/projects/'' @ i @ CHR ''/'' # ?t" "''-/''"]
      cut_at_char [of "CHR ''/''" "''api''" "''v4/projects/'' @ i @ CHR ''/'' # ?t" "''-/''"]
      cut_at_char [of "CHR ''/''" "''v4''" "''projects/'' @ i @ CHR ''/'' # ?t" "''-/''"]
      cut_at_char [of "CHR ''/''" "''projects''" "i @ CHR ''/'' # ?t" "''-/''"]
    by simp
qed

section \<open>Properties\<close>




definition demo_npm_env :: npm_env where
  "demo_npm_env = \<lparr>ne_world = demo_world, ne_now = 7, ne_parse = (\<lambda>_. None), ne_parseError = id,
     ne_quote = id, ne_isIP = (\<lambda>_. False), ne_get = (\<lambda>_ _. None), ne_io = demo_io\<rparr>"

definition demo_npm :: npm_server where
  "demo_npm = \<lparr>ns_upstreamURL = ''https://registry.npmjs.org'',
     ns_allowlist = the (new_allowlist [''npm.test'']), ns_metadataTTL = 1\<rparr>"

lemma trim_demo: "trim_space ''npm.test'' = ''npm.test''"
  by (rule trim_space_no_space) (auto simp: is_space_def)

lemma lower_demo: "to_lower ''npm.test'' = ''npm.test''"
  by (simp add: to_lower_def lower_char_def)

lemma demo_npm_allows: "registry_allowed (ns_allowlist demo_npm) ''npm.test''"
proof -
  obtain ms where ms: "new_allowlist [''npm.test''] = Some ms"
    "registry_allowed ms ''npm.test'' \<longleftrightarrow> rx_match (glob_atoms ''npm.test'') ''npm.test''"
    using new_allowlist_spec [of "[''npm.test'']"] by (auto simp: trim_demo lower_demo)
  then show ?thesis by (simp add: demo_npm_def)
qed


definition demo_tarball_state :: npm_state where
  "demo_tarball_state = \<lparr>np_cache = demo_cache\<lparr>c_entries :=
       [(tarballCacheKey ''gitlab.com'' (''/api/v4/projects/'' @ ''1'' @ ''/packages/npm/p/-/p-1.tgz''),
         demo_entry ''k1'' 4 1 None)]\<rparr>, np_fetched = []\<rparr>"

text \<open>Tarball keys forget the middle of a path. For an unscoped path, the key of a tarball has
  only the first segment and what follows the first \<open>/-/\<close>: two packages of different GitLab
  projects with one file name share a key, and when the tarball of one is cached and live,
  a request for the other's is answered with its bytes and without a request upstream.\<close>

theorem tarball_key_confuses_projects:
  assumes "CHR ''/'' \<notin> set id1" "CHR ''/'' \<notin> set id2" "id1 \<noteq> ''-''" "id2 \<noteq> ''-''"
    "map_of (c_entries (np_cache s))
       (tarballCacheKey host (''/api/v4/projects/'' @ id1 @ ''/packages/npm/p/-/p-1.tgz'')) = Some e"
    "\<not> expired (ne_now ne) e" "open_ok (ne_world ne) (e_path e)"
    "map_of (c_files (np_cache s)) (e_path e) = Some data" "w_takes out = None" "w_body out = []"
  shows "\<exists>out' s'. handleTarball ne base (''/api/v4/projects/'' @ id2 @ ''/packages/npm/p/-/p-1.tgz'') host out s
      = (out', s') \<and> w_body out' = data \<and> np_fetched s' = np_fetched s"
proof -
  have key: "tarballCacheKey host (''/api/v4/projects/'' @ i @ ''/packages/npm/p/-/p-1.tgz'')
      = ''tar:'' @ host @ '':api/p-1.tgz''" if "CHR ''/'' \<notin> set i" "i \<noteq> ''-''" for i
  proof -
    have "extractPackageName (''/api/v4/projects/'' @ i @ ''/packages/npm/p/-/p-1.tgz'') = ''api''"
      using extract_unscoped [of "''api''" "''v4/projects/'' @ i @ ''/packages/npm/p/-/p-1.tgz''"] by simp
    moreover have "snd (cut (''/api/v4/projects/'' @ i @ ''/packages/npm/p/-/p-1.tgz'') ''/-/'')
        = (''p-1.tgz'', True)"
      using cut_project_path [OF that] by simp
    ultimately show ?thesis
      by (cases "cut (''/api/v4/projects/'' @ i @ ''/packages/npm/p/-/p-1.tgz'') ''/-/''")
        (simp add: tarballCacheKey_def)
  qed
  have "map_of (c_entries (np_cache s)) (''tar:'' @ host @ '':api/p-1.tgz'') = Some e"
    using assms(5) unfolding key [OF assms(1,3)] .
  then have "getOrFetch (ne_world ne) (ne_now ne) (''tar:'' @ host @ '':api/p-1.tgz'') f (np_cache s)
      = (Inr data, False, snd (get (ne_world ne) (ne_now ne) (''tar:'' @ host @ '':api/p-1.tgz'') (np_cache s)))" for f :: "npm_error fetch_result"
    using assms(6-8) by (auto simp: getOrFetch_def get_def Let_def os_open_def split: option.split)
  then show ?thesis
    using assms(9,10) unfolding handleTarball_def key [OF assms(2,4)]
    by (simp add: serve_tarball_def cached_fetch_def write_bytes_all)
qed

theorem tarball_key_confuses_projects_witness:
  "\<exists>out' s'. handleTarball demo_npm_env ''https://gitlab.com''
        (''/api/v4/projects/'' @ ''2'' @ ''/packages/npm/p/-/p-1.tgz'') ''gitlab.com'' (new_writer None)
        demo_tarball_state = (out', s')
      \<and> w_body out' = ''abcd'' \<and> np_fetched s' = np_fetched demo_tarball_state"
  by (rule tarball_key_confuses_projects [where ?id1.0 = "''1''" and e = "demo_entry ''k1'' 4 1 None"])
    (simp_all add: demo_tarball_state_def demo_npm_env_def demo_cache_def demo_entry_def expired_def
      new_writer_def)

text \<open>The allowlist does not see where a host ends. With the default patterns, any text without a
  dot, slash or white space in front of \<open>#.gitlab.com\<close> is an allowed registry host, and the
  router fetches from the URL with that text as its authority: the rest is a fragment.\<close>

theorem allowlist_admits_fragment:
  assumes "name \<noteq> []" "CHR ''.'' \<notin> set name" "CHR ''/'' \<notin> set name" "\<forall>c\<in>set name. \<not> is_space c"
    "new_allowlist [] = Some (ns_allowlist sv)"
  shows "\<exists>scheme. resolveRegistryRequest ne sv (upstreamPathPrefix @ (name @ ''#.gitlab.com'') @ ''/p'')
      = Inr (scheme @ ''://'' @ name @ ''#.gitlab.com'', ''/p'', name @ ''#.gitlab.com'')"
proof -
  let ?h = "name @ ''#.gitlab.com''"
  have plain: "\<not> is_space c" if "c \<in> set ?h" for c
    using that assms(4) by (auto simp: is_space_def)
  then have sp: "trim_space ?h = ?h" by (rule trim_space_no_space)
  have low: "to_lower ?h = to_lower name @ ''#.gitlab.com''"
    by (simp add: to_lower_def lower_char_def)
  have dot: "CHR ''.'' \<notin> set (to_lower name)"
    using assms(2) by (auto simp: to_lower_def lower_char_def Let_def
        dest!: arg_cong [where f = "of_char :: char \<Rightarrow> nat"] split: if_splits)
  have star: "glob_atoms ''*.gitlab.com'' = NonDotPlus # map Lit ''.gitlab.com''"
    by (rule glob_atoms_star) simp
  have "rx_match (glob_atoms ''*.gitlab.com'') (to_lower name @ ''#.gitlab.com'')"
    unfolding star rx_match_nondot using dot
    by (intro exI [of _ "to_lower name @ ''#''"] exI [of _ "''.gitlab.com''"])
      (simp add: rx_match_literal)
  moreover have "trim_space ''*.gitlab.com'' = ''*.gitlab.com''"
    by (rule trim_space_no_space) (auto simp: is_space_def)
  ultimately have "registry_allowed (ns_allowlist sv) ?h"
    using new_allowlist_spec [of "[]"] assms(5) sp low by (auto simp: default_registry_patterns_def)
  moreover have "CHR ''/'' \<notin> set ?h" using assms(3) by simp
  ultimately show ?thesis
    using parseUpstreamPath_route [OF _ sp, of "''p''"] trim_suffix_slash
    by (auto simp: resolveRegistryRequest_def upstreamRegistryBaseURL_def Let_def)
qed

theorem allowlist_admits_fragment_witness:
  "\<exists>scheme. resolveRegistryRequest demo_npm_env (demo_npm\<lparr>ns_allowlist := the (new_allowlist [])\<rparr>)
      (upstreamPathPrefix @ (''localhost'' @ ''#.gitlab.com'') @ ''/p'')
      = Inr (scheme @ ''://'' @ ''localhost'' @ ''#.gitlab.com'', ''/p'', ''localhost'' @ ''#.gitlab.com'')"
proof (rule allowlist_admits_fragment)
  show "new_allowlist [] = Some (ns_allowlist (demo_npm\<lparr>ns_allowlist := the (new_allowlist [])\<rparr>))"
    using new_allowlist_spec [of "[]"] by auto
qed (simp_all add: is_space_def)

end
