(* ===== verification/Apt.thy ===== *)
theory Apt
  imports Fetch_Store Go_Http Cache_Recovery "HOL-Library.Word"
begin

text \<open>
  The APT proxy of \<^verbatim>\<open>apt/apt.go\<close>: the host allowlist, the addresses the dialer refuses, the
  lifetimes and content types by path, and the handling of one request at a time.

  Parameters: \<open>url.Parse\<close> with its error text, the quoting \<open>%q\<close> of \<open>fmt\<close>, \<open>net.ParseIP\<close> and the
  HTTP client (from URL and request headers to a response).
\<close>

section \<open>Allowed hosts\<close>

definition default_host_patterns :: "string list" where
  "default_host_patterns =
     [''*.ubuntu.com'', ''*.canonical.com'', ''deb.debian.org'', ''*.debian.org'',
      ''packages.microsoft.com'', ''download.docker.com'', ''deb.nodesource.com'', ''dl.google.com'',
      ''apt.kubernetes.io'', ''pkgs.k8s.io'', ''ppa.launchpad.net'', ''ppa.launchpadcontent.net'',
      ''apt.agentuity.sh'']"

text \<open>The loop of \<open>isAllowedHost\<close>, on a host already in lower case.\<close>

fun host_matches :: "string list \<Rightarrow> string \<Rightarrow> bool" where
  "host_matches [] host = False"
| "host_matches (p # ps) host =
     (let p = to_lower p in
      if has_prefix p ''*.''
      then (has_suffix host (drop 1 p) \<or> host = drop 2 p) \<or> host_matches ps host
      else host = p \<or> host_matches ps host)"

definition isAllowedHost :: "string list \<Rightarrow> string \<Rightarrow> bool" where
  "isAllowedHost patterns host = host_matches patterns (to_lower host)"

datatype apt_url_error = BadURL | BadScheme string | NoHost | HostDenied string

definition validateUpstreamURL :: "(string \<Rightarrow> url option) \<Rightarrow> string list \<Rightarrow> string \<Rightarrow> apt_url_error option" where
  "validateUpstreamURL url_parse patterns rawURL =
     (case url_parse rawURL of
        None \<Rightarrow> Some BadURL
      | Some parsed \<Rightarrow>
          if u_scheme parsed \<noteq> ''http'' \<and> u_scheme parsed \<noteq> ''https''
          then Some (BadScheme (u_scheme parsed))
          else if url_hostname parsed = [] then Some NoHost
          else if \<not> isAllowedHost patterns (url_hostname parsed) then Some (HostDenied (url_hostname parsed))
          else None)"

definition apt_url_error_text :: "(string \<Rightarrow> string) \<Rightarrow> string \<Rightarrow> apt_url_error \<Rightarrow> string" where
  "apt_url_error_text quoted parse_err e =
     (case e of
        BadURL \<Rightarrow> ''invalid URL: '' @ parse_err
      | BadScheme x \<Rightarrow> ''unsupported scheme '' @ quoted x
      | NoHost \<Rightarrow> ''empty host''
      | HostDenied h \<Rightarrow> ''host '' @ quoted h @ '' is not in the allowed list'')"

section \<open>Refused addresses\<close>

text \<open>
  A \<open>net.IP\<close> from \<open>net.ParseIP\<close> has 16 bytes; an IPv4 address has the prefix \<open>::ffff:\<close>, which
  \<open>To4\<close> strips.
\<close>

type_synonym ip = "8 word list"

definition v4_prefix :: ip where "v4_prefix = replicate 10 0 @ [0xff, 0xff]"

definition to4 :: "ip \<Rightarrow> ip option" where
  "to4 a = (if take 12 a = v4_prefix then Some (drop 12 a) else None)"

definition isLoopback :: "ip \<Rightarrow> bool" where
  "isLoopback a = (case to4 a of Some b \<Rightarrow> b ! 0 = 127 | None \<Rightarrow> a = replicate 15 0 @ [1])"

definition isPrivate :: "ip \<Rightarrow> bool" where
  "isPrivate a =
     (case to4 a of
        Some b \<Rightarrow> b ! 0 = 10 \<or> (b ! 0 = 172 \<and> and (b ! 1) 0xf0 = 16) \<or> (b ! 0 = 192 \<and> b ! 1 = 168)
      | None \<Rightarrow> and (a ! 0) 0xfe = 0xfc)"

definition isLinkLocalUnicast :: "ip \<Rightarrow> bool" where
  "isLinkLocalUnicast a =
     (case to4 a of
        Some b \<Rightarrow> b ! 0 = 169 \<and> b ! 1 = 254
      | None \<Rightarrow> a ! 0 = 0xfe \<and> and (a ! 1) 0xc0 = 0x80)"

definition isLinkLocalMulticast :: "ip \<Rightarrow> bool" where
  "isLinkLocalMulticast a =
     (case to4 a of
        Some b \<Rightarrow> b ! 0 = 224 \<and> b ! 1 = 0 \<and> b ! 2 = 0
      | None \<Rightarrow> a ! 0 = 0xff \<and> and (a ! 1) 0x0f = 0x02)"

definition isUnspecified :: "ip \<Rightarrow> bool" where
  "isUnspecified a = (a = v4_prefix @ [0, 0, 0, 0] \<or> a = replicate 16 0)"

definition isBlockedIP :: "ip option \<Rightarrow> bool" where
  "isBlockedIP a =
     (case a of
        None \<Rightarrow> True
      | Some a \<Rightarrow>
          isLoopback a \<or> isPrivate a \<or> isLinkLocalUnicast a \<or> isLinkLocalMulticast a \<or> isUnspecified a
          \<or> a = v4_prefix @ [169, 254, 169, 254])"

text \<open>The control hook of the dialer, with the address it is about to connect to.\<close>

datatype dial_error = BadAddress string | BlockedAddress string

definition denyPrivateIPs :: "(string \<Rightarrow> ip option) \<Rightarrow> string \<Rightarrow> dial_error option" where
  "denyPrivateIPs parse_ip address =
     (case split_host_port address of
        None \<Rightarrow> Some (BadAddress address)
      | Some (host, _) \<Rightarrow> if isBlockedIP (parse_ip host) then Some (BlockedAddress host) else None)"

section \<open>Lifetimes and content types\<close>

definition isPackageFile :: "string \<Rightarrow> bool" where
  "isPackageFile path =
     (contains path ''/pool/'' \<and> (has_suffix path ''.deb'' \<or> has_suffix path ''.udeb''))"

definition classifyTTL :: "string \<Rightarrow> int \<Rightarrow> int" where
  "classifyTTL path metadata_ttl = (if isPackageFile path then -1 else metadata_ttl)"

definition contentTypeForPath :: "string \<Rightarrow> string" where
  "contentTypeForPath path =
     (if has_suffix path ''.deb'' \<or> has_suffix path ''.udeb'' then ''application/vnd.debian.binary-package''
      else if has_suffix path ''.gz'' then ''application/gzip''
      else if has_suffix path ''.xz'' then ''application/x-xz''
      else if has_suffix path ''.bz2'' then ''application/x-bzip2''
      else if has_suffix path ''.gpg'' then ''application/pgp-signature''
      else if has_suffix path ''InRelease'' \<or> has_suffix path ''Release'' then ''text/plain; charset=utf-8''
      else ''application/octet-stream'')"

section \<open>Serving\<close>

record apt_env =
  ae_world :: world
  ae_now :: int
  ae_parse :: "string \<Rightarrow> url option"
  ae_parseError :: "string \<Rightarrow> string"
  ae_quote :: "string \<Rightarrow> string"
  ae_get :: "string \<Rightarrow> header \<Rightarrow> response option"     \<comment> \<open>the HTTP client\<close>
  ae_io :: put_io

record apt_server =
  as_allowedHosts :: "string list"
  as_metadataTTL :: int

record apt_state =
  ap_cache :: cache
  ap_fetched :: "string list"     \<comment> \<open>the URLs requested from upstreams\<close>

definition defaultAptTTL :: int where "defaultAptTTL = 3600 * 10 ^ 9"

text \<open>\<open>DefaultConfig\<close>, for the file system the directory is on, and \<open>New\<close> with the cache it creates.\<close>

record apt_config =
  ac_cacheDir :: string
  ac_maxCacheSize :: int
  ac_metadataTTL :: int
  ac_allowedHosts :: "string list"

definition apt_default_config :: "(64 word \<times> 64 word) option \<Rightarrow> string \<Rightarrow> apt_config" where
  "apt_default_config statfs cache_dir =
     \<lparr>ac_cacheDir = cache_dir, ac_maxCacheSize = defaultMaxSize statfs (f64_round (1 / 10)),
      ac_metadataTTL = defaultAptTTL, ac_allowedHosts = default_host_patterns\<rparr>"

datatype apt_new_error = AptDirRequired | AptCacheFailed start_error

definition apt_new :: "world \<Rightarrow> disk \<Rightarrow> int \<Rightarrow> startup \<Rightarrow> apt_config \<Rightarrow> apt_new_error + (apt_server \<times> cache)" where
  "apt_new w d now st cfg =
     (if ac_cacheDir cfg = [] then Inl AptDirRequired
      else case new_cache w d now st
          \<lparr>cf_dir = ac_cacheDir cfg, cf_maxSize = ac_maxCacheSize cfg, cf_ttl = 0, cf_softEvictPercent = 0\<rparr> of
        Inl e \<Rightarrow> Inl (AptCacheFailed e)
      | Inr c \<Rightarrow>
          Inr (\<lparr>as_allowedHosts = (if ac_allowedHosts cfg = [] then default_host_patterns else ac_allowedHosts cfg),
                 as_metadataTTL = (if ac_metadataTTL cfg = 0 then defaultAptTTL else ac_metadataTTL cfg)\<rparr>, c))"

definition isForwardProxy :: "request \<Rightarrow> bool" where
  "isForwardProxy r = (has_prefix (rq_requestURI r) ''http://'' \<or> has_prefix (rq_requestURI r) ''https://'')"

text \<open>The loops that copy the non-empty ones among some headers.\<close>

definition copy_headers :: "string list \<Rightarrow> header \<Rightarrow> header \<Rightarrow> header" where
  "copy_headers names src dst =
     fold (\<lambda>hdr dst. if h_get src hdr \<noteq> [] then h_set dst hdr (h_get src hdr) else dst) names dst"

definition fetchUpstream :: "apt_env \<Rightarrow> string \<Rightarrow> request \<Rightarrow> response option" where
  "fetchUpstream ae upstreamURL origReq =
     ae_get ae upstreamURL
       (copy_headers [''Accept'', ''Accept-Encoding'', ''If-Modified-Since'', ''If-None-Match'']
          (rq_header origReq) [])"

datatype apt_error = RequestFailed | StatusError int

definition apt_fetch :: "apt_env \<Rightarrow> int \<Rightarrow> response option \<Rightarrow> apt_error fetch_result" where
  "apt_fetch ae ttl reply =
     (case reply of
        None \<Rightarrow> FetchErr RequestFailed
      | Some resp \<Rightarrow>
          if 400 \<le> rs_status resp then FetchErr (StatusError (rs_status resp))
          else Fetched (rs_body resp) ttl (streamed_io (ae_io ae) (rs_body resp) (rs_bodyErr resp)))"

definition apt_fetch_error :: "apt_error cache_error \<Rightarrow> writer \<Rightarrow> writer" where
  "apt_fetch_error err out =
     (case err of
        FetchFailed (StatusError n) \<Rightarrow>
          if n = 404 then http_error ''not found'' 404 out else http_error ''bad gateway'' 502 out
      | _ \<Rightarrow> http_error ''bad gateway'' 502 out)"

text \<open>The answer: with what the fetch captured from the upstream, or as a hit.\<close>

definition apt_answer :: "response option \<Rightarrow> string \<Rightarrow> bytes \<Rightarrow> writer \<Rightarrow> writer" where
  "apt_answer captured urlPath data out =
     (let out = (case captured of
            Some resp \<Rightarrow>
              write_header (if rs_status resp = 0 then 200 else rs_status resp)
                (out\<lparr>w_header := copy_headers [''Content-Type'', ''Content-Length'', ''Last-Modified'', ''ETag'']
                   (rs_header resp) (w_header out)\<rparr>)
          | None \<Rightarrow>
              write_header 200 (set_header ''Content-Type'' (contentTypeForPath urlPath) out))
      in snd (write_bytes data out))"

definition handleProxy :: "apt_env \<Rightarrow> apt_server \<Rightarrow> request \<Rightarrow> writer \<Rightarrow> apt_state \<Rightarrow> writer \<times> apt_state" where
  "handleProxy ae sv r out s =
     (let upstreamURL = rq_requestURI r in
      case validateUpstreamURL (ae_parse ae) (as_allowedHosts sv) upstreamURL of
        Some err \<Rightarrow>
          (http_error (''forbidden: '' @ apt_url_error_text (ae_quote ae)
             (ae_parseError ae upstreamURL) err) 403 out, s)
      | None \<Rightarrow>
          (let urlPath = u_path (rq_url r);
               ttl = classifyTTL urlPath (as_metadataTTL sv);
               reply = fetchUpstream ae upstreamURL r;
               (res, called, c) = getOrFetch (ae_world ae) (ae_now ae) upstreamURL (apt_fetch ae ttl reply)
                                    (ap_cache s);
               s = s\<lparr>ap_cache := c,
                     ap_fetched := (if called then ap_fetched s @ [upstreamURL] else ap_fetched s)\<rparr>
           in case res of
                Inl err \<Rightarrow> (apt_fetch_error err out, s)
              | Inr data \<Rightarrow> (apt_answer (if called then reply else None) urlPath data out, s)))"

definition health_body :: string where
  "health_body = ''{'' @ [CHR 0x22] @ ''status'' @ [CHR 0x22] @ '':'' @ [CHR 0x22] @ ''ok'' @ [CHR 0x22] @ ''}''"

definition apt_handle :: "apt_env \<Rightarrow> apt_server \<Rightarrow> request \<Rightarrow> writer \<Rightarrow> apt_state \<Rightarrow> writer \<times> apt_state" where
  "apt_handle ae sv r out s =
     (if u_path (rq_url r) = ''/healthz'' \<and> \<not> isForwardProxy r
      then (snd (write_bytes health_body
              (write_header 200 (set_header ''Content-Type'' ''application/json'' out))), s)
      else if rq_method r \<noteq> ''GET'' then (http_error ''method not allowed'' 405 out, s)
      else if \<not> isForwardProxy r
      then (http_error ''this is an APT forward proxy; configure with Acquire::http::Proxy'' 400 out, s)
      else handleProxy ae sv r out s)"

end
