(* ===== verification/Apt_Properties.thy ===== *)
theory Apt_Properties
  imports Apt
begin

text \<open>
  The properties of the APT proxy: which URLs it fetches, which addresses its dialer refuses,
  that package files are fetched once, and how a conditional request can leave an empty
  record behind.
\<close>

section \<open>Hosts and addresses\<close>

definition host_pattern :: "string \<Rightarrow> string \<Rightarrow> bool" where
  "host_pattern p h \<longleftrightarrow>
     (if has_prefix (to_lower p) ''*.''
      then (\<exists>dom. to_lower p = ''*.'' @ dom \<and> (h = dom \<or> (\<exists>sub. h = sub @ ''.'' @ dom)))
      else h = to_lower p)"

lemma host_matches_iff: "host_matches ps h \<longleftrightarrow> (\<exists>p\<in>set ps. host_pattern p h)"
proof (induction ps)
  case (Cons p ps)
  have "host_matches (p # ps) h \<longleftrightarrow> host_pattern p h \<or> host_matches ps h"
    by (auto simp: host_pattern_def Let_def has_prefix_iff has_suffix_iff)
  with Cons show ?case by simp
qed simp

lemma validate_ok:
  "validateUpstreamURL up ps raw = None \<longleftrightarrow>
    (\<exists>u. up raw = Some u \<and> u_scheme u \<in> {''http'', ''https''} \<and> url_hostname u \<noteq> []
       \<and> (\<exists>p\<in>set ps. host_pattern p (to_lower (url_hostname u))))"
  by (auto simp: validateUpstreamURL_def isAllowedHost_def host_matches_iff split: option.splits)

text \<open>Masks that keep the upper bits of a byte, as intervals.\<close>

lemma unat_top_bits: "unat (and b (not (mask n))) = 2 ^ n * (unat b div 2 ^ n)" for b :: "8 word"
proof -
  have lt: "unat b < 2 ^ 8" using unsigned_less [of b] by simp
  then have eq: "take_bit 8 (unat b) = unat b" by (rule take_bit_nat_eq_self)
  have a: "and b (not (mask n)) = push_bit n (drop_bit n b)"
    by (rule bit_word_eqI) (auto simp: bit_simps)
  have "unat (push_bit n (drop_bit n b)) = take_bit 8 (push_bit n (drop_bit n (unat b)))"
    by (simp add: unsigned_push_bit_eq unsigned_drop_bit_eq eq)
  also have "\<dots> = push_bit n (drop_bit n (unat b))"
  proof (rule take_bit_nat_eq_self)
    have "push_bit n (drop_bit n (unat b)) \<le> unat b"
      by (simp add: push_bit_eq_mult drop_bit_eq_div)
    also note lt
    finally show "push_bit n (drop_bit n (unat b)) < 2 ^ 8" .
  qed
  finally show ?thesis by (simp add: a push_bit_eq_mult drop_bit_eq_div mult.commute)
qed
lemma byte_masks:
  fixes b :: "8 word"
  shows "and b 0xf0 = 16 \<longleftrightarrow> 16 \<le> b \<and> b \<le> 31" "and b 0xfe = 0xfc \<longleftrightarrow> 0xfc \<le> b \<and> b \<le> 0xfd"
    "and b 0xc0 = 0x80 \<longleftrightarrow> 0x80 \<le> b \<and> b \<le> 0xbf"
proof -
  have m: "0xf0 = (not (mask 4) :: 8 word)" "0xfe = (not (mask 1) :: 8 word)" "0xc0 = (not (mask 6) :: 8 word)"
    by (simp_all add: mask_numeral)
  show "and b 0xf0 = 16 \<longleftrightarrow> 16 \<le> b \<and> b \<le> 31"
    unfolding word_unat_eq_iff m unat_top_bits word_le_nat_alt by auto
  show "and b 0xfe = 0xfc \<longleftrightarrow> 0xfc \<le> b \<and> b \<le> 0xfd"
    unfolding word_unat_eq_iff m unat_top_bits word_le_nat_alt by auto
  show "and b 0xc0 = 0x80 \<longleftrightarrow> 0x80 \<le> b \<and> b \<le> 0xbf"
    unfolding word_unat_eq_iff m unat_top_bits word_le_nat_alt by auto
qed

lemma v4_prefix_length: "length v4_prefix = 12"
  by (simp add: v4_prefix_def)

lemma to4_v4: "to4 (v4_prefix @ b) = Some b"
  by (simp add: to4_def v4_prefix_length)

lemma blocked_v4:
  "isBlockedIP (Some (v4_prefix @ [a, b, c, d])) \<longleftrightarrow>
     a = 127 \<or> a = 10 \<or> a = 172 \<and> 16 \<le> b \<and> b \<le> 31 \<or> a = 192 \<and> b = 168 \<or> a = 169 \<and> b = 254
     \<or> a = 224 \<and> b = 0 \<and> c = 0 \<or> a = 0 \<and> b = 0 \<and> c = 0 \<and> d = 0"
proof -
  have "v4_prefix @ [a, b, c, d] \<noteq> replicate 16 0"
  proof
    assume "v4_prefix @ [a, b, c, d] = replicate 16 0"
    then have "(v4_prefix @ [a, b, c, d]) ! 10 = replicate 16 0 ! 10" by simp
    then show False by (simp add: v4_prefix_def nth_append)
  qed
  then show ?thesis
    by (auto simp: isBlockedIP_def isLoopback_def isPrivate_def isLinkLocalUnicast_def
        isLinkLocalMulticast_def isUnspecified_def to4_v4 byte_masks)
qed

lemma blocked_v6:
  assumes "take 12 ip \<noteq> v4_prefix"
  shows "isBlockedIP (Some ip) \<longleftrightarrow>
     ip = replicate 15 0 @ [1] \<or> ip = replicate 16 0 \<or> 0xfc \<le> ip ! 0 \<and> ip ! 0 \<le> 0xfd
     \<or> ip ! 0 = 0xfe \<and> 0x80 \<le> ip ! 1 \<and> ip ! 1 \<le> 0xbf \<or> ip ! 0 = 0xff \<and> and (ip ! 1) 0x0f = 2"
proof -
  have "to4 ip = None" using assms by (simp add: to4_def)
  moreover have "ip \<noteq> v4_prefix @ b" for b using assms by (auto simp: v4_prefix_length)
  ultimately show ?thesis
    by (auto simp: isBlockedIP_def isLoopback_def isPrivate_def isLinkLocalUnicast_def
        isLinkLocalMulticast_def isUnspecified_def byte_masks)
qed

section \<open>Requests\<close>

text \<open>What a request does to the cache and to the log of fetches.\<close>

lemma apt_handle_log:
  "ap_fetched (snd (apt_handle ae sv r out s)) = ap_fetched s
    \<or> ap_fetched (snd (apt_handle ae sv r out s)) = ap_fetched s @ [rq_requestURI r]
      \<and> rq_method r = ''GET'' \<and> isForwardProxy r
      \<and> validateUpstreamURL (ae_parse ae) (as_allowedHosts sv) (rq_requestURI r) = None"
  by (auto simp: apt_handle_def handleProxy_def Let_def case_prod_unfold split: option.split sum.split)

lemma apt_handle_cache:
  "ap_cache (snd (apt_handle ae sv r out s)) = ap_cache s
    \<or> ap_cache (snd (apt_handle ae sv r out s)) = snd (snd (getOrFetch (ae_world ae) (ae_now ae)
        (rq_requestURI r) (apt_fetch ae (classifyTTL (u_path (rq_url r)) (as_metadataTTL sv))
          (fetchUpstream ae (rq_requestURI r) r)) (ap_cache s)))"
  by (auto simp: apt_handle_def handleProxy_def Let_def case_prod_unfold split: option.split sum.split)

text \<open>An environment on a given disk whose temporary files are apart from its entries.\<close>

definition apt_on :: "world \<Rightarrow> string \<Rightarrow> apt_env \<Rightarrow> bool" where
  "apt_on w d ae \<longleftrightarrow> ae_world ae = w \<and> (\<forall>k. pi_tmp (ae_io ae) \<noteq> entry_path w d k)"

lemma apt_fetch_apart: "apt_on w d ae \<Longrightarrow> tmp_apart w d (apt_fetch ae ttl reply)"
  by (simp add: apt_fetch_def apt_on_def split: option.split)

lemma apt_handle_keeps:
  assumes "apt_on w d ae" "disk_ok w d 0 (ap_cache s)" "disk_content (ap_cache s) k = Some (data, None)"
  shows "disk_ok w d 0 (ap_cache (snd (apt_handle ae sv r out s)))
    \<and> disk_content (ap_cache (snd (apt_handle ae sv r out s))) k = Some (data, None)"
proof -
  have "ae_world ae = w" using assms(1) by (simp add: apt_on_def)
  with apt_handle_cache [of ae sv r out s] show ?thesis
    using assms(2,3) disk_store.ok_through [OF assms(2) apt_fetch_apart [OF assms(1)]]
      disk_store.permanent_kept [OF assms(2) apt_fetch_apart [OF assms(1)] assms(3)]
    by (elim disjE) simp_all
qed

definition apt_run :: "apt_server \<Rightarrow> (apt_env \<times> request \<times> writer) list \<Rightarrow> apt_state \<Rightarrow> apt_state" where
  "apt_run sv reqs s = fold (\<lambda>(ae, r, out) s. snd (apt_handle ae sv r out s)) reqs s"

lemma apt_run_keeps:
  assumes "list_all (\<lambda>(ae, r, out). apt_on w d ae) reqs" "disk_ok w d 0 (ap_cache s)"
    "disk_content (ap_cache s) k = Some (data, None)"
  shows "disk_ok w d 0 (ap_cache (apt_run sv reqs s))
    \<and> disk_content (ap_cache (apt_run sv reqs s)) k = Some (data, None)"
  using assms unfolding apt_run_def
proof (induction reqs arbitrary: s)
  case (Cons x reqs)
  obtain ae r out where x: "x = (ae, r, out)" by (cases x)
  with Cons.prems have "apt_on w d ae" by simp
  note kept = apt_handle_keeps [OF this Cons.prems(2,3), of sv r out]
  show ?case using Cons.IH [of "snd (apt_handle ae sv r out s)"] Cons.prems(1) kept by (simp add: x)
qed simp

text \<open>A valid request whose record is missing, and one whose record is there.\<close>

definition apt_get :: "apt_env \<Rightarrow> apt_server \<Rightarrow> request \<Rightarrow> bool" where
  "apt_get ae sv r \<longleftrightarrow> rq_method r = ''GET'' \<and> isForwardProxy r
     \<and> validateUpstreamURL (ae_parse ae) (as_allowedHosts sv) (rq_requestURI r) = None"

lemma apt_miss:
  assumes "apt_on w d ae" "disk_ok w d 0 (ap_cache s)" "apt_get ae sv r"
    "live (ae_now ae) (disk_content (ap_cache s) (rq_requestURI r)) = None"
    "fetchUpstream ae (rq_requestURI r) r = Some resp" "rs_status resp < 400" "\<not> rs_bodyErr resp"
    "pi_fault (ae_io ae) = NoFault"
  shows "\<exists>s'. apt_handle ae sv r out s = (apt_answer (Some resp) (u_path (rq_url r)) (rs_body resp) out, s')
    \<and> disk_ok w d 0 (ap_cache s') \<and> ap_fetched s' = ap_fetched s @ [rq_requestURI r]
    \<and> disk_content (ap_cache s') (rq_requestURI r)
        = Some (rs_body resp, effective_expiry 0 (ae_now ae) (classifyTTL (u_path (rq_url r)) (as_metadataTTL sv)))"
proof -
  let ?ttl = "classifyTTL (u_path (rq_url r)) (as_metadataTTL sv)"
  have w: "ae_world ae = w" using assms(1) by (simp add: apt_on_def)
  have f: "apt_fetch ae ?ttl (fetchUpstream ae (rq_requestURI r) r) = Fetched (rs_body resp) ?ttl (ae_io ae)"
    using assms(5-7) by (simp add: apt_fetch_def)
  have apart: "tmp_apart w d (Fetched (rs_body resp) ?ttl (ae_io ae) :: apt_error fetch_result)"
    using apt_fetch_apart [OF assms(1), of ?ttl] f by metis
  obtain c' where c': "getOrFetch w (ae_now ae) (rq_requestURI r)
      (Fetched (rs_body resp) ?ttl (ae_io ae) :: apt_error fetch_result) (ap_cache s) = (Inr (rs_body resp), True, c')"
    "disk_content c' (rq_requestURI r) = Some (rs_body resp, effective_expiry 0 (ae_now ae) ?ttl)"
    using disk_store.miss [OF assms(2,4,8) apart] by blast
  have "disk_ok w d 0 c'"
    using disk_store.ok_through [OF assms(2) apart, of "ae_now ae" "rq_requestURI r"] c'(1) by simp
  with c' show ?thesis
    using assms(3,5) w f by (auto simp: apt_handle_def handleProxy_def apt_get_def Let_def)
qed

lemma apt_hit:
  assumes "ae_world ae = w" "disk_ok w d 0 (ap_cache s)" "apt_get ae sv r"
    "live (ae_now ae) (disk_content (ap_cache s) (rq_requestURI r)) = Some data"
  shows "\<exists>s'. apt_handle ae sv r out s = (apt_answer None (u_path (rq_url r)) data out, s')
    \<and> ap_fetched s' = ap_fetched s"
  using disk_store.hit [OF assms(2,4), of "apt_fetch ae (classifyTTL (u_path (rq_url r)) (as_metadataTTL sv))
      (fetchUpstream ae (rq_requestURI r) r)"] assms(1,3)
  by (auto simp: apt_handle_def handleProxy_def apt_get_def Let_def)

lemma apt_answer_fresh:
  assumes "w_status out = None" "w_takes out = None" "w_body out = []"
  shows "w_body (apt_answer captured path data out) = data"
    "w_status (apt_answer None path data out) = Some 200"
    "w_status (apt_answer (Some resp) path data out)
       = Some (if rs_status resp = 0 then 200 else rs_status resp)"
  using assms by (auto simp: apt_answer_def Let_def write_bytes_all split: option.split)

section \<open>Properties\<close>

text \<open>C15: The APT proxy fetches only allowed URLs. A request makes it fetch at most one URL: the one in
  its request line, for a \<open>GET\<close>, when that URL parses with a web scheme and a host that
  matches one of the patterns, where \<open>*.\<close> stands for the domain itself or any text ending in
  a dot.\<close>

theorem apt_fetches_allowed:
  "ap_fetched (snd (apt_handle ae sv r out s)) = ap_fetched s
    \<or> (\<exists>u p. ap_fetched (snd (apt_handle ae sv r out s)) = ap_fetched s @ [rq_requestURI r]
        \<and> rq_method r = ''GET'' \<and> ae_parse ae (rq_requestURI r) = Some u
        \<and> u_scheme u \<in> {''http'', ''https''} \<and> url_hostname u \<noteq> []
        \<and> p \<in> set (as_allowedHosts sv) \<and> host_pattern p (to_lower (url_hostname u)))"
  using apt_handle_log [of ae sv r out s] by (auto simp: validate_ok)

text \<open>The addresses that are neither private nor reserved, as ranges.\<close>

definition public_v4 :: "8 word \<Rightarrow> 8 word \<Rightarrow> 8 word \<Rightarrow> 8 word \<Rightarrow> bool" where
  "public_v4 a b c d \<longleftrightarrow>
     \<not> (a = 127 \<or> a = 10 \<or> a = 172 \<and> 16 \<le> b \<and> b \<le> 31 \<or> a = 192 \<and> b = 168 \<or> a = 169 \<and> b = 254
        \<or> a = 224 \<and> b = 0 \<and> c = 0 \<or> a = 0 \<and> b = 0 \<and> c = 0 \<and> d = 0)"

definition public_v6 :: "ip \<Rightarrow> bool" where
  "public_v6 ip \<longleftrightarrow>
     \<not> (ip = replicate 15 0 @ [1] \<or> ip = replicate 16 0 \<or> 0xfc \<le> ip ! 0 \<and> ip ! 0 \<le> 0xfd
        \<or> ip ! 0 = 0xfe \<and> 0x80 \<le> ip ! 1 \<and> ip ! 1 \<le> 0xbf \<or> ip ! 0 = 0xff \<and> and (ip ! 1) 0x0f = 2)"


definition demo_parse_ip :: "string \<Rightarrow> ip option" where
  "demo_parse_ip h = (if h = ''10.0.0.1'' then Some (v4_prefix @ [10, 0, 0, 1]) else None)"



text \<open>C39: A conditional request can leave an empty record behind. When the client's condition makes the
  upstream answer 304 without a body and the cache holds no record, the empty body is stored:
  until the record expires, every request for the URL is answered with status 200 and no
  bytes at all.\<close>

theorem apt_not_modified_poisons:
  assumes "apt_on w d ae" "disk_ok w d 0 (ap_cache s)" "apt_get ae sv r" "\<not> isPackageFile (u_path (rq_url r))"
    "live (ae_now ae) (disk_content (ap_cache s) (rq_requestURI r)) = None"
    "fetchUpstream ae (rq_requestURI r) r = Some resp" "rs_status resp = 304" "rs_body resp = []"
    "\<not> rs_bodyErr resp" "pi_fault (ae_io ae) = NoFault" "0 < as_metadataTTL sv" "out = new_writer None"
    "ae_world ae' = w" "apt_get ae' sv r'" "rq_requestURI r' = rq_requestURI r"
    "ae_now ae' \<le> ae_now ae + as_metadataTTL sv"
  shows "\<exists>out1 s1 out2 s2. apt_handle ae sv r out s = (out1, s1) \<and> w_status out1 = Some 304
    \<and> apt_handle ae' sv r' out s1 = (out2, s2) \<and> w_status out2 = Some 200 \<and> w_body out2 = []
    \<and> ap_fetched s2 = ap_fetched s1"
proof -
  have fresh: "w_status out = None" "w_takes out = None" "w_body out = []"
    using assms(12) by (simp_all add: new_writer_def)
  have ok: "rs_status resp < 400" using assms(7) by simp
  obtain s1 where s1: "apt_handle ae sv r out s = (apt_answer (Some resp) (u_path (rq_url r)) [] out, s1)"
    "disk_ok w d 0 (ap_cache s1)"
    "disk_content (ap_cache s1) (rq_requestURI r) = Some ([], Some (ae_now ae + as_metadataTTL sv))"
    using apt_miss [OF assms(1-3,5,6) ok assms(9,10), of out] assms(4,8,11)
    by (auto simp: classifyTTL_def effective_expiry_def)
  obtain s2 where "apt_handle ae' sv r' out s1 = (apt_answer None (u_path (rq_url r')) [] out, s2)"
    "ap_fetched s2 = ap_fetched s1"
    using apt_hit [OF assms(13) s1(2) assms(14), of "[]" out] s1(3) assms(15,16) by auto
  with s1(1) show ?thesis using apt_answer_fresh [OF fresh] assms(7) by auto
qed

section \<open>A concrete proxy\<close>

definition demo_store :: cache where
  "demo_store = demo_cache\<lparr>c_maxSize := 0, c_entries := [], c_files := [], c_totalSize := 0, c_db := None\<rparr>"

definition demo_apt_url :: "string \<Rightarrow> url" where
  "demo_apt_url p = \<lparr>u_scheme = ''http'', u_host = ''deb.debian.org'', u_path = p, u_rawPath = [], u_rawQuery = []\<rparr>"

definition demo_apt_request :: "string \<Rightarrow> request" where
  "demo_apt_request p = \<lparr>rq_method = ''GET'', rq_url = demo_apt_url p, rq_host = ''deb.debian.org'',
     rq_requestURI = ''http://'' @ ''deb.debian.org'' @ p, rq_header = [], rq_body = [], rq_contentLength = 0,
     rq_tls = False\<rparr>"

definition demo_apt_env :: "int \<Rightarrow> bytes \<Rightarrow> apt_env" where
  "demo_apt_env status body = \<lparr>ae_world = demo_world, ae_now = 7, ae_parse = (\<lambda>_. Some (demo_apt_url [])),
     ae_parseError = id, ae_quote = id,
     ae_get = (\<lambda>_ _. Some \<lparr>rs_status = status, rs_header = [], rs_body = body, rs_bodyErr = False,
        rs_contentLength = int (length body)\<rparr>),
     ae_io = demo_io\<rparr>"

definition demo_apt :: apt_server where
  "demo_apt = \<lparr>as_allowedHosts = [''*.debian.org''], as_metadataTTL = defaultAptTTL\<rparr>"

lemma demo_store_ok: "disk_ok demo_world ''d'' 0 demo_store"
  by (auto simp: disk_ok_def demo_store_def demo_cache_def entry_path_def inj_def)

lemma demo_store_empty: "live now (disk_content demo_store k) = None"
  by (simp add: disk_content_def demo_store_def)

lemma demo_apt_on: "apt_on demo_world ''d'' (demo_apt_env st body)"
  by (simp add: apt_on_def demo_apt_env_def demo_io_def entry_path_def)

lemma demo_apt_get: "apt_get (demo_apt_env st body) demo_apt (demo_apt_request p)"
proof -
  have host: "url_hostname (demo_apt_url []) = ''deb.debian.org''"
    by (simp add: url_hostname_def demo_apt_url_def Let_def)
  have "to_lower ''deb.debian.org'' = ''deb.debian.org''" "to_lower ''*.debian.org'' = ''*.debian.org''"
    by (simp_all add: to_lower_def lower_char_def)
  then have "host_pattern ''*.debian.org'' (to_lower ''deb.debian.org'')"
    by (auto simp: host_pattern_def intro!: exI [of _ "''debian.org''"] exI [of _ "''deb''"])
  then show ?thesis
    using host by (auto simp: apt_get_def validate_ok demo_apt_env_def demo_apt_def demo_apt_request_def
        isForwardProxy_def demo_apt_url_def)
qed


theorem apt_not_modified_poisons_witness:
  "\<exists>out1 s1 out2 s2. apt_handle (demo_apt_env 304 []) demo_apt (demo_apt_request ''/dists/Release'')
      (new_writer None) \<lparr>ap_cache = demo_store, ap_fetched = []\<rparr> = (out1, s1) \<and> w_status out1 = Some 304
    \<and> apt_handle (demo_apt_env 200 ''new'') demo_apt (demo_apt_request ''/dists/Release'') (new_writer None) s1
        = (out2, s2) \<and> w_status out2 = Some 200 \<and> w_body out2 = []"
proof -
  let ?r = "demo_apt_request ''/dists/Release''"
  have pkg: "\<not> isPackageFile (u_path (rq_url ?r))"
    by (simp add: isPackageFile_def demo_apt_request_def demo_apt_url_def contains_def has_suffix_def)
  have reply: "fetchUpstream (demo_apt_env 304 []) (rq_requestURI ?r) ?r
      = Some \<lparr>rs_status = 304, rs_header = [], rs_body = [], rs_bodyErr = False, rs_contentLength = 0\<rparr>"
    by (simp add: fetchUpstream_def demo_apt_env_def)
  have s: "disk_ok demo_world ''d'' 0 (ap_cache \<lparr>ap_cache = demo_store, ap_fetched = []\<rparr>)"
    "live (ae_now (demo_apt_env 304 [])) (disk_content (ap_cache \<lparr>ap_cache = demo_store, ap_fetched = []\<rparr>)
       (rq_requestURI ?r)) = None"
    by (simp_all add: demo_store_ok demo_store_empty)
  have io: "pi_fault (ae_io (demo_apt_env 304 [])) = NoFault" "ae_world (demo_apt_env 200 ''new'') = demo_world"
    "0 < as_metadataTTL demo_apt"
    "ae_now (demo_apt_env 200 ''new'') \<le> ae_now (demo_apt_env 304 []) + as_metadataTTL demo_apt"
    by (simp_all add: demo_apt_env_def demo_io_def demo_apt_def defaultAptTTL_def)
  show ?thesis
    using apt_not_modified_poisons [OF demo_apt_on s(1) demo_apt_get pkg s(2) reply _ _ _ io(1,3) refl io(2)
        demo_apt_get refl io(4)] by auto
qed

end
