(* ===== verification/Git_Keys.thy ===== *)
theory Git_Keys
  imports Go_Http Disk_Cache
begin

text \<open>
  What the Git proxy reads off a request: \<^verbatim>\<open>git/detect.go\<close> (which requests are Git's, the
  repository's path, the protocol version), \<^verbatim>\<open>git/cache.go\<close> (the keys of the two caches), and
  from \<^verbatim>\<open>git/handler.go\<close> and \<^verbatim>\<open>git/git.go\<close> the host, the header filter, the upstream's
  scheme and the redirect policy. SHA-256 in hexadecimal is a parameter.
\<close>

section \<open>Requests\<close>

definition isGitRequest :: "request \<Rightarrow> bool" where
  "isGitRequest r =
     (let path = u_path (rq_url r) in
      if has_suffix path ''/info/refs''
      then (let svc = q_get (url_query (rq_url r)) ''service''
            in svc = ''git-upload-pack'' \<or> svc = ''git-receive-pack'')
      else if has_suffix path ''/git-upload-pack'' \<or> has_suffix path ''/git-receive-pack'' then True
      else (let ct = h_get (rq_header r) ''Content-Type''
            in ct = ''application/x-git-upload-pack-request'' \<or> ct = ''application/x-git-receive-pack-request''))"

definition git_suffixes :: "string list" where
  "git_suffixes = [''/info/refs'', ''/git-upload-pack'', ''/git-receive-pack'']"

text \<open>The loop of \<open>parseRepoPath\<close>.\<close>

fun cut_suffixes :: "string list \<Rightarrow> string \<Rightarrow> string" where
  "cut_suffixes [] urlPath = urlPath"
| "cut_suffixes (x # xs) urlPath =
     (case last_index urlPath x of Some idx \<Rightarrow> take idx urlPath | None \<Rightarrow> cut_suffixes xs urlPath)"

definition parseRepoPath :: "string \<Rightarrow> string" where
  "parseRepoPath urlPath = cut_suffixes git_suffixes urlPath"

definition isProtocolV2 :: "request \<Rightarrow> bool" where
  "isProtocolV2 r = contains (h_get (rq_header r) ''Git-Protocol'') ''version=2''"

definition isLFSRequest :: "request \<Rightarrow> bool" where
  "isLFSRequest r = contains (u_path (rq_url r)) ''/info/lfs/''"

definition extractHost :: "request \<Rightarrow> string" where
  "extractHost r = (case split_host_port (rq_host r) of Some (h, _) \<Rightarrow> h | None \<Rightarrow> rq_host r)"

section \<open>Cache keys\<close>

definition refsFingerprint :: "(string \<Rightarrow> string) \<Rightarrow> bytes \<Rightarrow> string" where
  "refsFingerprint sha body = take 40 (sha body)"

definition refsCacheKey :: "string \<Rightarrow> string \<Rightarrow> string \<Rightarrow> string" where
  "refsCacheKey host repoPath auth = ''refs:'' @ host @ '':'' @ repoPath @ '':'' @ auth @ '':upload-pack''"

definition lsRefsCacheKey :: "string \<Rightarrow> string \<Rightarrow> string \<Rightarrow> string" where
  "lsRefsCacheKey host repoPath auth = ''lsrefs:'' @ host @ '':'' @ repoPath @ '':'' @ auth"

definition packCacheKey :: "string \<Rightarrow> string \<Rightarrow> string \<Rightarrow> string \<Rightarrow> string" where
  "packCacheKey host repoPath auth fingerprint =
     ''pack:'' @ host @ '':'' @ repoPath @ '':'' @ auth @ '':'' @ fingerprint"

definition authScopeFromRequest :: "(string \<Rightarrow> string) \<Rightarrow> request \<Rightarrow> string" where
  "authScopeFromRequest sha r =
     (let auth = h_get (rq_header r) ''Authorization''
      in if auth = [] then ''anon'' else take 20 (sha auth))"

definition repoRefsPrefix :: "string \<Rightarrow> string \<Rightarrow> string" where
  "repoRefsPrefix host repoPath = ''refs:'' @ host @ '':'' @ repoPath @ '':''"

definition repoLsRefsPrefix :: "string \<Rightarrow> string \<Rightarrow> string" where
  "repoLsRefsPrefix host repoPath = ''lsrefs:'' @ host @ '':'' @ repoPath @ '':''"

definition cacheKeyHash :: "(string \<Rightarrow> string) \<Rightarrow> string \<Rightarrow> string" where
  "cacheKeyHash sha key = sha key"

text \<open>\<open>fingerprintFromFile\<close>; \<open>None\<close> is a read error.\<close>

definition fingerprintFromFile :: "world \<Rightarrow> string \<Rightarrow> cache \<Rightarrow> string option" where
  "fingerprintFromFile w path c = map_option (refsFingerprint (hashKey w)) (os_open w path c)"

section \<open>Headers\<close>

definition staticHopByHop :: "string list" where
  "staticHopByHop =
     [''connection'', ''keep-alive'', ''proxy-authenticate'', ''proxy-authorization'', ''te'', ''trailer'',
      ''transfer-encoding'', ''upgrade'']"

definition nominated :: "header \<Rightarrow> string list" where
  "nominated src =
     filter (\<lambda>name. name \<noteq> []) (map (\<lambda>part. to_lower (trim_space part))
       (split_on (CHR '','') (h_get src ''Connection'')))"

definition skip_set :: "header \<Rightarrow> string list" where
  "skip_set src =
     staticHopByHop @ (if h_get src ''Connection'' \<noteq> [] then nominated src else [])"

definition add_values :: "string \<Rightarrow> string list \<Rightarrow> header \<Rightarrow> header" where
  "add_values key values dst = fold (\<lambda>value dst. h_add dst key value) values dst"

definition copyFilteredHeaders :: "header \<Rightarrow> header \<Rightarrow> header" where
  "copyFilteredHeaders dst src =
     fold (\<lambda>(key, values) dst. if to_lower key \<in> set (skip_set src) then dst else add_values key values dst) src dst"

section \<open>Origins and redirects\<close>

definition url_port :: "url \<Rightarrow> string" where
  "url_port u =
     (case last_index (u_host u) '':'' of
        Some i \<Rightarrow> if valid_optional_port (drop i (u_host u)) then drop (i + 1) (u_host u) else []
      | None \<Rightarrow> [])"

definition effectivePort :: "url \<Rightarrow> string" where
  "effectivePort u =
     (if url_port u \<noteq> [] then url_port u
      else if to_lower (u_scheme u) = ''https'' then ''443''
      else if to_lower (u_scheme u) = ''http'' then ''80''
      else [])"

definition sameOrigin :: "url \<Rightarrow> url \<Rightarrow> bool" where
  "sameOrigin a b =
     (equal_fold (u_scheme a) (u_scheme b) \<and> equal_fold (url_hostname a) (url_hostname b)
      \<and> effectivePort a = effectivePort b)"

text \<open>
  The redirect policy: \<open>None\<close> stops at the last response, otherwise the headers of the next
  request. The list holds the requests made so far, as URL and headers, the first one first.
\<close>

definition reInjectAuthOnRedirect :: "url \<Rightarrow> header \<Rightarrow> (url \<times> header) list \<Rightarrow> header option" where
  "reInjectAuthOnRedirect u hdr via =
     (if 5 < length via then None
      else case via of
        [] \<Rightarrow> Some hdr
      | (u0, h0) # _ \<Rightarrow>
          Some (if h_get h0 ''Authorization'' \<noteq> [] \<and> sameOrigin u u0
                then h_set hdr ''Authorization'' (h_get h0 ''Authorization'') else hdr))"

end
