(* ===== verification/Git_Config.thy ===== *)
theory Git_Config
  imports Git_Keys Cache_Recovery
begin

text \<open>
  The configuration of the Git proxy: defaults, checks and construction of \<^verbatim>\<open>git/git.go\<close>, and
  the generated Git configuration files of \<^verbatim>\<open>git/gitconfig.go\<close> with the checks of the
  credentials. Parameters are the path functions of \<open>filepath\<close>, whether the directories can
  be created and written, and the quoting \<open>%q\<close> of \<open>fmt\<close>.
\<close>

section \<open>Configuration\<close>

record cache_config =
  cc_dir :: string
  cc_maxSize :: int

record git_config =
  gc_refsCache :: cache_config
  gc_packsCache :: cache_config
  gc_refsTTL :: int
  gc_packsTTL :: int
  gc_maxUpload :: int
  gc_maxReceive :: int
  gc_maxPackEntry :: int
  gc_allowedHosts :: "string list"
  gc_upstreamScheme :: string

definition defaultRefsTTL :: int where "defaultRefsTTL = 15 * 10 ^ 9"
definition defaultPacksTTL :: int where "defaultPacksTTL = 72 * 3600 * 10 ^ 9"
definition defaultMaxUpload :: int where "defaultMaxUpload = 4 * 2 ^ 20"
definition defaultMaxReceive :: int where "defaultMaxReceive = 500 * 2 ^ 20"

text \<open>\<open>DefaultConfig\<close>; \<open>join_path\<close> is \<open>filepath.Join\<close>, \<open>statfs\<close> what the system says of a directory.\<close>

definition git_default_config ::
    "(string \<Rightarrow> string \<Rightarrow> string) \<Rightarrow> (string \<Rightarrow> (64 word \<times> 64 word) option) \<Rightarrow> string \<Rightarrow> git_config" where
  "git_default_config join_path statfs cache_dir =
     (let refsDir = join_path cache_dir ''refs''; packsDir = join_path cache_dir ''packs'' in
      \<lparr>gc_refsCache = \<lparr>cc_dir = refsDir, cc_maxSize = defaultMaxSize (statfs refsDir) (f64_round (2 / 100))\<rparr>,
       gc_packsCache = \<lparr>cc_dir = packsDir, cc_maxSize = defaultMaxSize (statfs packsDir) (f64_round (20 / 100))\<rparr>,
       gc_refsTTL = defaultRefsTTL, gc_packsTTL = defaultPacksTTL, gc_maxUpload = defaultMaxUpload,
       gc_maxReceive = defaultMaxReceive, gc_maxPackEntry = 0, gc_allowedHosts = [], gc_upstreamScheme = []\<rparr>)"

definition validateUpstreamScheme :: "string \<Rightarrow> bool" where
  "validateUpstreamScheme scheme = (scheme = [] \<or> scheme = ''http'' \<or> scheme = ''https'')"

record path_env =
  pe_abs :: "string \<Rightarrow> string option"            \<comment> \<open>\<open>filepath.Abs\<close>\<close>
  pe_evalSymlinks :: "string \<Rightarrow> string option"
  pe_clean :: "string \<Rightarrow> string"
  pe_mkdir :: "string \<Rightarrow> bool"                   \<comment> \<open>\<open>os.MkdirAll\<close> succeeds\<close>
  pe_write :: "string \<Rightarrow> bool"                   \<comment> \<open>writing the test file succeeds\<close>

definition canonicalizePath :: "path_env \<Rightarrow> string \<Rightarrow> string" where
  "canonicalizePath pe p =
     (case pe_abs pe p of
        None \<Rightarrow> pe_clean pe p
      | Some a \<Rightarrow> (case pe_evalSymlinks pe a of None \<Rightarrow> pe_clean pe a | Some resolved \<Rightarrow> resolved))"

datatype git_config_error =
    RefsDirEmpty | PacksDirEmpty | SameDirs | DirFailed string | DirNotWritable string
  | RefsTTLNegative | RefsTTLTooLong | MaxUploadNegative | MaxReceiveNegative | MaxPackNegative
  | SchemeInvalid string | AllowedHostEmpty nat | AllowedHostNotPlain nat string

fun check_dirs :: "path_env \<Rightarrow> string list \<Rightarrow> git_config_error option" where
  "check_dirs pe [] = None"
| "check_dirs pe (dir # dirs) =
     (if \<not> pe_mkdir pe dir then Some (DirFailed dir)
      else if \<not> pe_write pe dir then Some (DirNotWritable dir)
      else check_dirs pe dirs)"

text \<open>\<open>strings.ContainsAny(host, "/:")\<close>\<close>

definition plain_host :: "string \<Rightarrow> bool" where
  "plain_host host = (\<not> contains host ''/'' \<and> \<not> contains host '':'')"

fun check_hosts :: "nat \<Rightarrow> string list \<Rightarrow> git_config_error option" where
  "check_hosts i [] = None"
| "check_hosts i (host # hosts) =
     (if trim_space host = [] then Some (AllowedHostEmpty i)
      else if \<not> plain_host host then Some (AllowedHostNotPlain i host)
      else check_hosts (Suc i) hosts)"

definition git_validate :: "path_env \<Rightarrow> git_config \<Rightarrow> git_config_error option" where
  "git_validate pe cfg =
     (let refsDir = cc_dir (gc_refsCache cfg); packsDir = cc_dir (gc_packsCache cfg) in
      if refsDir = [] then Some RefsDirEmpty
      else if packsDir = [] then Some PacksDirEmpty
      else if canonicalizePath pe refsDir = canonicalizePath pe packsDir then Some SameDirs
      else case check_dirs pe [refsDir, packsDir] of
        Some e \<Rightarrow> Some e
      | None \<Rightarrow>
          if gc_refsTTL cfg < 0 then Some RefsTTLNegative
          else if 24 * 3600 * 10 ^ 9 < gc_refsTTL cfg then Some RefsTTLTooLong
          else if gc_maxUpload cfg < 0 then Some MaxUploadNegative
          else if gc_maxReceive cfg < 0 then Some MaxReceiveNegative
          else if gc_maxPackEntry cfg < 0 then Some MaxPackNegative
          else if \<not> validateUpstreamScheme (gc_upstreamScheme cfg) then Some (SchemeInvalid (gc_upstreamScheme cfg))
          else check_hosts 0 (gc_allowedHosts cfg))"

text \<open>\<open>New\<close>: the configuration it keeps and the two caches; each start finds its own directory.\<close>

datatype git_new_error = BadUpstreamScheme string | RefsCacheFailed start_error | PacksCacheFailed start_error

definition git_defaults :: "git_config \<Rightarrow> git_config" where
  "git_defaults cfg =
     (let cfg = (if gc_refsTTL cfg = 0 then cfg\<lparr>gc_refsTTL := defaultRefsTTL\<rparr> else cfg);
          cfg = (if gc_maxUpload cfg = 0 then cfg\<lparr>gc_maxUpload := defaultMaxUpload\<rparr> else cfg);
          cfg = (if gc_maxReceive cfg = 0 then cfg\<lparr>gc_maxReceive := defaultMaxReceive\<rparr> else cfg)
      in if gc_packsTTL cfg = 0 then cfg\<lparr>gc_packsTTL := defaultPacksTTL\<rparr> else cfg)"

definition git_new :: "world \<Rightarrow> disk \<Rightarrow> int \<Rightarrow> startup \<Rightarrow> startup \<Rightarrow> git_config \<Rightarrow>
    git_new_error + (git_config \<times> cache \<times> cache)" where
  "git_new w d now refs_start packs_start cfg =
     (if \<not> validateUpstreamScheme (gc_upstreamScheme cfg) then Inl (BadUpstreamScheme (gc_upstreamScheme cfg))
      else
        let cfg = git_defaults cfg in
        case new_cache w d now refs_start
               \<lparr>cf_dir = cc_dir (gc_refsCache cfg), cf_maxSize = cc_maxSize (gc_refsCache cfg),
                cf_ttl = gc_refsTTL cfg, cf_softEvictPercent = 0\<rparr> of
          Inl e \<Rightarrow> Inl (RefsCacheFailed e)
        | Inr refs \<Rightarrow>
            (case new_cache w d now packs_start
                 \<lparr>cf_dir = cc_dir (gc_packsCache cfg), cf_maxSize = cc_maxSize (gc_packsCache cfg),
                  cf_ttl = max (gc_packsTTL cfg) 0, cf_softEvictPercent = f64_round (8 / 10)\<rparr> of
               Inl e \<Rightarrow> Inl (PacksCacheFailed e)
             | Inr packs \<Rightarrow> Inr (cfg, refs, packs)))"

section \<open>Credentials\<close>

record host_credential =
  hc_host :: string
  hc_envVar :: string
  hc_username :: string
  hc_sshRewrite :: bool

datatype credential_error =
    CredHostEmpty nat | CredHostNotPlain nat string | CredHostDuplicate nat nat string
  | CredEnvEmpty nat | CredEnvInvalid nat string

text \<open>\<open>^[A-Za-z_][A-Za-z0-9_]*$\<close>\<close>

definition env_var_name :: "string \<Rightarrow> bool" where
  "env_var_name s =
     (case s of
        [] \<Rightarrow> False
      | c # cs \<Rightarrow> (is_upper c \<or> is_lower c \<or> c = CHR ''_'')
          \<and> list_all (\<lambda>c. is_alnum c \<or> c = CHR ''_'') cs)"

fun check_credentials :: "nat \<Rightarrow> (string \<times> nat) list \<Rightarrow> host_credential list \<Rightarrow> credential_error option" where
  "check_credentials i seen [] = None"
| "check_credentials i seen (cred # creds) =
     (if trim_space (hc_host cred) = [] then Some (CredHostEmpty i)
      else if \<not> plain_host (hc_host cred) then Some (CredHostNotPlain i (hc_host cred))
      else case map_of seen (to_lower (hc_host cred)) of
        Some prev \<Rightarrow> Some (CredHostDuplicate i prev (hc_host cred))
      | None \<Rightarrow>
          if trim_space (hc_envVar cred) = [] then Some (CredEnvEmpty i)
          else if \<not> env_var_name (hc_envVar cred) then Some (CredEnvInvalid i (hc_envVar cred))
          else check_credentials (Suc i) ((to_lower (hc_host cred), i) # seen) creds)"

text \<open>\<open>Validate\<close> of the credentials; \<open>None\<close> in the argument is the nil pointer.\<close>

definition validate_credentials :: "host_credential list option \<Rightarrow> credential_error option" where
  "validate_credentials creds = (case creds of None \<Rightarrow> None | Some hosts \<Rightarrow> check_credentials 0 [] hosts)"

section \<open>Base64\<close>

definition base64_alphabet :: string where
  "base64_alphabet = ''ABCDEFGHIJKLMNOPQRSTUVWXYZabcdefghijklmnopqrstuvwxyz0123456789+/''"

definition b64 :: "nat \<Rightarrow> char" where "b64 n = base64_alphabet ! n"

text \<open>\<open>base64.StdEncoding.EncodeToString\<close>, three bytes at a time.\<close>

fun base64 :: "bytes \<Rightarrow> string" where
  "base64 [] = []"
| "base64 [a] =
     (let x = of_char a :: nat in [b64 (x div 4), b64 (x mod 4 * 16), CHR ''='', CHR ''=''])"
| "base64 [a, b] =
     (let x = of_char a :: nat; y = of_char b :: nat
      in [b64 (x div 4), b64 (x mod 4 * 16 + y div 16), b64 (y mod 16 * 4), CHR ''=''])"
| "base64 (a # b # c # xs) =
     (let x = of_char a :: nat; y = of_char b :: nat; z = of_char c :: nat
      in b64 (x div 4) # b64 (x mod 4 * 16 + y div 16) # b64 (y mod 16 * 4 + z div 64) # b64 (z mod 64)
           # base64 xs)"

section \<open>Generated configuration\<close>

definition nl :: string where "nl = [CHR 0x0A]"
definition tab :: string where "tab = [CHR 0x09]"
definition dquote :: string where "dquote = [CHR 0x22]"

definition generateStaticGitConfig :: "string \<Rightarrow> string" where
  "generateStaticGitConfig caBundlePath =
     ''# Generated by proxykit.'' @ nl @ ''# System Git configuration with proxy-aware settings.'' @ nl @ nl
     @ ''[core]'' @ nl @ tab @ ''hooksPath = /dev/null'' @ nl @ tab @ ''symlinks = false'' @ nl
     @ tab @ ''autocrlf = input'' @ nl @ nl
     @ (if caBundlePath \<noteq> [] then ''[http]'' @ nl @ tab @ ''sslCAInfo = '' @ caBundlePath @ nl @ nl else [])
     @ ''[credential]'' @ nl @ tab @ ''helper = '' @ dquote @ dquote @ nl @ nl
     @ ''[safe]'' @ nl @ tab @ ''directory = *'' @ nl @ nl
     @ ''[user]'' @ nl @ tab @ ''email = agentuity[bot]@users.noreply.github.com'' @ nl
     @ tab @ ''name = agentuity[bot]'' @ nl"

text \<open>The two box-drawing characters around the host are three bytes each in UTF-8.\<close>

definition rule_chars :: string where
  "rule_chars = [CHR 0xE2, CHR 0x94, CHR 0x80, CHR 0xE2, CHR 0x94, CHR 0x80]"

definition host_section :: "(string \<Rightarrow> string) \<Rightarrow> (string \<times> string) list \<Rightarrow> host_credential \<Rightarrow> string" where
  "host_section quoted env cred =
     (let host = trim_space (hc_host cred) in
      if host = [] then []
      else
        let username = (if hc_username cred = [] then ''x'' else hc_username cred);
            token = (case map_of env (hc_envVar cred) of Some t \<Rightarrow> t | None \<Rightarrow> [])
        in if token = [] then []
           else
             nl @ ''# '' @ rule_chars @ '' '' @ host @ '' '' @ rule_chars @ nl @ nl
             @ ''[http '' @ quoted (''https://'' @ host) @ '']'' @ nl
             @ tab @ ''extraHeader = Authorization: Basic '' @ base64 (username @ '':'' @ token) @ nl @ nl
             @ (if hc_sshRewrite cred
                then ''[url '' @ quoted (''https://'' @ host @ ''/'') @ '']'' @ nl
                     @ tab @ ''insteadOf = git@'' @ host @ '':'' @ nl @ nl
                else []))"

definition generateGitConfig :: "(string \<Rightarrow> string) \<Rightarrow> string \<Rightarrow> host_credential list option \<Rightarrow>
    (string \<times> string) list \<Rightarrow> string" where
  "generateGitConfig quoted caBundlePath creds env =
     generateStaticGitConfig caBundlePath
     @ (case creds of None \<Rightarrow> [] | Some hosts \<Rightarrow> concat (map (host_section quoted env) hosts))"

end
