(* ===== verification/Git_Handler.thy ===== *)
theory Git_Handler
  imports Git_Config Pktline Fetch_Store
begin

text \<open>
  The request handlers of \<^verbatim>\<open>git/handler.go\<close>, for one request at a time: reference
  advertisements and \<open>ls-refs\<close> answers through the first cache, packs of fresh clones through
  the second, pushes with the invalidation of the references, everything else forwarded. The
  interleaving of requests for one pack is modelled in \<open>Coalesce\<close>.

  Parameters: the HTTP client, gzip decompression, \<open>url.Parse\<close> and the file system's answers.
\<close>

section \<open>State and environment\<close>

record upstream_request =
  ur_method :: string
  ur_target :: string
  ur_header :: header
  ur_host :: string
  ur_body :: bytes
  ur_length :: "int option"     \<comment> \<open>\<open>None\<close>: not known, as the body is streamed\<close>

text \<open>How the file operations of \<open>streamAndCache\<close> go, and how the upstream body arrives.\<close>

record pack_io =
  pk_mkdir_ok :: bool
  pk_create_ok :: bool
  pk_tmp :: string
  pk_chunks :: "bytes \<Rightarrow> bytes list"
  pk_room :: "nat option"          \<comment> \<open>bytes the disk takes before writes fail\<close>
  pk_close_ok :: bool
  pk_rename_ok :: bool

record git_env =
  gi_world :: world
  gi_now :: int
  gi_parse :: "string \<Rightarrow> url option"
  gi_do :: "upstream_request \<Rightarrow> response option"
  gi_gunzip :: "int \<Rightarrow> bytes \<Rightarrow> bytes option"    \<comment> \<open>at most so many bytes; \<open>None\<close>: an error\<close>
  gi_bodyErr :: bool                             \<comment> \<open>reading the request body fails\<close>
  gi_put :: put_io
  gi_pack :: pack_io

record git_state =
  gt_refs :: cache
  gt_packs :: cache
  gt_sent :: "upstream_request list"

section \<open>Upstream requests\<close>

definition isAllowedGitHost :: "git_config \<Rightarrow> string \<Rightarrow> bool" where
  "isAllowedGitHost cfg host =
     (gc_allowedHosts cfg = [] \<or> list_ex (\<lambda>allowed. equal_fold allowed host) (gc_allowedHosts cfg))"

definition upstreamSchemeOf :: "git_config \<Rightarrow> request \<Rightarrow> string" where
  "upstreamSchemeOf cfg r =
     (if gc_upstreamScheme cfg \<noteq> [] then gc_upstreamScheme cfg else if rq_tls r then ''https'' else ''http'')"

definition copyRequestHeaders :: "header \<Rightarrow> header \<Rightarrow> header" where
  "copyRequestHeaders dst src = copyFilteredHeaders dst src"

definition copyResponseHeaders :: "header \<Rightarrow> header \<Rightarrow> header" where
  "copyResponseHeaders dst src = copyFilteredHeaders dst src"

definition upstream_of :: "git_config \<Rightarrow> request \<Rightarrow> bytes \<Rightarrow> int option \<Rightarrow> upstream_request" where
  "upstream_of cfg r body len =
     \<lparr>ur_method = rq_method r, ur_target = upstreamSchemeOf cfg r @ ''://'' @ rq_host r @ rq_requestURI r,
      ur_header = copyRequestHeaders [] (rq_header r), ur_host = rq_host r, ur_body = body, ur_length = len\<rparr>"

definition doUpstreamRequest :: "git_env \<Rightarrow> git_config \<Rightarrow> request \<Rightarrow> git_state \<Rightarrow> response option \<times> git_state" where
  "doUpstreamRequest ge cfg r s =
     (let q = upstream_of cfg r (rq_body r) None in (gi_do ge q, s\<lparr>gt_sent := gt_sent s @ [q]\<rparr>))"

definition doUpstreamRequestWithBody :: "git_env \<Rightarrow> git_config \<Rightarrow> request \<Rightarrow> bytes \<Rightarrow> git_state \<Rightarrow>
    response option \<times> git_state" where
  "doUpstreamRequestWithBody ge cfg r body s =
     (let q = upstream_of cfg r body (Some (int (length body)))
      in (gi_do ge q, s\<lparr>gt_sent := gt_sent s @ [q]\<rparr>))"

section \<open>Answers\<close>

text \<open>\<open>{"error": %q}\<close>, for messages without characters that \<open>%q\<close> escapes.\<close>

definition writeError :: "int \<Rightarrow> string \<Rightarrow> writer \<Rightarrow> writer" where
  "writeError status message out =
     snd (write_bytes (''{'' @ dquote @ ''error'' @ dquote @ '': '' @ dquote @ message @ dquote @ ''}'')
       (write_header status (set_header ''Content-Type'' ''application/json'' out)))"

definition send_response :: "response \<Rightarrow> writer \<Rightarrow> writer" where
  "send_response resp out =
     snd (write_bytes (rs_body resp)
       (write_header (rs_status resp)
         (out\<lparr>w_header := copyResponseHeaders (w_header out) (rs_header resp)\<rparr>)))"

definition serveUpstreamResponse :: "writer \<Rightarrow> response \<Rightarrow> writer" where
  "serveUpstreamResponse out resp = send_response resp out"

definition serveUpstreamError :: "writer \<Rightarrow> response \<Rightarrow> writer" where
  "serveUpstreamError out resp = send_response resp out"

definition forwardDirect :: "git_env \<Rightarrow> git_config \<Rightarrow> request \<Rightarrow> bytes option \<Rightarrow> writer \<Rightarrow> git_state \<Rightarrow>
    writer \<times> git_state" where
  "forwardDirect ge cfg r body out s =
     (case (case body of
              Some b \<Rightarrow> doUpstreamRequestWithBody ge cfg r b s
            | None \<Rightarrow> doUpstreamRequest ge cfg r s) of
        (None, s) \<Rightarrow> (writeError 502 ''git proxy: upstream request failed'' out, s)
      | (Some resp, s) \<Rightarrow> (send_response resp out, s))"

section \<open>References\<close>

datatype git_error = GitTransport | GitStatus response

definition refs_fetch :: "git_env \<Rightarrow> response option \<Rightarrow> git_error fetch_result" where
  "refs_fetch ge reply =
     (case reply of
        None \<Rightarrow> FetchErr GitTransport
      | Some resp \<Rightarrow>
          if rs_status resp \<noteq> 200 then FetchErr (GitStatus resp)
          else Fetched (rs_body resp) 0 (streamed_io (gi_put ge) (rs_body resp) (rs_bodyErr resp)))"

text \<open>\<open>GetOrFetch\<close> on the first cache: the upstream request is sent when it misses.\<close>

definition refs_through :: "git_env \<Rightarrow> string \<Rightarrow> upstream_request \<Rightarrow> git_state \<Rightarrow>
    (git_error cache_error + bytes) \<times> git_state" where
  "refs_through ge key q s =
     (case getOrFetch (gi_world ge) (gi_now ge) key (refs_fetch ge (gi_do ge q)) (gt_refs s) of
        (res, called, c) \<Rightarrow>
          (res, s\<lparr>gt_refs := c, gt_sent := (if called then gt_sent s @ [q] else gt_sent s)\<rparr>))"

definition refs_failed :: "git_error cache_error \<Rightarrow> writer \<Rightarrow> writer" where
  "refs_failed err out =
     (case err of
        FetchFailed (GitStatus resp) \<Rightarrow> serveUpstreamError out resp
      | _ \<Rightarrow> writeError 502 ''git proxy: upstream fetch failed'' out)"

definition handleInfoRefs :: "git_env \<Rightarrow> git_config \<Rightarrow> request \<Rightarrow> writer \<Rightarrow> git_state \<Rightarrow> writer \<times> git_state" where
  "handleInfoRefs ge cfg r out s =
     (let host = extractHost r; repoPath = parseRepoPath (u_path (rq_url r)) in
      if \<not> isAllowedGitHost cfg host then forwardDirect ge cfg r None out s
      else
        let key = refsCacheKey host repoPath (authScopeFromRequest (hashKey (gi_world ge)) r)
        in case refs_through ge key (upstream_of cfg r (rq_body r) None) s of
             (Inl err, s) \<Rightarrow> (refs_failed err out, s)
           | (Inr data, s) \<Rightarrow>
               (snd (write_bytes data (write_header 200
                  (set_header ''Cache-Control'' ''no-cache''
                    (set_header ''Content-Type'' ''application/x-git-upload-pack-advertisement'' out)))), s))"

definition handleV2LsRefs :: "git_env \<Rightarrow> git_config \<Rightarrow> request \<Rightarrow> bytes \<Rightarrow> string \<Rightarrow> string \<Rightarrow> writer \<Rightarrow>
    git_state \<Rightarrow> writer \<times> git_state" where
  "handleV2LsRefs ge cfg r body host repoPath out s =
     (if \<not> isAllowedGitHost cfg host then forwardDirect ge cfg r (Some body) out s
      else
        let key = lsRefsCacheKey host repoPath (authScopeFromRequest (hashKey (gi_world ge)) r)
        in case refs_through ge key (upstream_of cfg r body (Some (int (length body)))) s of
             (Inl err, s) \<Rightarrow> (refs_failed err out, s)
           | (Inr data, s) \<Rightarrow>
               (snd (write_bytes data (write_header 200
                  (set_header ''Content-Type'' ''application/x-git-upload-pack-result'' out))), s))"

section \<open>Packs\<close>

definition servePackFromDisk :: "world \<Rightarrow> cache \<Rightarrow> string \<Rightarrow> writer \<Rightarrow> writer" where
  "servePackFromDisk w c path out =
     (case os_open w path c of
        None \<Rightarrow> writeError 500 ''git proxy: failed to open cached pack'' out
      | Some f \<Rightarrow>
          snd (write_bytes f (write_header 200
            (set_header ''Content-Type'' ''application/x-git-upload-pack-result'' out))))"

text \<open>
  The writer behind the \<open>TeeReader\<close>: the temporary file, behind a \<open>countWriter\<close> when entries
  are limited. A write answers how many bytes it took and whether it failed.
\<close>

record pack_sink =
  ps_file :: bytes
  ps_limit :: int
  ps_written :: int
  ps_exceeded :: bool
  ps_room :: "nat option"

definition file_write :: "bytes \<Rightarrow> pack_sink \<Rightarrow> nat \<times> bool \<times> pack_sink" where
  "file_write p ps =
     (let n = (case ps_room ps of None \<Rightarrow> length p | Some m \<Rightarrow> min (length p) (m - length (ps_file ps)))
      in (n, n \<noteq> length p, ps\<lparr>ps_file := ps_file ps @ take n p\<rparr>))"

definition count_write :: "bytes \<Rightarrow> pack_sink \<Rightarrow> nat \<times> bool \<times> pack_sink" where
  "count_write p ps =
     (if ps_exceeded ps then (length p, False, ps)
      else
        let ps = ps\<lparr>ps_written := ps_written ps + int (length p)\<rparr>
        in if 0 < ps_limit ps \<and> ps_limit ps < ps_written ps then (length p, False, ps\<lparr>ps_exceeded := True\<rparr>)
           else file_write p ps)"

definition sink_write :: "bytes \<Rightarrow> pack_sink \<Rightarrow> nat \<times> bool \<times> pack_sink" where
  "sink_write p ps = (if 0 < ps_limit ps then count_write p ps else file_write p ps)"

text \<open>
  \<open>io.Copy(w, teeReader)\<close>: every piece goes to the disk first; when that write fails, the
  client still gets the bytes the disk took, and the copy stops.
\<close>

fun tee_to_disk :: "bytes list \<Rightarrow> writer \<Rightarrow> pack_sink \<Rightarrow> int \<Rightarrow> int \<times> bool \<times> writer \<times> pack_sink" where
  "tee_to_disk [] out ps written = (written, True, out, ps)"
| "tee_to_disk (p # rest) out ps written =
     (case sink_write p ps of
        (n, True, ps) \<Rightarrow> (written, False, if n = 0 then out else snd (write_bytes (take n p) out), ps)
      | (n, False, ps) \<Rightarrow>
          (case write_bytes p out of
             (False, out) \<Rightarrow> (written, False, out, ps)
           | (True, out) \<Rightarrow> tee_to_disk rest out ps (written + int (length p))))"

definition stream_direct :: "response \<Rightarrow> writer \<Rightarrow> writer" where
  "stream_direct resp out =
     snd (write_bytes (rs_body resp) (write_header 200
       (out\<lparr>w_header := copyResponseHeaders (w_header out) (rs_header resp)\<rparr>)))"

definition streamAndCache :: "git_env \<Rightarrow> git_config \<Rightarrow> response \<Rightarrow> string \<Rightarrow> writer \<Rightarrow> git_state \<Rightarrow>
    writer \<times> git_state" where
  "streamAndCache ge cfg resp packKey out s =
     (let w = gi_world ge; io = gi_pack ge; hash = cacheKeyHash (hashKey w) packKey;
          finalPath = c_dir (gt_packs s) @ ''/'' @ take 2 hash @ ''/'' @ hash in
      if \<not> pk_mkdir_ok io \<or> \<not> pk_create_ok io then (stream_direct resp out, s)
      else
        let out = write_header 200 (set_header ''Content-Type'' ''application/x-git-upload-pack-result'' out);
            (written, copied, out, ps) =
              tee_to_disk (pk_chunks io (rs_body resp)) out
                \<lparr>ps_file = [], ps_limit = gc_maxPackEntry cfg, ps_written = 0, ps_exceeded = False,
                 ps_room = pk_room io\<rparr> 0;
            c = gt_packs s;
            c = c\<lparr>c_files := AList.update (pk_tmp io) (ps_file ps) (c_files c)\<rparr>;
            dropped = s\<lparr>gt_packs := c\<lparr>c_files := os_remove w (pk_tmp io) (c_files c)\<rparr>\<rparr>
        in if ps_exceeded ps \<or> \<not> copied \<or> rs_bodyErr resp \<or> \<not> pk_close_ok io \<or> \<not> pk_rename_ok io
           then (out, dropped)
           else
             (out, s\<lparr>gt_packs := registerAfterStream w (gi_now ge) packKey finalPath written
                      (c\<lparr>c_files := AList.update finalPath (ps_file ps)
                         (AList.delete (pk_tmp io) (c_files c))\<rparr>)\<rparr>))"

section \<open>Fetches\<close>

text \<open>The text that is parsed: the body, decompressed when it says so and that succeeds.\<close>

definition parse_body :: "git_env \<Rightarrow> git_config \<Rightarrow> request \<Rightarrow> bytes" where
  "parse_body ge cfg r =
     (if h_get (rq_header r) ''Content-Encoding'' = ''gzip''
      then (case gi_gunzip ge (gc_maxUpload cfg) (rq_body r) of
              Some decompressed \<Rightarrow> decompressed | None \<Rightarrow> rq_body r)
      else rq_body r)"

definition parse_request :: "git_env \<Rightarrow> git_config \<Rightarrow> request \<Rightarrow> upload_pack_request \<times> pkt_error option" where
  "parse_request ge cfg r =
     (if isProtocolV2 r then parse_v2_upload_pack_request (parse_body ge cfg r)
      else parse_upload_pack_request (parse_body ge cfg r))"

text \<open>The file of the references the fingerprint is taken of: the advertisement, or the \<open>ls-refs\<close> answer.\<close>

definition refs_path :: "git_env \<Rightarrow> request \<Rightarrow> git_state \<Rightarrow> string option \<times> git_state" where
  "refs_path ge r s =
     (let w = gi_world ge; host = extractHost r; repoPath = parseRepoPath (u_path (rq_url r));
          auth = authScopeFromRequest (hashKey w) r
      in case get w (gi_now ge) (refsCacheKey host repoPath auth) (gt_refs s) of
           (Some p, c) \<Rightarrow> (Some p, s\<lparr>gt_refs := c\<rparr>)
         | (None, c) \<Rightarrow>
             (case get w (gi_now ge) (lsRefsCacheKey host repoPath auth) c of
                (p, c) \<Rightarrow> (p, s\<lparr>gt_refs := c\<rparr>)))"

text \<open>The part of \<open>handleUploadPack\<close> from the pack cache on, for the request that fetches.\<close>

definition serve_pack :: "git_env \<Rightarrow> git_config \<Rightarrow> request \<Rightarrow> string \<Rightarrow> writer \<Rightarrow> git_state \<Rightarrow> writer \<times> git_state" where
  "serve_pack ge cfg r pKey out s =
     (case get (gi_world ge) (gi_now ge) pKey (gt_packs s) of
        (Some path, c) \<Rightarrow> (servePackFromDisk (gi_world ge) c path out, s\<lparr>gt_packs := c\<rparr>)
      | (None, c) \<Rightarrow>
          (case doUpstreamRequestWithBody ge cfg r (rq_body r) (s\<lparr>gt_packs := c\<rparr>) of
             (None, s) \<Rightarrow> (writeError 502 ''git proxy: upstream fetch failed'' out, s)
           | (Some resp, s) \<Rightarrow>
               if rs_status resp \<noteq> 200 then (serveUpstreamResponse out resp, s)
               else streamAndCache ge cfg resp pKey out s))"

definition handleUploadPack :: "git_env \<Rightarrow> git_config \<Rightarrow> request \<Rightarrow> writer \<Rightarrow> git_state \<Rightarrow> writer \<times> git_state" where
  "handleUploadPack ge cfg r out s =
     (let host = extractHost r; repoPath = parseRepoPath (u_path (rq_url r)); body = rq_body r in
      if gi_bodyErr ge \<or> gc_maxUpload cfg < int (length body) then forwardDirect ge cfg r None out s
      else case parse_request ge cfg r of
        (_, Some _) \<Rightarrow> forwardDirect ge cfg r (Some body) out s
      | (req, None) \<Rightarrow>
          if isProtocolV2 r \<and> v2Command req = ''ls-refs''
          then handleV2LsRefs ge cfg r body host repoPath out s
          else if hasFilter req \<or> \<not> isFreshClone req \<or> isShallow req \<or> \<not> isAllowedGitHost cfg host
          then forwardDirect ge cfg r (Some body) out s
          else
            (case refs_path ge r s of
               (None, s) \<Rightarrow> forwardDirect ge cfg r (Some body) out s
             | (Some path, s) \<Rightarrow>
                 (case fingerprintFromFile (gi_world ge) path (gt_refs s) of
                    None \<Rightarrow> forwardDirect ge cfg r (Some body) out s
                  | Some fingerprint \<Rightarrow>
                      serve_pack ge cfg r
                        (packCacheKey host repoPath (authScopeFromRequest (hashKey (gi_world ge)) r) fingerprint)
                        out s)))"

section \<open>Pushes and dispatch\<close>

definition handleReceivePack :: "git_env \<Rightarrow> git_config \<Rightarrow> request \<Rightarrow> writer \<Rightarrow> git_state \<Rightarrow> writer \<times> git_state" where
  "handleReceivePack ge cfg r out s =
     (let host = extractHost r; repoPath = parseRepoPath (u_path (rq_url r)); w = gi_world ge in
      case doUpstreamRequest ge cfg r s of
        (None, s) \<Rightarrow> (writeError 502 ''git proxy: upstream push failed'' out, s)
      | (Some resp, s) \<Rightarrow>
          let s = (if rs_status resp = 200
                   then s\<lparr>gt_refs := snd (removeByPrefix w (repoLsRefsPrefix host repoPath)
                            (snd (removeByPrefix w (repoRefsPrefix host repoPath) (gt_refs s))))\<rparr>
                   else s)
          in (send_response resp out, s))"

definition git_handle :: "git_env \<Rightarrow> git_config \<Rightarrow> request \<Rightarrow> writer \<Rightarrow> git_state \<Rightarrow> writer \<times> git_state" where
  "git_handle ge cfg r out s =
     (let path = u_path (rq_url r) in
      if has_suffix path ''/info/refs''
      then (if q_get (url_query (rq_url r)) ''service'' = ''git-upload-pack''
            then handleInfoRefs ge cfg r out s
            else forwardDirect ge cfg r None out s)
      else if has_suffix path ''/git-upload-pack'' then handleUploadPack ge cfg r out s
      else if has_suffix path ''/git-receive-pack'' then handleReceivePack ge cfg r out s
      else forwardDirect ge cfg r None out s)"

text \<open>\<open>URL.RequestURI\<close> of a parsed absolute URL.\<close>

definition request_uri :: "url \<Rightarrow> string" where
  "request_uri u =
     (if escaped_path u = [] then ''/'' else escaped_path u)
     @ (if u_rawQuery u \<noteq> [] then ''?'' @ u_rawQuery u else [])"

definition git_serveHTTP :: "git_env \<Rightarrow> git_config \<Rightarrow> request \<Rightarrow> writer \<Rightarrow> git_state \<Rightarrow> writer \<times> git_state" where
  "git_serveHTTP ge cfg r out s =
     (let r = (case gi_parse ge (rq_requestURI r) of
                 None \<Rightarrow> r
               | Some u \<Rightarrow>
                   if u_scheme u \<noteq> [] \<and> u_host u \<noteq> []
                   then r\<lparr>rq_url := u, rq_host := u_host u, rq_requestURI := request_uri u\<rparr> else r)
      in git_handle ge cfg r out s)"

definition clearCaches :: "(bool \<times> (string \<Rightarrow> bool) \<times> (string \<times> db_row) list) \<Rightarrow>
    (bool \<times> (string \<Rightarrow> bool) \<times> (string \<times> db_row) list) \<Rightarrow> git_state \<Rightarrow> (nat \<times> int) \<times> git_state" where
  "clearCaches refs_db packs_db s =
     (case clear (fst refs_db) (fst (snd refs_db)) (snd (snd refs_db)) (gt_refs s) of
        ((refsRemoved, refsFreed), refs) \<Rightarrow>
          (case clear (fst packs_db) (fst (snd packs_db)) (snd (snd packs_db)) (gt_packs s) of
             ((packsRemoved, packsFreed), packs) \<Rightarrow>
               ((refsRemoved + packsRemoved, refsFreed + packsFreed), s\<lparr>gt_refs := refs, gt_packs := packs\<rparr>)))"

definition clearPacksCache :: "(bool \<times> (string \<Rightarrow> bool) \<times> (string \<times> db_row) list) \<Rightarrow> git_state \<Rightarrow>
    (nat \<times> int) \<times> git_state" where
  "clearPacksCache packs_db s =
     (case clear (fst packs_db) (fst (snd packs_db)) (snd (snd packs_db)) (gt_packs s) of
        (res, packs) \<Rightarrow> (res, s\<lparr>gt_packs := packs\<rparr>))"

definition git_stop :: "git_state \<Rightarrow> git_state" where
  "git_stop s = s\<lparr>gt_refs := stop (gt_refs s), gt_packs := stop (gt_packs s)\<rparr>"

end
