(* ===== verification/Git_Flow.thy ===== *)
theory Git_Flow
  imports Git_Handler
begin

text \<open>
  What the Git handlers do to the contents of their two caches, for unlimited caches on a calm
  disk (\<open>disk_ok\<close> of \<open>Fetch_Store\<close>): one lemma per handler and branch, over the bytes and
  expiry each key has. The references go through the interface \<open>fetch_store\<close>; packs are
  streamed beside the cache and registered.
\<close>

section \<open>Paths\<close>

lemma ends_apart:
  "last x \<noteq> last y \<Longrightarrow> x \<noteq> [] \<Longrightarrow> y \<noteq> [] \<Longrightarrow> has_suffix s x \<Longrightarrow> \<not> has_suffix s y"
  by (auto simp: has_suffix_iff) (metis last_appendR)

lemma upload_pack_path:
  "has_suffix path ''/git-upload-pack'' \<Longrightarrow> \<not> has_suffix path ''/info/refs''"
  by (rule ends_apart) simp_all

lemma receive_pack_path:
  assumes "has_suffix path ''/git-receive-pack''"
  shows "\<not> has_suffix path ''/info/refs''" "\<not> has_suffix path ''/git-upload-pack''"
proof -
  show "\<not> has_suffix path ''/info/refs''" using assms by (intro ends_apart [OF _ _ _ assms]) simp_all
  have "last (take (length path - 5) path) = CHR ''e''"
    using assms by (auto simp: has_suffix_iff)
  moreover have "last (take (length path - 5) path) = CHR ''d''" if "has_suffix path ''/git-upload-pack''"
    using that by (auto simp: has_suffix_iff)
  ultimately show "\<not> has_suffix path ''/git-upload-pack''" by auto
qed

section \<open>The state\<close>

definition git_ok :: "world \<Rightarrow> string \<Rightarrow> int \<Rightarrow> string \<Rightarrow> int \<Rightarrow> git_state \<Rightarrow> bool" where
  "git_ok w rd rt pd pt s \<longleftrightarrow> disk_ok w rd rt (gt_refs s) \<and> disk_ok w pd pt (gt_packs s)"

text \<open>
  The environment of a request on this state: temporary files are not files of entries, and
  the pieces a body arrives in make up the body.
\<close>

definition git_on :: "world \<Rightarrow> string \<Rightarrow> string \<Rightarrow> git_env \<Rightarrow> bool" where
  "git_on w rd pd ge \<longleftrightarrow> gi_world ge = w \<and> (\<forall>k. pi_tmp (gi_put ge) \<noteq> entry_path w rd k)
     \<and> (\<forall>k. pk_tmp (gi_pack ge) \<noteq> entry_path w pd k) \<and> (\<forall>b. concat (pk_chunks (gi_pack ge) b) = b)"

abbreviation refs_content :: "git_state \<Rightarrow> contents" where
  "refs_content s \<equiv> disk_content (gt_refs s)"

abbreviation packs_content :: "git_state \<Rightarrow> contents" where
  "packs_content s \<equiv> disk_content (gt_packs s)"

lemma refs_fetch_apart: "git_on w rd pd ge \<Longrightarrow> tmp_apart w rd (refs_fetch ge reply)"
  by (simp add: git_on_def refs_fetch_def split: option.split)

text \<open>The scope of a request: what the keys of its records are made of.\<close>

definition repo_of :: "request \<Rightarrow> string" where
  "repo_of r = parseRepoPath (u_path (rq_url r))"

definition scope_of :: "git_env \<Rightarrow> request \<Rightarrow> string" where
  "scope_of ge r = authScopeFromRequest (hashKey (gi_world ge)) r"

abbreviation refs_key :: "git_env \<Rightarrow> request \<Rightarrow> string" where
  "refs_key ge r \<equiv> refsCacheKey (extractHost r) (repo_of r) (scope_of ge r)"

abbreviation lsrefs_key :: "git_env \<Rightarrow> request \<Rightarrow> string" where
  "lsrefs_key ge r \<equiv> lsRefsCacheKey (extractHost r) (repo_of r) (scope_of ge r)"

abbreviation pack_key :: "git_env \<Rightarrow> request \<Rightarrow> bytes \<Rightarrow> string" where
  "pack_key ge r adv \<equiv> packCacheKey (extractHost r) (repo_of r) (scope_of ge r) (refsFingerprint (hashKey (gi_world ge)) adv)"

section \<open>References\<close>

lemma refs_through_live:
  assumes "git_ok w rd rt pd pt s" "git_on w rd pd ge" "live (gi_now ge) (refs_content s key) = Some d"
  shows "\<exists>s'. refs_through ge key q s = (Inr d, s') \<and> git_ok w rd rt pd pt s'
    \<and> refs_content s' = refs_content s \<and> gt_packs s' = gt_packs s \<and> gt_sent s' = gt_sent s"
  using getOrFetch_live [of w rd rt "gt_refs s" "gi_now ge" key d "refs_fetch ge (gi_do ge q)"] assms
  by (auto simp: refs_through_def git_ok_def git_on_def)

text \<open>A miss: what the upstream says is delivered and kept, or nothing is.\<close>

lemma refs_fetch_fetched:
  "refs_fetch ge reply = Fetched d ttl io \<Longrightarrow> \<exists>resp. reply = Some resp \<and> rs_status resp = 200 \<and> d = rs_body resp"
  by (auto simp: refs_fetch_def split: option.splits if_splits)

lemma refs_through_dead:
  assumes "git_ok w rd rt pd pt s" "git_on w rd pd ge" "live (gi_now ge) (refs_content s key) = None"
  shows "\<exists>res s' v. refs_through ge key q s = (res, s') \<and> git_ok w rd rt pd pt s'
    \<and> refs_content s' = (refs_content s)(key := v) \<and> gt_packs s' = gt_packs s \<and> gt_sent s' = gt_sent s @ [q]
    \<and> (\<forall>d. res = Inr d \<or> (\<exists>x. v = Some (d, x)) \<longrightarrow>
         (\<exists>resp. gi_do ge q = Some resp \<and> rs_status resp = 200 \<and> d = rs_body resp))"
proof -
  let ?f = "refs_fetch ge (gi_do ge q)"
  obtain res c v where "getOrFetch w (gi_now ge) key ?f (gt_refs s) = (res, True, c)" "disk_ok w rd rt c"
    "disk_content c = (refs_content s)(key := v)"
    "\<forall>d. res = Inr d \<or> (\<exists>x. v = Some (d, x)) \<longrightarrow> (\<exists>ttl io. ?f = Fetched d ttl io)"
    using getOrFetch_dead [OF _ assms(3) refs_fetch_apart [OF assms(2)], of rt "gi_do ge q"] assms(1)
    unfolding git_ok_def by blast
  note run = this
  have w: "gi_world ge = w" using assms(2) by (simp add: git_on_def)
  have res: "refs_through ge key q s = (res, s\<lparr>gt_refs := c, gt_sent := gt_sent s @ [q]\<rparr>)"
    by (simp add: refs_through_def w run(1))
  have "\<forall>d. res = Inr d \<or> (\<exists>x. v = Some (d, x)) \<longrightarrow>
      (\<exists>resp. gi_do ge q = Some resp \<and> rs_status resp = 200 \<and> d = rs_body resp)"
    using run(4) refs_fetch_fetched by blast
  then show ?thesis using run(2,3) assms(1)
    by (intro exI [of _ res] exI [of _ "s\<lparr>gt_refs := c, gt_sent := gt_sent s @ [q]\<rparr>"] exI [of _ v])
      (simp add: git_ok_def res)
qed

lemma refs_through_fetched:
  assumes "git_ok w rd rt pd pt s" "git_on w rd pd ge" "live (gi_now ge) (refs_content s key) = None"
    "gi_do ge q = Some resp" "rs_status resp = 200" "\<not> rs_bodyErr resp" "pi_fault (gi_put ge) = NoFault"
  shows "\<exists>s'. refs_through ge key q s = (Inr (rs_body resp), s') \<and> git_ok w rd rt pd pt s'
    \<and> refs_content s' = (refs_content s)(key := Some (rs_body resp, effective_expiry rt (gi_now ge) 0))
    \<and> gt_packs s' = gt_packs s \<and> gt_sent s' = gt_sent s @ [q]"
proof -
  have f: "refs_fetch ge (gi_do ge q) = Fetched (rs_body resp) 0 (gi_put ge)"
    using assms(4-6) by (simp add: refs_fetch_def)
  show ?thesis
    using getOrFetch_dead [of w rd rt "gt_refs s" "gi_now ge" key "refs_fetch ge (gi_do ge q)"]
      refs_fetch_apart [OF assms(2), of "gi_do ge q"] assms(1-3,7)
    by (auto simp: refs_through_def git_ok_def git_on_def f)
qed

text \<open>The reference record a fetch is matched against.\<close>

lemma refs_path_live:
  assumes "git_ok w rd rt pd pt s" "git_on w rd pd ge" "live (gi_now ge) (refs_content s (refs_key ge r)) = Some adv"
  shows "\<exists>p s'. refs_path ge r s = (Some p, s') \<and> git_ok w rd rt pd pt s' \<and> refs_content s' = refs_content s
    \<and> gt_packs s' = gt_packs s \<and> gt_sent s' = gt_sent s
    \<and> fingerprintFromFile (gi_world ge) p (gt_refs s') = Some (refsFingerprint (hashKey (gi_world ge)) adv)"
  using disk_get_live [of w rd rt "gt_refs s" "gi_now ge" "refs_key ge r" adv] assms
    disk_okD(1) [of w rd rt "gt_refs s"]
  by (auto simp: refs_path_def git_ok_def git_on_def Let_def repo_of_def scope_of_def
      fingerprintFromFile_def os_open_def)

section \<open>Streaming a pack\<close>

lemma disk_same_files:
  assumes "disk_ok w d t c" "\<And>k. map_of f (entry_path w d k) = map_of (c_files c) (entry_path w d k)"
  shows "disk_ok w d t (c\<lparr>c_files := f\<rparr>) \<and> disk_content (c\<lparr>c_files := f\<rparr>) = disk_content c"
proof -
  have ok: "disk_ok w d t (c\<lparr>c_files := f\<rparr>)" using assms by (simp add: disk_ok_def)
  show ?thesis
    by (rule conjI [OF ok], rule ext)
      (simp add: disk_content_at [OF ok] disk_content_at [OF assms(1)] assms(2) split: option.split)
qed

lemma disk_register:
  assumes "disk_ok w d t c" "map_of f (entry_path w d k) = Some data"
    "\<And>k'. k' \<noteq> k \<Longrightarrow> map_of f (entry_path w d k') = map_of (c_files c) (entry_path w d k')"
  shows "disk_ok w d t (registerAfterStream w now k (entry_path w d k) n (c\<lparr>c_files := f\<rparr>))
    \<and> disk_content (registerAfterStream w now k (entry_path w d k) n (c\<lparr>c_files := f\<rparr>))
      = (disk_content c)(k := Some (data, effective_expiry t now 0))"
proof -
  note D = disk_okD [OF assms(1)]
  define e where "e = \<lparr>e_key = k, e_path = entry_path w d k, e_size = n, createdAt = now, accessedAt = now,
      expiresAt = effective_expiry t now 0\<rparr>"
  define c' where "c' = registerAfterStream w now k (entry_path w d k) n (c\<lparr>c_files := f\<rparr>)"
  have eqs: "c_entries c' = AList.update k e (c_entries c)" "c_files c' = f" "c_dir c' = c_dir c"
    "c_maxSize c' = c_maxSize c" "c_ttl c' = c_ttl c"
    using D(4,5) by (auto simp: c'_def registerAfterStream_def store_entry_def Let_def e_def effective_expiry_def
        split: option.split)
  have at_k: "map_of f (entry_path w d k') = (if k' = k then Some data else map_of (c_files c) (entry_path w d k'))"
    for k' using assms(2,3) by simp
  have ok: "disk_ok w d t c'"
  proof (rule disk_okI [OF assms(1) eqs(3-5)])
    show "distinct (keys (c_entries c'))" using D(6) by (simp add: eqs(1) distinct_update)
    show "e_key e' = k' \<and> e_path e' = entry_path w d k' \<and> map_of (c_files c') (entry_path w d k') \<noteq> None"
      if "map_of (c_entries c') k' = Some e'" for k' e'
      using that disk_ok_entry [OF assms(1), of k' e']
      by (auto simp: eqs(1,2) at_k update_conv' e_def split: if_splits)
  qed
  have "disk_content c' = (disk_content c)(k := Some (data, effective_expiry t now 0))"
    by (rule ext) (simp add: disk_content_at [OF ok] disk_content_at [OF assms(1)] eqs(1,2) at_k update_conv'
        e_def split: option.split)
  with ok show ?thesis unfolding c'_def by blast
qed

text \<open>On a disk with room, the client and the file get the pieces in step.\<close>

lemma sink_write_room:
  "ps_room ps = None \<Longrightarrow> \<exists>ps'. sink_write p ps = (length p, False, ps') \<and> ps_room ps' = None"
  by (simp add: sink_write_def count_write_def file_write_def Let_def)

lemma tee_client:
  assumes "w_takes out = None" "w_status out \<noteq> None" "ps_room ps = None"
  shows "\<exists>ps'. tee_to_disk cs out ps n =
    (n + int (length (concat cs)), True, out\<lparr>w_body := w_body out @ concat cs\<rparr>, ps')"
  using assms
proof (induction cs arbitrary: out ps n)
  case (Cons p cs)
  obtain ps' where "sink_write p ps = (length p, False, ps')" "ps_room ps' = None"
    using sink_write_room [OF Cons.prems(3)] by blast
  moreover have "write_bytes p out = (True, out\<lparr>w_body := w_body out @ p\<rparr>)"
    using Cons.prems(1,2) by (auto simp: write_bytes_all write_header_def)
  ultimately show ?case
    using Cons.IH [of "out\<lparr>w_body := w_body out @ p\<rparr>" ps' "n + int (length p)"] Cons.prems by (simp add: add.assoc)
qed simp

text \<open>A pack within the limit arrives in the file as well.\<close>

lemma tee_file:
  assumes "w_takes out = None" "w_status out \<noteq> None" "ps_room ps = None" "\<not> ps_exceeded ps"
    "ps_limit ps \<le> 0 \<or> ps_written ps + int (length (concat cs)) \<le> ps_limit ps"
  shows "\<exists>ps'. snd (snd (snd (tee_to_disk cs out ps n))) = ps' \<and> \<not> ps_exceeded ps'
    \<and> ps_file ps' = ps_file ps @ concat cs"
  using assms
proof (induction cs arbitrary: out ps n)
  case (Cons p cs)
  let ?ps = "ps\<lparr>ps_file := ps_file ps @ p,
      ps_written := (if 0 < ps_limit ps then ps_written ps + int (length p) else ps_written ps)\<rparr>"
  have "sink_write p ps = (length p, False, ?ps)"
    using Cons.prems(3-5) by (auto simp: sink_write_def count_write_def file_write_def Let_def)
  moreover have "write_bytes p out = (True, out\<lparr>w_body := w_body out @ p\<rparr>)"
    using Cons.prems(1,2) by (auto simp: write_bytes_all write_header_def)
  ultimately show ?case
    using Cons.IH [of "out\<lparr>w_body := w_body out @ p\<rparr>" ?ps "n + int (length p)"] Cons.prems by (auto simp: add.assoc)
qed simp

section \<open>Fetches\<close>

text \<open>The requests whose packs are cached.\<close>

definition cacheable_clone :: "git_env \<Rightarrow> git_config \<Rightarrow> request \<Rightarrow> bool" where
  "cacheable_clone ge cfg r \<longleftrightarrow>
     \<not> gi_bodyErr ge \<and> int (length (rq_body r)) \<le> gc_maxUpload cfg \<and> isAllowedGitHost cfg (extractHost r)
     \<and> (case parse_request ge cfg r of (req, e) \<Rightarrow> e = None \<and> isFreshClone req \<and> \<not> isShallow req
          \<and> \<not> hasFilter req \<and> \<not> (isProtocolV2 r \<and> v2Command req = ''ls-refs''))"

text \<open>The requests whose answers are cached as references.\<close>

definition ls_refs_request :: "git_env \<Rightarrow> git_config \<Rightarrow> request \<Rightarrow> bool" where
  "ls_refs_request ge cfg r \<longleftrightarrow>
     \<not> gi_bodyErr ge \<and> int (length (rq_body r)) \<le> gc_maxUpload cfg \<and> isAllowedGitHost cfg (extractHost r)
     \<and> isProtocolV2 r
     \<and> (case parse_request ge cfg r of (req, e) \<Rightarrow> e = None \<and> v2Command req = ''ls-refs'')"

abbreviation with_body :: "git_config \<Rightarrow> request \<Rightarrow> upstream_request" where
  "with_body cfg r \<equiv> upstream_of cfg r (rq_body r) (Some (int (length (rq_body r))))"

text \<open>What \<open>handleUploadPack\<close> does, by the class of the request.\<close>

lemma upload_pack_cases:
  "handleUploadPack ge cfg r out s =
     (if cacheable_clone ge cfg r then
        (case refs_path ge r s of
           (None, s) \<Rightarrow> forwardDirect ge cfg r (Some (rq_body r)) out s
         | (Some path, s) \<Rightarrow>
             (case fingerprintFromFile (gi_world ge) path (gt_refs s) of
                None \<Rightarrow> forwardDirect ge cfg r (Some (rq_body r)) out s
              | Some fp \<Rightarrow> serve_pack ge cfg r (packCacheKey (extractHost r) (repo_of r) (scope_of ge r) fp) out s))
      else if ls_refs_request ge cfg r
      then handleV2LsRefs ge cfg r (rq_body r) (extractHost r) (repo_of r) out s
      else if gi_bodyErr ge \<or> gc_maxUpload cfg < int (length (rq_body r)) then forwardDirect ge cfg r None out s
      else forwardDirect ge cfg r (Some (rq_body r)) out s)"
  by (auto simp: handleUploadPack_def cacheable_clone_def ls_refs_request_def handleV2LsRefs_def repo_of_def
      scope_of_def Let_def split: prod.split option.split)

abbreviation pack_answer :: "bytes \<Rightarrow> writer \<Rightarrow> writer" where
  "pack_answer pack out \<equiv>
     snd (write_bytes pack (write_header 200 (set_header ''Content-Type'' ''application/x-git-upload-pack-result'' out)))"

lemma clone_hit:
  assumes "git_ok w rd rt pd pt s" "git_on w rd pd ge" "cacheable_clone ge cfg r"
    "live (gi_now ge) (refs_content s (refs_key ge r)) = Some adv"
    "live (gi_now ge) (packs_content s (pack_key ge r adv)) = Some pack"
  shows "\<exists>s'. handleUploadPack ge cfg r out s = (pack_answer pack out, s') \<and> git_ok w rd rt pd pt s'
    \<and> refs_content s' = refs_content s \<and> packs_content s' = packs_content s \<and> gt_sent s' = gt_sent s"
proof -
  obtain p s1 where s1: "refs_path ge r s = (Some p, s1)" "git_ok w rd rt pd pt s1" "refs_content s1 = refs_content s"
    "gt_packs s1 = gt_packs s" "gt_sent s1 = gt_sent s"
    "fingerprintFromFile (gi_world ge) p (gt_refs s1) = Some (refsFingerprint (hashKey (gi_world ge)) adv)"
    using refs_path_live [OF assms(1,2,4)] by blast
  have w: "gi_world ge = w" using assms(2) by (simp add: git_on_def)
  have packs: "disk_ok w pd pt (gt_packs s)" using assms(1) by (simp add: git_ok_def)
  obtain c where c: "get w (gi_now ge) (pack_key ge r adv) (gt_packs s) = (Some (entry_path w pd (pack_key ge r adv)), c)"
    "map_of (c_files c) (entry_path w pd (pack_key ge r adv)) = Some pack" "disk_ok w pd pt c"
    "disk_content c = packs_content s"
    using disk_get_live [OF packs assms(5)] by blast
  have "serve_pack ge cfg r (pack_key ge r adv) out s1 = (pack_answer pack out, s1\<lparr>gt_packs := c\<rparr>)"
    using c(1,2) s1(4) disk_okD(1) [OF packs] by (simp add: serve_pack_def servePackFromDisk_def os_open_def w)
  then show ?thesis
    using assms(3) s1 c(3,4) by (simp add: upload_pack_cases git_ok_def)
qed

text \<open>When the file operations succeed and the upstream answers, a missing pack is delivered and kept.\<close>

definition calm_pack :: "git_env \<Rightarrow> git_config \<Rightarrow> response \<Rightarrow> bool" where
  "calm_pack ge cfg resp \<longleftrightarrow>
     pk_mkdir_ok (gi_pack ge) \<and> pk_create_ok (gi_pack ge) \<and> pk_close_ok (gi_pack ge) \<and> pk_rename_ok (gi_pack ge)
     \<and> pk_room (gi_pack ge) = None \<and> rs_status resp = 200 \<and> \<not> rs_bodyErr resp
     \<and> (gc_maxPackEntry cfg \<le> 0 \<or> int (length (rs_body resp)) \<le> gc_maxPackEntry cfg)"

lemma stream_kept:
  assumes "git_ok w rd rt pd pt s" "git_on w rd pd ge" "calm_pack ge cfg resp"
    "w_takes out = None" "w_status out = None"
  shows "\<exists>out' s'. streamAndCache ge cfg resp key out s = (out', s') \<and> w_body out' = w_body out @ rs_body resp
    \<and> w_status out' = Some 200 \<and> git_ok w rd rt pd pt s' \<and> gt_refs s' = gt_refs s \<and> gt_sent s' = gt_sent s
    \<and> packs_content s' = (packs_content s)(key := Some (rs_body resp, effective_expiry pt (gi_now ge) 0))"
proof -
  let ?out = "write_header 200 (set_header ''Content-Type'' ''application/x-git-upload-pack-result'' out)"
  let ?ps = "\<lparr>ps_file = [], ps_limit = gc_maxPackEntry cfg, ps_written = 0, ps_exceeded = False, ps_room = None\<rparr>"
  let ?tmp = "pk_tmp (gi_pack ge)"
  have w: "gi_world ge = w" and tmp: "\<And>k. ?tmp \<noteq> entry_path w pd k"
    and whole: "concat (pk_chunks (gi_pack ge) (rs_body resp)) = rs_body resp" using assms(2) by (auto simp: git_on_def)
  have packs: "disk_ok w pd pt (gt_packs s)" using assms(1) by (simp add: git_ok_def)
  note calm = assms(3) [unfolded calm_pack_def]
  obtain ps where tee: "tee_to_disk (pk_chunks (gi_pack ge) (rs_body resp)) ?out ?ps 0
      = (int (length (rs_body resp)), True, ?out\<lparr>w_body := w_body out @ rs_body resp\<rparr>, ps)"
    using tee_client [of ?out ?ps "pk_chunks (gi_pack ge) (rs_body resp)" 0] assms(4) calm whole by auto
  have ps: "\<not> ps_exceeded ps" "ps_file ps = rs_body resp"
    using tee_file [of ?out ?ps "pk_chunks (gi_pack ge) (rs_body resp)" 0] assms(4) calm whole tee by auto
  define f where "f = AList.update (entry_path w pd key) (rs_body resp)
    (AList.delete ?tmp (AList.update ?tmp (rs_body resp) (c_files (gt_packs s))))"
  have fk: "map_of f (entry_path w pd key) = Some (rs_body resp)" by (simp add: f_def update_conv')
  have fo: "map_of f (entry_path w pd k') = map_of (c_files (gt_packs s)) (entry_path w pd k')" if "k' \<noteq> key" for k'
    using that tmp [of k'] path_eq [OF packs, of k' key] by (simp add: f_def update_conv' delete_conv')
  have path: "c_dir (gt_packs s) @ ''/'' @ take 2 (hashKey w key) @ ''/'' @ hashKey w key = entry_path w pd key"
    using disk_okD(3) [OF packs] by (simp add: entry_path_def)
  define c where "c = registerAfterStream w (gi_now ge) key (entry_path w pd key) (int (length (rs_body resp)))
      (gt_packs s\<lparr>c_files := f\<rparr>)"
  have run: "streamAndCache ge cfg resp key out s = (?out\<lparr>w_body := w_body out @ rs_body resp\<rparr>, s\<lparr>gt_packs := c\<rparr>)"
    using calm ps path unfolding streamAndCache_def Let_def cacheKeyHash_def w
    by (simp add: tee c_def f_def)
  have "disk_ok w pd pt c \<and> disk_content c = (packs_content s)(key := Some (rs_body resp, effective_expiry pt (gi_now ge) 0))"
    unfolding c_def by (rule disk_register [OF packs fk fo])
  then show ?thesis using run assms(1,5) by (simp add: git_ok_def)
qed

lemma clone_miss:
  assumes "git_ok w rd rt pd pt s" "git_on w rd pd ge" "cacheable_clone ge cfg r"
    "live (gi_now ge) (refs_content s (refs_key ge r)) = Some adv"
    "live (gi_now ge) (packs_content s (pack_key ge r adv)) = None"
    "gi_do ge (with_body cfg r) = Some resp" "calm_pack ge cfg resp" "w_takes out = None" "w_status out = None"
  shows "\<exists>out' s'. handleUploadPack ge cfg r out s = (out', s') \<and> w_body out' = w_body out @ rs_body resp
    \<and> w_status out' = Some 200 \<and> git_ok w rd rt pd pt s' \<and> gt_sent s' = gt_sent s @ [with_body cfg r]
    \<and> refs_content s' = refs_content s
    \<and> packs_content s' = (packs_content s)(pack_key ge r adv := Some (rs_body resp, effective_expiry pt (gi_now ge) 0))"
proof -
  obtain p s1 where s1: "refs_path ge r s = (Some p, s1)" "git_ok w rd rt pd pt s1" "refs_content s1 = refs_content s"
    "gt_packs s1 = gt_packs s" "gt_sent s1 = gt_sent s"
    "fingerprintFromFile (gi_world ge) p (gt_refs s1) = Some (refsFingerprint (hashKey (gi_world ge)) adv)"
    using refs_path_live [OF assms(1,2,4)] by blast
  have w: "gi_world ge = w" using assms(2) by (simp add: git_on_def)
  have packs: "disk_ok w pd pt (gt_packs s)" using assms(1) by (simp add: git_ok_def)
  obtain c where c: "get w (gi_now ge) (pack_key ge r adv) (gt_packs s) = (None, c)" "disk_ok w pd pt c"
    "disk_content c = (packs_content s)(pack_key ge r adv := None)"
    using disk_get_dead [OF packs assms(5)] by blast
  let ?s2 = "s1\<lparr>gt_packs := c, gt_sent := gt_sent s1 @ [with_body cfg r]\<rparr>"
  have ok2: "git_ok w rd rt pd pt ?s2" using s1(2) c(2) by (simp add: git_ok_def)
  obtain out' s' where st: "streamAndCache ge cfg resp (pack_key ge r adv) out ?s2 = (out', s')"
    "w_body out' = w_body out @ rs_body resp" "w_status out' = Some 200" "git_ok w rd rt pd pt s'"
    "gt_refs s' = gt_refs ?s2" "gt_sent s' = gt_sent ?s2"
    "packs_content s' = (packs_content ?s2)(pack_key ge r adv := Some (rs_body resp, effective_expiry pt (gi_now ge) 0))"
    using stream_kept [OF ok2 assms(2,7,8,9)] by blast
  have "serve_pack ge cfg r (pack_key ge r adv) out s1 = (out', s')"
    using c(1) s1(4) assms(6,7) st(1)
    by (simp add: serve_pack_def w doUpstreamRequestWithBody_def Let_def calm_pack_def)
  then show ?thesis
    using assms(3) s1 c(3) st(2-7) by (simp add: upload_pack_cases)
qed

section \<open>Advertisements, listings and pushes\<close>

definition asks_refs :: "request \<Rightarrow> bool" where
  "asks_refs r \<longleftrightarrow> has_suffix (u_path (rq_url r)) ''/info/refs''
     \<and> q_get (url_query (rq_url r)) ''service'' = ''git-upload-pack''"

abbreviation refs_answer :: "bytes \<Rightarrow> writer \<Rightarrow> writer" where
  "refs_answer data out \<equiv>
     snd (write_bytes data (write_header 200 (set_header ''Cache-Control'' ''no-cache''
       (set_header ''Content-Type'' ''application/x-git-upload-pack-advertisement'' out))))"

abbreviation plain :: "git_config \<Rightarrow> request \<Rightarrow> upstream_request" where
  "plain cfg r \<equiv> upstream_of cfg r (rq_body r) None"

lemma info_refs_through:
  assumes "asks_refs r" "isAllowedGitHost cfg (extractHost r)"
    "refs_through ge (refs_key ge r) (plain cfg r) s = (Inr data, s')"
  shows "git_handle ge cfg r out s = (refs_answer data out, s')"
  using assms by (simp add: git_handle_def asks_refs_def handleInfoRefs_def Let_def repo_of_def scope_of_def)

lemma ls_refs_through:
  assumes "ls_refs_request ge cfg r" "refs_through ge (lsrefs_key ge r) (with_body cfg r) s = (Inr data, s')"
  shows "handleUploadPack ge cfg r out s = (pack_answer data out, s')"
proof -
  have "\<not> cacheable_clone ge cfg r" "isAllowedGitHost cfg (extractHost r)"
    using assms(1) by (auto simp: cacheable_clone_def ls_refs_request_def split: prod.splits)
  then show ?thesis
    using assms by (simp add: upload_pack_cases handleV2LsRefs_def Let_def scope_of_def)
qed

text \<open>The references a successful push leaves.\<close>

definition push_prefixes :: "request \<Rightarrow> string list" where
  "push_prefixes r = [repoRefsPrefix (extractHost r) (repo_of r), repoLsRefsPrefix (extractHost r) (repo_of r)]"

lemma push_step:
  assumes "git_ok w rd rt pd pt s" "git_on w rd pd ge" "gi_do ge (plain cfg r) = Some resp"
  shows "\<exists>s'. handleReceivePack ge cfg r out s = (send_response resp out, s') \<and> git_ok w rd rt pd pt s'
    \<and> gt_packs s' = gt_packs s \<and> gt_sent s' = gt_sent s @ [plain cfg r]
    \<and> refs_content s' = (\<lambda>k. if rs_status resp = 200 \<and> list_ex (has_prefix k) (push_prefixes r)
         then None else refs_content s k)"
proof (cases "rs_status resp = 200")
  case False
  then show ?thesis
    using assms by (auto simp: handleReceivePack_def doUpstreamRequest_def Let_def git_ok_def)
next
  case True
  have w: "gi_world ge = w" using assms(2) by (simp add: git_on_def)
  have refs: "disk_ok w rd rt (gt_refs s)" using assms(1) by (simp add: git_ok_def)
  note one = disk_removeByPrefix [OF refs, of "repoRefsPrefix (extractHost r) (repo_of r)"]
  note two = disk_removeByPrefix [OF conjunct1 [OF one], of "repoLsRefsPrefix (extractHost r) (repo_of r)"]
  show ?thesis
    using assms True one two
    by (auto simp: handleReceivePack_def doUpstreamRequest_def Let_def git_ok_def w repo_of_def push_prefixes_def
        fun_eq_iff)
qed

section \<open>What a request can do to the caches\<close>

text \<open>A lookup keeps the state well-formed and adds nothing.\<close>

lemma disk_get:
  assumes "disk_ok w d t c" "get w now k c = (p, c')"
  shows "disk_ok w d t c' \<and> map_le (disk_content c') (disk_content c)"
  using disk_get_live [OF assms(1), of now k] disk_get_dead [OF assms(1), of now k] assms(2)
  by (cases "live now (disk_content c k)") (auto simp: map_le_def)

lemma refs_path_keeps:
  assumes "git_ok w rd rt pd pt s" "git_on w rd pd ge" "refs_path ge r s = (p, s')"
  shows "git_ok w rd rt pd pt s' \<and> map_le (refs_content s') (refs_content s) \<and> gt_packs s' = gt_packs s
    \<and> gt_sent s' = gt_sent s"
proof -
  have w: "gi_world ge = w" using assms(2) by (simp add: git_on_def)
  have refs: "disk_ok w rd rt (gt_refs s)" using assms(1) by (simp add: git_ok_def)
  obtain p1 c1 where c1: "get w (gi_now ge) (refs_key ge r) (gt_refs s) = (p1, c1)" by fastforce
  obtain p2 c2 where c2: "get w (gi_now ge) (lsrefs_key ge r) c1 = (p2, c2)" by fastforce
  note g1 = disk_get [OF refs c1]
  note g2 = disk_get [OF conjunct1 [OF g1] c2]
  have "s' = s\<lparr>gt_refs := (if p1 = None then c2 else c1)\<rparr>"
    using assms(3) c1 c2 by (auto simp: refs_path_def Let_def w repo_of_def scope_of_def split: option.splits)
  then show ?thesis using g1 g2 assms(1) by (auto simp: git_ok_def intro: map_le_trans)
qed

lemma forwardDirect_keeps:
  "forwardDirect ge cfg r b out s = (out', s') \<Longrightarrow> gt_refs s' = gt_refs s \<and> gt_packs s' = gt_packs s
     \<and> gt_sent s' = gt_sent s @ [case b of None \<Rightarrow> plain cfg r | Some b \<Rightarrow> upstream_of cfg r b (Some (int (length b)))]"
  by (auto simp: forwardDirect_def doUpstreamRequest_def doUpstreamRequestWithBody_def Let_def
      split: option.splits)

text \<open>Whatever goes wrong while a pack is streamed, what is kept is the whole body.\<close>

lemma sink_write_ok:
  assumes "sink_write p ps = (m, False, ps')" "\<not> ps_exceeded ps'"
  shows "\<not> ps_exceeded ps \<and> ps_file ps' = ps_file ps @ p"
  using assms
  by (auto simp: sink_write_def count_write_def file_write_def Let_def split: option.splits if_splits)

lemma sink_write_exceeded: "sink_write p ps = (m, b, ps') \<Longrightarrow> ps_exceeded ps \<Longrightarrow> 0 < ps_limit ps \<Longrightarrow> ps_exceeded ps'"
  by (auto simp: sink_write_def count_write_def)

lemma tee_copied:
  "tee_to_disk cs out ps n = (n', True, out', ps') \<Longrightarrow> \<not> ps_exceeded ps' \<Longrightarrow>
    \<not> ps_exceeded ps \<and> ps_file ps' = ps_file ps @ concat cs \<and> n' = n + int (length (concat cs))"
proof (induction cs arbitrary: out ps n)
  case (Cons p cs)
  obtain m ps1 where sw: "sink_write p ps = (m, False, ps1)"
    using Cons.prems(1) by (cases "sink_write p ps") (auto split: bool.splits)
  obtain out1 where "tee_to_disk cs out1 ps1 (n + int (length p)) = (n', True, out', ps')"
    using Cons.prems(1) sw by (auto split: prod.splits bool.splits)
  from Cons.IH [OF this Cons.prems(2)] show ?case using sink_write_ok [OF sw] by simp
qed simp

lemma stream_effect:
  assumes "git_ok w rd rt pd pt s" "git_on w rd pd ge" "streamAndCache ge cfg resp key out s = (out', s')"
  shows "git_ok w rd rt pd pt s' \<and> gt_refs s' = gt_refs s \<and> gt_sent s' = gt_sent s
    \<and> (packs_content s' = packs_content s
       \<or> (\<exists>x. packs_content s' = (packs_content s)(key := Some (rs_body resp, x))))"
proof -
  let ?c = "gt_packs s" and ?tmp = "pk_tmp (gi_pack ge)"
  let ?out = "write_header 200 (set_header ''Content-Type'' ''application/x-git-upload-pack-result'' out)"
  let ?ps = "\<lparr>ps_file = [], ps_limit = gc_maxPackEntry cfg, ps_written = 0, ps_exceeded = False,
      ps_room = pk_room (gi_pack ge)\<rparr>"
  have w: "gi_world ge = w" and tmp: "\<And>k. ?tmp \<noteq> entry_path w pd k"
    and whole: "\<And>b. concat (pk_chunks (gi_pack ge) b) = b" using assms(2) by (auto simp: git_on_def)
  have packs: "disk_ok w pd pt ?c" using assms(1) by (simp add: git_ok_def)
  have path: "c_dir ?c @ ''/'' @ take 2 (hashKey w key) @ ''/'' @ hashKey w key = entry_path w pd key"
    using disk_okD(3) [OF packs] by (simp add: entry_path_def)
  obtain n copied out1 ps where tee: "tee_to_disk (pk_chunks (gi_pack ge) (rs_body resp)) ?out ?ps 0
      = (n, copied, out1, ps)" by (metis prod_cases4)
  let ?drop = "os_remove w ?tmp (AList.update ?tmp (ps_file ps) (c_files ?c))"
  let ?keep = "AList.update (entry_path w pd key) (ps_file ps)
      (AList.delete ?tmp (AList.update ?tmp (ps_file ps) (c_files ?c)))"
  have "map_of ?drop (entry_path w pd k) = map_of (c_files ?c) (entry_path w pd k)" for k
    using tmp [of k] by (simp add: os_remove_def update_conv' delete_conv')
  note drop_ok = disk_same_files [OF packs this]
  have keep_k: "map_of ?keep (entry_path w pd key) = Some (ps_file ps)" by (simp add: update_conv')
  have keep_o: "map_of ?keep (entry_path w pd k') = map_of (c_files ?c) (entry_path w pd k')" if "k' \<noteq> key" for k'
    using that tmp [of k'] path_eq [OF packs, of k' key] by (simp add: update_conv' delete_conv')
  note keep_ok = disk_register [OF packs keep_k keep_o, of "gi_now ge" n]
  have cases: "s' = s \<or> s' = s\<lparr>gt_packs := ?c\<lparr>c_files := ?drop\<rparr>\<rparr>
      \<or> copied \<and> \<not> ps_exceeded ps
        \<and> s' = s\<lparr>gt_packs := registerAfterStream w (gi_now ge) key (entry_path w pd key) n (?c\<lparr>c_files := ?keep\<rparr>)\<rparr>"
    using assms(3) unfolding streamAndCache_def Let_def cacheKeyHash_def w path tee
    by (auto split: if_splits)
  then show ?thesis
  proof (elim disjE conjE)
    assume "copied" "\<not> ps_exceeded ps"
      "s' = s\<lparr>gt_packs := registerAfterStream w (gi_now ge) key (entry_path w pd key) n (?c\<lparr>c_files := ?keep\<rparr>)\<rparr>"
    moreover from this have "ps_file ps = rs_body resp" using tee_copied [of _ ?out ?ps 0] tee whole by auto
    ultimately show ?thesis using keep_ok assms(1) by (auto simp: git_ok_def)
  qed (use assms(1) drop_ok in \<open>auto simp: git_ok_def\<close>)
qed

text \<open>The record a request may leave among the references, and among the packs.\<close>

definition refs_recorded :: "git_config \<Rightarrow> git_env \<Rightarrow> request \<Rightarrow> string \<Rightarrow> bytes \<Rightarrow> bool" where
  "refs_recorded cfg ge r k d \<longleftrightarrow>
     (k = refs_key ge r \<and> asks_refs r \<and> (\<exists>resp. gi_do ge (plain cfg r) = Some resp \<and> rs_status resp = 200 \<and> rs_body resp = d))
     \<or> (k = lsrefs_key ge r \<and> ls_refs_request ge cfg r
         \<and> (\<exists>resp. gi_do ge (with_body cfg r) = Some resp \<and> rs_status resp = 200 \<and> rs_body resp = d))"

definition pack_recorded :: "git_config \<Rightarrow> git_env \<Rightarrow> request \<Rightarrow> string \<Rightarrow> bytes \<Rightarrow> bool" where
  "pack_recorded cfg ge r k d \<longleftrightarrow>
     cacheable_clone ge cfg r \<and> (\<exists>adv. k = pack_key ge r adv)
     \<and> (\<exists>resp. gi_do ge (with_body cfg r) = Some resp \<and> rs_status resp = 200 \<and> rs_body resp = d)"

text \<open>Only records of the second argument's kind are new.\<close>

definition grows_by :: "contents \<Rightarrow> (string \<Rightarrow> bytes \<Rightarrow> bool) \<Rightarrow> contents \<Rightarrow> bool" where
  "grows_by c R c' \<longleftrightarrow> (\<forall>k d x. c' k = Some (d, x) \<longrightarrow> c k = Some (d, x) \<or> R k d)"

lemma grows_by_le: "map_le c' c \<Longrightarrow> grows_by c R c'"
  by (auto simp: grows_by_def map_le_def dom_def)

lemma grows_by_upd: "map_le c' c \<Longrightarrow> (\<And>d x. v = Some (d, x) \<Longrightarrow> R k d) \<Longrightarrow> grows_by c R (c'(k := v))"
  by (auto simp: grows_by_def map_le_def dom_def split: if_splits)

lemma refs_through_effect:
  assumes "git_ok w rd rt pd pt s" "git_on w rd pd ge" "refs_through ge key q s = (res, s')"
    "\<And>resp. gi_do ge q = Some resp \<Longrightarrow> rs_status resp = 200 \<Longrightarrow> R key (rs_body resp)"
  shows "git_ok w rd rt pd pt s' \<and> grows_by (refs_content s) R (refs_content s') \<and> gt_packs s' = gt_packs s
    \<and> (gt_sent s' = gt_sent s @ [q] \<or> gt_sent s' = gt_sent s
         \<and> (\<exists>d. live (gi_now ge) (refs_content s key) = Some d \<and> res = Inr d))"
proof (cases "live (gi_now ge) (refs_content s key)")
  case (Some d)
  then show ?thesis using refs_through_live [OF assms(1,2) Some, of q] assms(3) by (auto intro: grows_by_le)
next
  case None
  obtain v where "git_ok w rd rt pd pt s'" "refs_content s' = (refs_content s)(key := v)" "gt_packs s' = gt_packs s"
    "gt_sent s' = gt_sent s @ [q]"
    "\<And>d x. v = Some (d, x) \<Longrightarrow> \<exists>resp. gi_do ge q = Some resp \<and> rs_status resp = 200 \<and> d = rs_body resp"
    using refs_through_dead [OF assms(1,2) None, of q] assms(3) by auto
  then show ?thesis using assms(4) by (auto intro!: grows_by_upd)
qed

lemma serve_pack_effect:
  assumes "git_ok w rd rt pd pt s" "git_on w rd pd ge" "serve_pack ge cfg r key out s = (out', s')"
    "\<And>resp. gi_do ge (with_body cfg r) = Some resp \<Longrightarrow> rs_status resp = 200 \<Longrightarrow> R key (rs_body resp)"
  shows "git_ok w rd rt pd pt s' \<and> gt_refs s' = gt_refs s \<and> grows_by (packs_content s) R (packs_content s')
    \<and> (gt_sent s' = gt_sent s @ [with_body cfg r] \<or> gt_sent s' = gt_sent s
         \<and> (\<exists>d. live (gi_now ge) (packs_content s key) = Some d \<and> out' = pack_answer d out))"
proof -
  have w: "gi_world ge = w" using assms(2) by (simp add: git_on_def)
  have packs: "disk_ok w pd pt (gt_packs s)" using assms(1) by (simp add: git_ok_def)
  show ?thesis
  proof (cases "live (gi_now ge) (packs_content s key)")
    case (Some d)
    obtain c where c: "get w (gi_now ge) key (gt_packs s) = (Some (entry_path w pd key), c)"
      "map_of (c_files c) (entry_path w pd key) = Some d" "disk_ok w pd pt c" "disk_content c = packs_content s"
      using disk_get_live [OF packs Some] by blast
    then have "s' = s\<lparr>gt_packs := c\<rparr>" "out' = pack_answer d out"
      using assms(3) disk_okD(1) [OF packs] by (auto simp: serve_pack_def servePackFromDisk_def os_open_def w)
    then show ?thesis using c assms(1) Some by (auto simp: git_ok_def intro!: grows_by_le)
  next
    case None
    obtain c where c: "get w (gi_now ge) key (gt_packs s) = (None, c)" "disk_ok w pd pt c"
      "disk_content c = (packs_content s)(key := None)"
      using disk_get_dead [OF packs None] by blast
    let ?s = "s\<lparr>gt_packs := c, gt_sent := gt_sent s @ [with_body cfg r]\<rparr>"
    have ok: "git_ok w rd rt pd pt ?s" using assms(1) c(2) by (simp add: git_ok_def)
    have le: "map_le (packs_content ?s) (packs_content s)" using c(3) by (auto simp: map_le_def)
    show ?thesis
    proof (cases "\<exists>resp. gi_do ge (with_body cfg r) = Some resp \<and> rs_status resp = 200")
      case True
      then obtain resp where resp: "gi_do ge (with_body cfg r) = Some resp" "rs_status resp = 200" by blast
      then have "streamAndCache ge cfg resp key out ?s = (out', s')"
        using assms(3) c(1) by (simp add: serve_pack_def w doUpstreamRequestWithBody_def Let_def)
      note eff = stream_effect [OF ok assms(2) this]
      then show ?thesis using le assms(4) [OF resp] by (auto intro: grows_by_le grows_by_upd)
    next
      case False
      then have "s' = ?s"
        using assms(3) c(1) by (auto simp: serve_pack_def w doUpstreamRequestWithBody_def Let_def split: option.splits)
      then show ?thesis using ok le by (auto intro: grows_by_le)
    qed
  qed
qed

text \<open>When a request is answered without the upstream, and with what.\<close>

definition from_cache :: "git_env \<Rightarrow> git_config \<Rightarrow> request \<Rightarrow> writer \<Rightarrow> git_state \<Rightarrow> writer \<Rightarrow> bool" where
  "from_cache ge cfg r out s out' \<longleftrightarrow> isAllowedGitHost cfg (extractHost r) \<and>
     ((asks_refs r \<and> (\<exists>d. live (gi_now ge) (refs_content s (refs_key ge r)) = Some d \<and> out' = refs_answer d out))
      \<or> (has_suffix (u_path (rq_url r)) ''/git-upload-pack'' \<and> ls_refs_request ge cfg r
          \<and> (\<exists>d. live (gi_now ge) (refs_content s (lsrefs_key ge r)) = Some d \<and> out' = pack_answer d out))
      \<or> (has_suffix (u_path (rq_url r)) ''/git-upload-pack'' \<and> cacheable_clone ge cfg r
          \<and> (\<exists>adv d. live (gi_now ge) (packs_content s (pack_key ge r adv)) = Some d \<and> out' = pack_answer d out)))"

text \<open>
  The contract of the Git handlers towards their caches and the upstream: only records of the
  request's own scope are new, at most one upstream request is made, and without one the
  answer is a live record of that scope.
\<close>

definition git_effect :: "git_env \<Rightarrow> git_config \<Rightarrow> request \<Rightarrow> writer \<Rightarrow> git_state \<Rightarrow> writer \<times> git_state \<Rightarrow> bool" where
  "git_effect ge cfg r out s res \<longleftrightarrow>
     grows_by (refs_content s) (refs_recorded cfg ge r) (refs_content (snd res))
     \<and> grows_by (packs_content s) (pack_recorded cfg ge r) (packs_content (snd res))
     \<and> ((\<exists>q\<in>{plain cfg r, with_body cfg r}. gt_sent (snd res) = gt_sent s @ [q])
        \<or> gt_sent (snd res) = gt_sent s \<and> from_cache ge cfg r out s (fst res))"

lemma grows_by_refl [simp]: "grows_by c R c"
  by (simp add: grows_by_def)

lemma forward_effect:
  assumes "git_ok w rd rt pd pt s" "b = None \<or> b = Some (rq_body r)"
  shows "git_ok w rd rt pd pt (snd (forwardDirect ge cfg r b out s))
    \<and> git_effect ge cfg r out s (forwardDirect ge cfg r b out s)"
proof -
  obtain out' s' where run: "forwardDirect ge cfg r b out s = (out', s')" by fastforce
  show ?thesis
    using forwardDirect_keeps [OF run] assms by (auto simp: run git_effect_def git_ok_def)
qed

lemma info_refs_effect:
  assumes "git_ok w rd rt pd pt s" "git_on w rd pd ge" "asks_refs r"
  shows "git_ok w rd rt pd pt (snd (handleInfoRefs ge cfg r out s))
    \<and> git_effect ge cfg r out s (handleInfoRefs ge cfg r out s)"
proof (cases "isAllowedGitHost cfg (extractHost r)")
  case False
  then show ?thesis using forward_effect [OF assms(1), of None r ge cfg out] by (simp add: handleInfoRefs_def Let_def)
next
  case True
  obtain res s' where run: "refs_through ge (refs_key ge r) (plain cfg r) s = (res, s')" by fastforce
  have eff: "git_ok w rd rt pd pt s' \<and> grows_by (refs_content s) (refs_recorded cfg ge r) (refs_content s')
    \<and> gt_packs s' = gt_packs s \<and> (gt_sent s' = gt_sent s @ [plain cfg r] \<or> gt_sent s' = gt_sent s
         \<and> (\<exists>d. live (gi_now ge) (refs_content s (refs_key ge r)) = Some d \<and> res = Inr d))"
    by (rule refs_through_effect [OF assms(1,2) run]) (auto simp: refs_recorded_def assms(3))
  have "handleInfoRefs ge cfg r out s =
      ((case res of Inl err \<Rightarrow> refs_failed err out | Inr data \<Rightarrow> refs_answer data out), s')"
    using True run by (auto simp: handleInfoRefs_def Let_def repo_of_def scope_of_def split: sum.split)
  then show ?thesis using eff True assms(3) by (auto simp: git_effect_def from_cache_def)
qed

lemma ls_refs_effect:
  assumes "git_ok w rd rt pd pt s" "git_on w rd pd ge" "ls_refs_request ge cfg r"
    "has_suffix (u_path (rq_url r)) ''/git-upload-pack''"
  shows "git_ok w rd rt pd pt (snd (handleV2LsRefs ge cfg r (rq_body r) (extractHost r) (repo_of r) out s))
    \<and> git_effect ge cfg r out s (handleV2LsRefs ge cfg r (rq_body r) (extractHost r) (repo_of r) out s)"
proof -
  obtain res s' where run: "refs_through ge (lsrefs_key ge r) (with_body cfg r) s = (res, s')" by fastforce
  have eff: "git_ok w rd rt pd pt s' \<and> grows_by (refs_content s) (refs_recorded cfg ge r) (refs_content s')
    \<and> gt_packs s' = gt_packs s \<and> (gt_sent s' = gt_sent s @ [with_body cfg r] \<or> gt_sent s' = gt_sent s
         \<and> (\<exists>d. live (gi_now ge) (refs_content s (lsrefs_key ge r)) = Some d \<and> res = Inr d))"
    by (rule refs_through_effect [OF assms(1,2) run]) (auto simp: refs_recorded_def assms(3))
  have "isAllowedGitHost cfg (extractHost r)" using assms(3) by (simp add: ls_refs_request_def)
  moreover from this have "handleV2LsRefs ge cfg r (rq_body r) (extractHost r) (repo_of r) out s =
      ((case res of Inl err \<Rightarrow> refs_failed err out | Inr data \<Rightarrow> pack_answer data out), s')"
    using run by (auto simp: handleV2LsRefs_def Let_def scope_of_def split: sum.split)
  ultimately show ?thesis using eff assms(3,4) by (auto simp: git_effect_def from_cache_def)
qed

lemma clone_effect:
  assumes "git_ok w rd rt pd pt s" "git_on w rd pd ge" "cacheable_clone ge cfg r"
    "has_suffix (u_path (rq_url r)) ''/git-upload-pack''"
  shows "git_ok w rd rt pd pt (snd (handleUploadPack ge cfg r out s))
    \<and> git_effect ge cfg r out s (handleUploadPack ge cfg r out s)"
proof -
  obtain p s1 where s1: "refs_path ge r s = (p, s1)" by fastforce
  note k1 = refs_path_keeps [OF assms(1,2) s1]
  let ?fp = "\<lambda>path. fingerprintFromFile (gi_world ge) path (gt_refs s1)"
  have allowed: "isAllowedGitHost cfg (extractHost r)" using assms(3) by (simp add: cacheable_clone_def)
  consider path fp where "p = Some path" "?fp path = Some fp" | "\<forall>path. p = Some path \<longrightarrow> ?fp path = None"
    by (cases p; cases "?fp (the p)") auto
  then show ?thesis
  proof cases
    case (1 path fp)
    define adv where "adv = the (os_open (gi_world ge) path (gt_refs s1))"
    have adv: "fp = refsFingerprint (hashKey (gi_world ge)) adv"
      using 1(2) unfolding adv_def fingerprintFromFile_def by auto
    obtain out' s' where run: "serve_pack ge cfg r (pack_key ge r adv) out s1 = (out', s')" by fastforce
    have eff: "git_ok w rd rt pd pt s' \<and> gt_refs s' = gt_refs s1
      \<and> grows_by (packs_content s1) (pack_recorded cfg ge r) (packs_content s')
      \<and> (gt_sent s' = gt_sent s1 @ [with_body cfg r] \<or> gt_sent s' = gt_sent s1
         \<and> (\<exists>d. live (gi_now ge) (packs_content s1 (pack_key ge r adv)) = Some d \<and> out' = pack_answer d out))"
      by (rule serve_pack_effect [OF conjunct1 [OF k1] assms(2) run]) (auto simp: pack_recorded_def assms(3))
    have "handleUploadPack ge cfg r out s = (out', s')"
      using assms(3) s1 1 run adv by (simp add: upload_pack_cases)
    then show ?thesis
      using eff k1 allowed assms(3,4) by (auto simp: git_effect_def from_cache_def intro: grows_by_le)
  next
    case 2
    then have "handleUploadPack ge cfg r out s = forwardDirect ge cfg r (Some (rq_body r)) out s1"
      using assms(3) s1 by (auto simp: upload_pack_cases split: option.split)
    moreover obtain out' s' where "forwardDirect ge cfg r (Some (rq_body r)) out s1 = (out', s')" by fastforce
    ultimately show ?thesis
      using forwardDirect_keeps [of ge cfg r "Some (rq_body r)" out s1] k1
      by (auto simp: git_effect_def git_ok_def intro: grows_by_le)
  qed
qed

lemma push_effect:
  assumes "git_ok w rd rt pd pt s" "git_on w rd pd ge"
  shows "git_ok w rd rt pd pt (snd (handleReceivePack ge cfg r out s))
    \<and> git_effect ge cfg r out s (handleReceivePack ge cfg r out s)"
proof (cases "gi_do ge (plain cfg r)")
  case None
  then show ?thesis
    using assms by (auto simp: handleReceivePack_def doUpstreamRequest_def Let_def git_ok_def git_effect_def)
next
  case (Some resp)
  obtain s' where s': "handleReceivePack ge cfg r out s = (send_response resp out, s')" "git_ok w rd rt pd pt s'"
    "gt_packs s' = gt_packs s" "gt_sent s' = gt_sent s @ [plain cfg r]"
    "refs_content s' = (\<lambda>k. if rs_status resp = 200 \<and> list_ex (has_prefix k) (push_prefixes r)
         then None else refs_content s k)"
    using push_step [OF assms Some, of out] by blast
  have "map_le (refs_content s') (refs_content s)" unfolding s'(5) by (auto simp: map_le_def split: if_splits)
  with s'(1-4) show ?thesis by (simp add: git_effect_def grows_by_le)
qed

lemma git_handle_effect:
  assumes "git_ok w rd rt pd pt s" "git_on w rd pd ge"
  shows "git_ok w rd rt pd pt (snd (git_handle ge cfg r out s)) \<and> git_effect ge cfg r out s (git_handle ge cfg r out s)"
proof -
  let ?path = "u_path (rq_url r)"
  have up: "git_ok w rd rt pd pt (snd (handleUploadPack ge cfg r out s))
      \<and> git_effect ge cfg r out s (handleUploadPack ge cfg r out s)" if "has_suffix ?path ''/git-upload-pack''"
    using clone_effect [OF assms _ that, of cfg out] ls_refs_effect [OF assms _ that, of cfg out]
      forward_effect [OF assms(1), of None r ge cfg out]
      forward_effect [OF assms(1), of "Some (rq_body r)" r ge cfg out]
    by (cases "cacheable_clone ge cfg r") (simp_all add: upload_pack_cases)
  show ?thesis
    using up info_refs_effect [OF assms, of r cfg out] push_effect [OF assms, of cfg r out]
      forward_effect [OF assms(1), of None r ge cfg out]
    by (simp add: git_handle_def Let_def asks_refs_def)
qed

end
