(* ===== verification/Git_Properties.thy ===== *)
theory Git_Properties
  imports Git_Flow
begin

text \<open>
  The properties of the Git handler: what a push invalidates, that packs are cached whole and
  for fresh clones only, that cached answers stay within the host, repository and credentials
  they were fetched with, that a clone is fetched once, and where stale packs come from.
\<close>

section \<open>Histories of records\<close>

text \<open>
  A server that only adds records of its requests: what it holds after a run from an empty
  store was recorded by a request of the run.
\<close>

locale recorder =
  fixes ok :: "'s \<Rightarrow> bool"
    and content :: "'s \<Rightarrow> contents"
    and calm :: "'q \<Rightarrow> bool"
    and step :: "'q \<Rightarrow> 's \<Rightarrow> 's"
    and recorded :: "'q \<Rightarrow> string \<Rightarrow> bytes \<Rightarrow> bool"
  assumes step_ok: "ok s \<Longrightarrow> calm q \<Longrightarrow> ok (step q s)"
    and step_grows: "ok s \<Longrightarrow> calm q \<Longrightarrow> grows_by (content s) (recorded q) (content (step q s))"
begin

lemma run_ok: "ok s \<Longrightarrow> list_all calm qs \<Longrightarrow> ok (fold step qs s)"
  by (induction qs arbitrary: s) (simp_all add: step_ok)

lemma run_recorded:
  "ok s \<Longrightarrow> list_all calm qs \<Longrightarrow> content (fold step qs s) k = Some (d, x) \<Longrightarrow>
    content s k = Some (d, x) \<or> (\<exists>q\<in>set qs. recorded q k d)"
proof (induction qs arbitrary: s)
  case (Cons q qs)
  then show ?case
    using Cons.IH [of "step q s"] step_ok [of s q] step_grows [of s q] by (auto simp: grows_by_def)
qed simp

end

definition git_step :: "git_config \<Rightarrow> git_env \<times> request \<times> writer \<Rightarrow> git_state \<Rightarrow> git_state" where
  "git_step cfg = (\<lambda>(ge, r, out) s. snd (git_handle ge cfg r out s))"

definition git_run :: "git_config \<Rightarrow> (git_env \<times> request \<times> writer) list \<Rightarrow> git_state \<Rightarrow> git_state" where
  "git_run cfg reqs s = fold (git_step cfg) reqs s"

interpretation refs_history: recorder "git_ok w rd rt pd pt" refs_content "\<lambda>(ge, r, out). git_on w rd pd ge"
    "git_step cfg" "\<lambda>(ge, r, out). refs_recorded cfg ge r"
  for w rd rt pd pt cfg
  using git_handle_effect by unfold_locales (fastforce simp: git_step_def git_effect_def split: prod.splits)+

interpretation packs_history: recorder "git_ok w rd rt pd pt" packs_content "\<lambda>(ge, r, out). git_on w rd pd ge"
    "git_step cfg" "\<lambda>(ge, r, out). pack_recorded cfg ge r"
  for w rd rt pd pt cfg
  using git_handle_effect by unfold_locales (fastforce simp: git_step_def git_effect_def split: prod.splits)+

section \<open>Keys\<close>

lemmas git_key_defs = refsCacheKey_def lsRefsCacheKey_def packCacheKey_def

abbreviation no_colon :: "string \<Rightarrow> bool" where
  "no_colon s \<equiv> CHR '':'' \<notin> set s"

lemma scope_key_inject:
  assumes "no_colon h" "no_colon h'" "no_colon a" "no_colon a'"
  shows "h @ CHR '':'' # p @ CHR '':'' # a = h' @ CHR '':'' # p' @ CHR '':'' # a' \<longleftrightarrow> h = h' \<and> p = p' \<and> a = a'"
  using assms by (simp add: sep_first_inject sep_last_inject)

lemma refsCacheKey_inject:
  assumes "no_colon h" "no_colon h'" "no_colon a" "no_colon a'"
  shows "refsCacheKey h p a = refsCacheKey h' p' a' \<longleftrightarrow> h = h' \<and> p = p' \<and> a = a'"
proof -
  have "refsCacheKey h p a = refsCacheKey h' p' a'
      \<longleftrightarrow> (h @ CHR '':'' # p @ CHR '':'' # a) @ '':upload-pack'' = (h' @ CHR '':'' # p' @ CHR '':'' # a') @ '':upload-pack''"
    by (simp add: refsCacheKey_def)
  then show ?thesis unfolding append_same_eq scope_key_inject [OF assms] .
qed

lemma lsRefsCacheKey_inject:
  assumes "no_colon h" "no_colon h'" "no_colon a" "no_colon a'"
  shows "lsRefsCacheKey h p a = lsRefsCacheKey h' p' a' \<longleftrightarrow> h = h' \<and> p = p' \<and> a = a'"
  using scope_key_inject [OF assms] by (simp add: lsRefsCacheKey_def)

lemma packCacheKey_inject:
  assumes "no_colon h" "no_colon h'" "no_colon a" "no_colon a'" "no_colon f" "no_colon f'"
  shows "packCacheKey h p a f = packCacheKey h' p' a' f' \<longleftrightarrow> h = h' \<and> p = p' \<and> a = a' \<and> f = f'"
  using sep_last_inject [OF assms(5,6), of "h @ CHR '':'' # p @ CHR '':'' # a" "h' @ CHR '':'' # p' @ CHR '':'' # a'"]
    scope_key_inject [OF assms(1-4)]
  by (simp add: packCacheKey_def)

lemma key_kinds_apart:
  "refsCacheKey h p a \<noteq> lsRefsCacheKey h' p' a'" "lsRefsCacheKey h p a \<noteq> refsCacheKey h' p' a'"
  by (simp_all add: git_key_defs)

text \<open>Hosts without a colon, hashes in hexadecimal: no component of a key has the separator.\<close>

definition plain_scope :: "git_env \<Rightarrow> request \<Rightarrow> bool" where
  "plain_scope ge r \<longleftrightarrow> no_colon (extractHost r) \<and> (\<forall>x. no_colon (take 40 (hashKey (gi_world ge) x)))"

lemma plain_scopeD:
  assumes "plain_scope ge r"
  shows "no_colon (extractHost r)" "no_colon (scope_of ge r)" "no_colon (refsFingerprint (hashKey (gi_world ge)) d)"
proof -
  have "no_colon (take 20 (hashKey (gi_world ge) x))" for x
    using assms in_set_takeD [of _ 20 "take 40 (hashKey (gi_world ge) x)"] by (auto simp: plain_scope_def)
  then show "no_colon (extractHost r)" "no_colon (scope_of ge r)" "no_colon (refsFingerprint (hashKey (gi_world ge)) d)"
    using assms by (simp_all add: plain_scope_def scope_of_def authScopeFromRequest_def refsFingerprint_def Let_def)
qed

definition same_scope :: "git_env \<Rightarrow> request \<Rightarrow> git_env \<Rightarrow> request \<Rightarrow> bool" where
  "same_scope ge r ge' r' \<longleftrightarrow>
     extractHost r = extractHost r' \<and> repo_of r = repo_of r' \<and> scope_of ge r = scope_of ge' r'"

text \<open>A record under a key of a request was recorded by a request of its scope.\<close>

definition answered_in_full :: "git_config \<Rightarrow> git_env \<Rightarrow> request \<Rightarrow> bytes \<Rightarrow> bool" where
  "answered_in_full cfg ge r d \<longleftrightarrow>
     (\<exists>q\<in>{plain cfg r, with_body cfg r}. \<exists>resp. gi_do ge q = Some resp \<and> rs_status resp = 200 \<and> rs_body resp = d)"

lemma recorded_in_scope:
  assumes "plain_scope ge r" "plain_scope ge' r'"
  shows "refs_recorded cfg ge' r' (refs_key ge r) d \<Longrightarrow> same_scope ge' r' ge r \<and> answered_in_full cfg ge' r' d"
    and "refs_recorded cfg ge' r' (lsrefs_key ge r) d \<Longrightarrow> same_scope ge' r' ge r \<and> answered_in_full cfg ge' r' d"
    and "pack_recorded cfg ge' r' (pack_key ge r adv) d \<Longrightarrow> same_scope ge' r' ge r \<and> answered_in_full cfg ge' r' d"
  using plain_scopeD [OF assms(1)] plain_scopeD [OF assms(2)]
  by (auto simp: refs_recorded_def pack_recorded_def same_scope_def answered_in_full_def key_kinds_apart
      refsCacheKey_inject lsRefsCacheKey_inject packCacheKey_inject)

lemma live_SomeD: "live now x = Some d \<Longrightarrow> \<exists>t. x = Some (d, t)"
  by (auto simp: live_def split: option.splits if_splits)

text \<open>A live record after a run from empty caches comes from a request of the run.\<close>

lemma run_refs:
  assumes "list_all (\<lambda>(ge, r, out). git_on w rd pd ge) reqs" "git_ok w rd rt pd pt s"
    "refs_content s = (\<lambda>_. None)" "live now (refs_content (git_run cfg reqs s) k) = Some d"
  shows "\<exists>(ge, r, out)\<in>set reqs. refs_recorded cfg ge r k d"
  using refs_history.run_recorded [OF assms(2,1), of cfg k d] assms(3) live_SomeD [OF assms(4)]
  by (fastforce simp: git_run_def)

lemma run_packs:
  assumes "list_all (\<lambda>(ge, r, out). git_on w rd pd ge) reqs" "git_ok w rd rt pd pt s"
    "packs_content s = (\<lambda>_. None)" "live now (packs_content (git_run cfg reqs s) k) = Some d"
  shows "\<exists>(ge, r, out)\<in>set reqs. pack_recorded cfg ge r k d"
  using packs_history.run_recorded [OF assms(2,1), of cfg k d] assms(3) live_SomeD [OF assms(4)]
  by (fastforce simp: git_run_def)

section \<open>Properties\<close>




text \<open>C37: After a push a clone can get the old pack. The pack of a clone is found by the fingerprint
  of the advertisement of \<open>info/refs\<close> whenever one is cached. In protocol version 2 it lists
  capabilities, not references, so it is the same before and after a push: a client that
  reads it, is told the new references by \<open>ls-refs\<close>, and asks for them is answered with the
  pack stored before the push, and the upstream never sees its fetch.\<close>

theorem push_then_clone_stale:
  assumes "git_ok w rd rt pd pt s" "list_all (git_on w rd pd) [ge1, ge2, ge3, ge4]"
    "has_suffix (u_path (rq_url push)) ''/git-receive-pack''" "asks_refs r2"
    "has_suffix (u_path (rq_url r3)) ''/git-upload-pack''" "has_suffix (u_path (rq_url r4)) ''/git-upload-pack''"
    "ls_refs_request ge3 cfg r3" "cacheable_clone ge4 cfg r4"
    "extractHost r2 = extractHost push" "repo_of r2 = repo_of push" "same_scope ge3 r3 ge2 r2" "same_scope ge4 r4 ge2 r2"
    "gi_do ge1 (plain cfg push) = Some pushed" "rs_status pushed = 200"
    "gi_do ge2 (plain cfg r2) = Some adv" "rs_status adv = 200" "\<not> rs_bodyErr adv" "pi_fault (gi_put ge2) = NoFault"
    "gi_do ge3 (with_body cfg r3) = Some listing" "rs_status listing = 200" "\<not> rs_bodyErr listing"
    "pi_fault (gi_put ge3) = NoFault" "rt \<le> 0 \<or> gi_now ge4 \<le> gi_now ge2 + rt"
    "live (gi_now ge4) (packs_content s (pack_key ge4 r4 (rs_body adv))) = Some old_pack"
    "git_handle ge1 cfg push out s = (out1, s1)" "git_handle ge2 cfg r2 out s1 = (out2, s2)"
    "git_handle ge3 cfg r3 out s2 = (out3, s3)" "git_handle ge4 cfg r4 out s3 = (out4, s4)"
  shows "out3 = pack_answer (rs_body listing) out \<and> out4 = pack_answer old_pack out
    \<and> gt_sent s4 = gt_sent s @ [plain cfg push, plain cfg r2, with_body cfg r3]"
proof -
  note on = assms(2) [simplified]
  have w: "gi_world ge2 = w" "gi_world ge3 = w" "gi_world ge4 = w" using on by (simp_all add: git_on_def)
  have keys: "lsrefs_key ge3 r3 = lsrefs_key ge2 r2" "refs_key ge4 r4 = refs_key ge2 r2"
    using assms(11,12) by (simp_all add: same_scope_def)
  have allowed: "isAllowedGitHost cfg (extractHost r2)"
    using assms(8,12) by (simp add: cacheable_clone_def same_scope_def)
  have s1: "git_ok w rd rt pd pt s1" "gt_packs s1 = gt_packs s" "gt_sent s1 = gt_sent s @ [plain cfg push]"
    "refs_content s1 = (\<lambda>k. if list_ex (has_prefix k) (push_prefixes push) then None else refs_content s k)"
    using push_step [OF assms(1) _ assms(13), of out] on receive_pack_path [OF assms(3)] assms(3,14,25)
    by (auto simp: git_handle_def Let_def)
  have dead: "refs_content s1 (refs_key ge2 r2) = None" "refs_content s1 (lsrefs_key ge2 r2) = None"
    using assms(9,10)
    by (auto simp: s1(4) push_prefixes_def git_key_defs repoRefsPrefix_def repoLsRefsPrefix_def has_prefix_iff)
  let ?adv = "Some (rs_body adv, effective_expiry rt (gi_now ge2) 0)"
  have s2: "git_ok w rd rt pd pt s2" "gt_packs s2 = gt_packs s" "gt_sent s2 = gt_sent s1 @ [plain cfg r2]"
    "refs_content s2 = (refs_content s1)(refs_key ge2 r2 := ?adv)"
    using refs_through_fetched [OF s1(1), of ge2 "refs_key ge2 r2" "plain cfg r2" adv] on dead(1) assms(15-18,26)
      info_refs_through [OF assms(4) allowed] s1(2) by auto
  have "live (gi_now ge3) (refs_content s2 (lsrefs_key ge3 r3)) = None"
    using dead(2) by (simp add: s2(4) keys key_kinds_apart)
  from refs_through_fetched [OF s2(1) _ this assms(19-22)] obtain s' where
    through: "refs_through ge3 (lsrefs_key ge3 r3) (with_body cfg r3) s2 = (Inr (rs_body listing), s')"
    and s': "git_ok w rd rt pd pt s'" "gt_packs s' = gt_packs s" "gt_sent s' = gt_sent s2 @ [with_body cfg r3]"
      "\<exists>v. refs_content s' = (refs_content s2)(lsrefs_key ge3 r3 := v)"
    using on s2(2) by auto
  have three: "out3 = pack_answer (rs_body listing) out" "s3 = s'"
    using ls_refs_through [OF assms(7) through, of out] upload_pack_path [OF assms(5)] assms(5,27)
    by (simp_all add: git_handle_def Let_def)
  have "live (gi_now ge4) (refs_content s3 (refs_key ge4 r4)) = Some (rs_body adv)"
    using s'(4) assms(23) by (auto simp: three(2) s2(4) keys key_kinds_apart effective_expiry_def)
  moreover have "live (gi_now ge4) (packs_content s3 (pack_key ge4 r4 (rs_body adv))) = Some old_pack"
    using assms(24) by (simp add: three(2) s'(2))
  ultimately have "out4 = pack_answer old_pack out \<and> gt_sent s4 = gt_sent s3"
    using clone_hit [of w rd rt pd pt s3 ge4 cfg r4 "rs_body adv" old_pack out] s'(1) three(2) on assms(6,8,28)
      upload_pack_path [OF assms(6)] by (auto simp: git_handle_def Let_def)
  then show ?thesis using three s'(3) s2(3) s1(3) by simp
qed

text \<open>On a full disk the client gets the bytes the disk took.\<close>

lemma tee_room:
  assumes "w_takes out = None" "w_status out \<noteq> None" "ps_room ps = Some room" "ps_limit ps \<le> 0"
    "length (ps_file ps) \<le> room"
  shows "\<exists>n ps'. tee_to_disk cs out ps n0 = (n, length (ps_file ps) + length (concat cs) \<le> room,
      out\<lparr>w_body := w_body out @ take (room - length (ps_file ps)) (concat cs)\<rparr>, ps')"
  using assms
proof (induction cs arbitrary: out ps n0)
  case (Cons p cs)
  let ?left = "room - length (ps_file ps)"
  have client: "write_bytes q out = (True, out\<lparr>w_body := w_body out @ q\<rparr>)" for q
    using Cons.prems(1,2) by (auto simp: write_bytes_all write_header_def)
  have sink: "sink_write p ps = (min (length p) ?left, min (length p) ?left \<noteq> length p,
      ps\<lparr>ps_file := ps_file ps @ take (min (length p) ?left) p\<rparr>)"
    using Cons.prems(3,4) by (simp add: sink_write_def file_write_def Let_def)
  show ?case
  proof (cases "length p \<le> ?left")
    case True
    let ?ps = "ps\<lparr>ps_file := ps_file ps @ p\<rparr>" and ?out = "out\<lparr>w_body := w_body out @ p\<rparr>"
    have "\<exists>n ps'. tee_to_disk cs ?out ?ps (n0 + int (length p)) = (n, length (ps_file ?ps) + length (concat cs) \<le> room,
        ?out\<lparr>w_body := w_body ?out @ take (room - length (ps_file ?ps)) (concat cs)\<rparr>, ps')"
      using Cons.prems True by (intro Cons.IH) auto
    then show ?thesis using True Cons.prems(5) by (simp add: sink client min_absorb1 add.assoc)
  next
    case False
    then show ?thesis using Cons.prems(5) by (auto simp: sink client min_absorb2)
  qed
qed simp

text \<open>C38: A full disk truncates the clone. When the disk has room for only part of a pack (and the
  size of packs is not limited), the client gets exactly the part that fitted: \<open>TeeReader\<close>
  stops the copy at the failed write, with the status 200 already sent, and nothing is kept.\<close>

theorem full_disk_truncates:
  assumes "git_on w rd pd ge" "pk_mkdir_ok (gi_pack ge)" "pk_create_ok (gi_pack ge)" "pk_room (gi_pack ge) = Some room"
    "room < length (rs_body resp)" "gc_maxPackEntry cfg \<le> 0" "w_takes out = None" "w_status out = None"
    "streamAndCache ge cfg resp key out s = (out', s')"
  shows "w_status out' = Some 200 \<and> w_body out' = w_body out @ take room (rs_body resp)
    \<and> c_entries (gt_packs s') = c_entries (gt_packs s)"
proof -
  let ?out = "write_header 200 (set_header ''Content-Type'' ''application/x-git-upload-pack-result'' out)"
  let ?ps = "\<lparr>ps_file = [], ps_limit = gc_maxPackEntry cfg, ps_written = 0, ps_exceeded = False, ps_room = Some room\<rparr>"
  have whole: "concat (pk_chunks (gi_pack ge) (rs_body resp)) = rs_body resp" using assms(1) by (simp add: git_on_def)
  obtain n ps where "tee_to_disk (pk_chunks (gi_pack ge) (rs_body resp)) ?out ?ps 0
      = (n, False, ?out\<lparr>w_body := w_body out @ take room (rs_body resp)\<rparr>, ps)"
    using tee_room [of ?out ?ps room "pk_chunks (gi_pack ge) (rs_body resp)" 0] assms(5-7) whole by auto
  then show ?thesis
    using assms(2-4,8,9) by (auto simp: streamAndCache_def Let_def)
qed

section \<open>Headers\<close>

lemma h_values_add_values:
  "h_values (add_values key vs dst) k = h_values dst k @ (if canonical_key k = canonical_key key then vs else [])"
  unfolding add_values_def
  by (induction vs arbitrary: dst) (auto simp: h_values_add)

definition canonical_header :: "header \<Rightarrow> bool" where
  "canonical_header h \<longleftrightarrow> distinct (keys h) \<and> list_all (\<lambda>(key, _). canonical_key key = key) h"

lemma copy_filtered_values:
  assumes "canonical_header src"
  shows "h_values (fold (\<lambda>(key, values) dst. if to_lower key \<in> skip then dst else add_values key values dst) src dst) k
    = h_values dst k @ (if to_lower (canonical_key k) \<in> skip then [] else h_values src k)"
  using assms
proof (induction src arbitrary: dst)
  case (Cons p src)
  obtain key vs where p: "p = (key, vs)" by (cases p)
  have src: "canonical_header src" "canonical_key key = key" "key \<notin> fst ` set src"
    using Cons.prems by (auto simp: canonical_header_def p)
  have "h_values src k = []" if "canonical_key k = key"
    using src(3) that map_of_eq_None_iff [of src key] by (simp add: h_values_def)
  moreover have "h_values ((key, vs) # src) k = (if canonical_key k = key then vs else h_values src k)"
    by (simp add: h_values_def)
  ultimately show ?case
    using Cons.IH [OF src(1)] src(2) by (auto simp: p h_values_add_values)
qed (simp add: h_values_def)

lemma in_skip_set:
  "key \<noteq> [] \<Longrightarrow> key \<in> set (skip_set src) \<longleftrightarrow> key \<in> set staticHopByHop
     \<or> key \<in> (\<lambda>part. to_lower (trim_space part)) ` set (split_on CHR '','' (h_get src ''Connection''))"
  by (auto simp: skip_set_def nominated_def)


section \<open>Witnesses\<close>

definition git_demo_world :: world where
  "git_demo_world = calm_world (\<lambda>k. replicate 40 (CHR ''a'') @ k)"

definition git_demo_cache :: "string \<Rightarrow> int \<Rightarrow> cache" where
  "git_demo_cache d ttl = \<lparr>c_dir = d, c_maxSize = 0, c_ttl = ttl, c_softEvictPercent = 0, c_entries = [],
     c_totalSize = 0, c_db = None, c_files = []\<rparr>"

definition git_demo_state :: git_state where
  "git_demo_state = \<lparr>gt_refs = git_demo_cache ''r'' 100, gt_packs = git_demo_cache ''p'' 100, gt_sent = []\<rparr>"

definition git_demo_config :: git_config where
  "git_demo_config = \<lparr>gc_refsCache = \<lparr>cc_dir = ''r'', cc_maxSize = 0\<rparr>, gc_packsCache = \<lparr>cc_dir = ''p'', cc_maxSize = 0\<rparr>,
     gc_refsTTL = 100, gc_packsTTL = 100, gc_maxUpload = 4096, gc_maxReceive = 4096, gc_maxPackEntry = 0,
     gc_allowedHosts = [''H''], gc_upstreamScheme = []\<rparr>"

definition ls_body :: bytes where
  "ls_body = pkt_line ''command=ls-refs'' @ flush_pkt @ flush_pkt"

definition clone_body :: bytes where
  "clone_body = pkt_line ''command=fetch'' @ delim_pkt @ pkt_line ''want 1a'' @ pkt_line ''done'' @ flush_pkt"

definition git_demo_request :: "string \<Rightarrow> string \<Rightarrow> bytes \<Rightarrow> request" where
  "git_demo_request path query body =
     \<lparr>rq_method = ''POST'', rq_url = \<lparr>u_scheme = ''https'', u_host = ''h'', u_path = path, u_rawPath = [], u_rawQuery = query\<rparr>,
      rq_host = ''h'', rq_requestURI = path, rq_header = [(''Git-Protocol'', [''version=2''])], rq_body = body,
      rq_contentLength = int (length body), rq_tls = True\<rparr>"

definition demo_advert :: request where
  "demo_advert = git_demo_request ''/r/info/refs'' ''service=git-upload-pack'' []"

definition demo_ls :: request where "demo_ls = git_demo_request ''/r/git-upload-pack'' [] ls_body"
definition demo_clone :: request where "demo_clone = git_demo_request ''/r/git-upload-pack'' [] clone_body"
definition demo_push :: request where "demo_push = git_demo_request ''/r/git-receive-pack'' [] ''PUSH''"

definition git_demo_env :: git_env where
  "git_demo_env =
     \<lparr>gi_world = git_demo_world, gi_now = 5, gi_parse = (\<lambda>_. None),
      gi_do = (\<lambda>q. Some \<lparr>rs_status = 200, rs_header = [],
         rs_body = (if ur_length q = None then ''caps'' else if ur_body q = ls_body then ''refs'' else ''PACK''),
         rs_bodyErr = False, rs_contentLength = -1\<rparr>),
      gi_gunzip = (\<lambda>_ _. None), gi_bodyErr = False,
      gi_put = \<lparr>pi_fault = NoFault, pi_tmp = ''t'', pi_partial = []\<rparr>,
      gi_pack = \<lparr>pk_mkdir_ok = True, pk_create_ok = True, pk_tmp = ''t'', pk_chunks = (\<lambda>b. [b]), pk_room = None,
        pk_close_ok = True, pk_rename_ok = True\<rparr>\<rparr>"

lemma git_demo_ok: "git_ok git_demo_world ''r'' 100 ''p'' 100 git_demo_state"
  by (auto simp: git_ok_def disk_ok_def git_demo_state_def git_demo_cache_def git_demo_world_def calm_world_def
      entry_path_def inj_def)

lemma git_demo_on: "git_on git_demo_world ''r'' ''p'' git_demo_env"
  by (simp add: git_on_def git_demo_env_def entry_path_def)

lemma demo_classes:
  "asks_refs demo_advert" "ls_refs_request git_demo_env git_demo_config demo_ls"
  "cacheable_clone git_demo_env git_demo_config demo_clone"
  by code_simp+

abbreviation demo_out :: writer where "demo_out \<equiv> new_writer None"

lemma git_demo_empty: "refs_content git_demo_state = (\<lambda>_. None)" "packs_content git_demo_state = (\<lambda>_. None)"
  by (auto simp: git_demo_state_def git_demo_cache_def disk_content_def)

lemma git_demo_env_simps [simp]:
  "gi_world git_demo_env = git_demo_world" "gi_now git_demo_env = 5" "pi_fault (gi_put git_demo_env) = NoFault"
  by (simp_all add: git_demo_env_def)

lemma git_demo_allowed: "isAllowedGitHost git_demo_config (extractHost demo_advert)" by code_simp

text \<open>The state after the first advertisement, and after the first clone.\<close>

lemma demo_first:
  obtains s where "git_handle git_demo_env git_demo_config demo_advert out git_demo_state = (refs_answer ''caps'' out, s)"
    "git_ok git_demo_world ''r'' 100 ''p'' 100 s" "gt_packs s = gt_packs git_demo_state"
    "refs_content s = [refs_key git_demo_env demo_advert \<mapsto> (''caps'', Some 105)]"
proof -
  let ?q = "plain git_demo_config demo_advert"
  have reply: "gi_do git_demo_env ?q = Some \<lparr>rs_status = 200, rs_header = [], rs_body = ''caps'', rs_bodyErr = False,
      rs_contentLength = -1\<rparr>" by (simp add: git_demo_env_def upstream_of_def)
  obtain s where "refs_through git_demo_env (refs_key git_demo_env demo_advert) ?q git_demo_state = (Inr ''caps'', s)"
    "git_ok git_demo_world ''r'' 100 ''p'' 100 s" "gt_packs s = gt_packs git_demo_state"
    "refs_content s = [refs_key git_demo_env demo_advert \<mapsto> (''caps'', Some 105)]"
    using refs_through_fetched [OF git_demo_ok git_demo_on _ reply, of "refs_key git_demo_env demo_advert"]
    by (auto simp: git_demo_empty effective_expiry_def)
  then show ?thesis
    using that info_refs_through [OF demo_classes(1) git_demo_allowed] by blast
qed

lemma demo_paths:
  "has_suffix (u_path (rq_url demo_clone)) ''/git-upload-pack''" "has_suffix (u_path (rq_url demo_ls)) ''/git-upload-pack''"
  "has_suffix (u_path (rq_url demo_push)) ''/git-receive-pack''"
  by (simp_all add: demo_clone_def demo_ls_def demo_push_def git_demo_request_def has_suffix_def)

lemma demo_scopes:
  "same_scope git_demo_env demo_clone git_demo_env demo_advert" "same_scope git_demo_env demo_ls git_demo_env demo_advert"
  "extractHost demo_advert = extractHost demo_push" "repo_of demo_advert = repo_of demo_push"
  by code_simp+

lemma demo_scope_plain: "plain_scope git_demo_env demo_advert"
proof -
  have "extractHost demo_advert = ''h''" by code_simp
  then show ?thesis by (simp add: plain_scope_def git_demo_world_def)
qed

definition demo_pack :: response where
  "demo_pack = \<lparr>rs_status = 200, rs_header = [], rs_body = ''PACK'', rs_bodyErr = False, rs_contentLength = -1\<rparr>"

lemma demo_clone_reply:
  "gi_do git_demo_env (with_body git_demo_config demo_clone) = Some demo_pack" "calm_pack git_demo_env git_demo_config demo_pack"
proof -
  have "clone_body \<noteq> ls_body" by code_simp
  then show "gi_do git_demo_env (with_body git_demo_config demo_clone) = Some demo_pack"
    by (simp add: git_demo_env_def demo_pack_def upstream_of_def demo_clone_def git_demo_request_def)
  show "calm_pack git_demo_env git_demo_config demo_pack"
    by (simp add: calm_pack_def git_demo_env_def demo_pack_def git_demo_config_def)
qed


definition demo_before_push :: git_state where
  "demo_before_push = git_demo_state\<lparr>gt_refs := (git_demo_cache ''r'' 100)
     \<lparr>c_entries := [(''refs:h:/r:anon:upload-pack'', demo_entry ''refs:h:/r:anon:upload-pack'' 4 1 None)], c_totalSize := 4\<rparr>\<rparr>"



theorem push_then_clone_stale_witness:
  "\<exists>s out1 s1 out2 s2 out3 s3 out4 s4.
     git_handle git_demo_env git_demo_config demo_push demo_out s = (out1, s1)
     \<and> git_handle git_demo_env git_demo_config demo_advert demo_out s1 = (out2, s2)
     \<and> git_handle git_demo_env git_demo_config demo_ls demo_out s2 = (out3, s3)
     \<and> git_handle git_demo_env git_demo_config demo_clone demo_out s3 = (out4, s4)
     \<and> out3 = pack_answer ''refs'' demo_out \<and> out4 = pack_answer ''PACK'' demo_out"
proof -
  let ?adv = "\<lparr>rs_status = 200, rs_header = [], rs_body = ''caps'', rs_bodyErr = False, rs_contentLength = -1\<rparr>"
  let ?ls = "\<lparr>rs_status = 200, rs_header = [], rs_body = ''refs'', rs_bodyErr = False, rs_contentLength = -1\<rparr>"
  obtain s0 where s0: "git_ok git_demo_world ''r'' 100 ''p'' 100 s0" "gt_packs s0 = gt_packs git_demo_state"
    "refs_content s0 = [refs_key git_demo_env demo_advert \<mapsto> (''caps'', Some 105)]"
    by (rule demo_first)
  have "refs_key git_demo_env demo_clone = refs_key git_demo_env demo_advert"
    using demo_scopes(1) by (simp add: same_scope_def)
  then have live: "live (gi_now git_demo_env) (refs_content s0 (refs_key git_demo_env demo_clone)) = Some ''caps''"
    by (simp add: s0(3))
  have dead: "live (gi_now git_demo_env) (packs_content s0 (pack_key git_demo_env demo_clone ''caps'')) = None"
    using git_demo_empty(2) by (simp add: s0(2))
  have fresh: "w_takes demo_out = None" "w_status demo_out = None" by (simp_all add: new_writer_def)
  obtain s where s: "git_ok git_demo_world ''r'' 100 ''p'' 100 s"
    "live (gi_now git_demo_env) (packs_content s (pack_key git_demo_env demo_clone ''caps'')) = Some ''PACK''"
    using clone_miss [OF s0(1) git_demo_on demo_classes(3) live dead demo_clone_reply fresh]
    by (auto simp: effective_expiry_def demo_pack_def)
  have replies: "gi_do git_demo_env (plain git_demo_config r) = Some ?adv"
    "gi_do git_demo_env (with_body git_demo_config demo_ls) = Some ?ls" for r
    by (simp_all add: git_demo_env_def upstream_of_def demo_ls_def git_demo_request_def)
  obtain out1 s1 where 1: "git_handle git_demo_env git_demo_config demo_push demo_out s = (out1, s1)" by fastforce
  obtain out2 s2 where 2: "git_handle git_demo_env git_demo_config demo_advert demo_out s1 = (out2, s2)" by fastforce
  obtain out3 s3 where 3: "git_handle git_demo_env git_demo_config demo_ls demo_out s2 = (out3, s3)" by fastforce
  obtain out4 s4 where 4: "git_handle git_demo_env git_demo_config demo_clone demo_out s3 = (out4, s4)" by fastforce
  have on: "list_all (git_on git_demo_world ''r'' ''p'') [git_demo_env, git_demo_env, git_demo_env, git_demo_env]"
    using git_demo_on by simp
  have "out3 = pack_answer ''refs'' demo_out \<and> out4 = pack_answer ''PACK'' demo_out"
    using push_then_clone_stale [OF s(1) on demo_paths(3) demo_classes(1) demo_paths(2,1) demo_classes(2,3)
        demo_scopes(3,4,2,1) replies(1) _ replies(1) _ _ _ replies(2) _ _ _ _ _ 1 2 3 4, of "''PACK''"] s(2) by simp
  with 1 2 3 4 show ?thesis by blast
qed

theorem full_disk_truncates_witness:
  "\<exists>out' s'. streamAndCache (git_demo_env\<lparr>gi_pack := (gi_pack git_demo_env)\<lparr>pk_room := Some 2\<rparr>\<rparr>) git_demo_config demo_pack ''k''
      demo_out git_demo_state = (out', s') \<and> w_status out' = Some 200 \<and> w_body out' = ''PA''"
proof -
  let ?ge = "git_demo_env\<lparr>gi_pack := (gi_pack git_demo_env)\<lparr>pk_room := Some 2\<rparr>\<rparr>"
  obtain out' s' where run: "streamAndCache ?ge git_demo_config demo_pack ''k'' demo_out git_demo_state = (out', s')"
    by fastforce
  have "git_on git_demo_world ''r'' ''p'' ?ge" using git_demo_on by (simp add: git_on_def)
  from full_disk_truncates [OF this _ _ _ _ _ _ _ run, of 2] run show ?thesis
    by (simp add: git_demo_env_def demo_pack_def git_demo_config_def new_writer_def)
qed


end
