(* ===== verification/Git_Config_Properties.thy ===== *)
theory Git_Config_Properties
  imports Git_Config
begin

text \<open>
  The properties of the Git proxy's configuration: what validated configurations start with,
  which credentials are accepted, and that generated credentials read back.
\<close>

section \<open>Starting\<close>

definition same_limits :: "cache \<Rightarrow> cache \<Rightarrow> bool" where
  "same_limits c c' \<longleftrightarrow> c_dir c' = c_dir c \<and> c_maxSize c' = c_maxSize c \<and> c_ttl c' = c_ttl c
     \<and> c_softEvictPercent c' = c_softEvictPercent c"

lemma same_limits_refl [simp]: "same_limits c c" by (simp add: same_limits_def)

lemma same_limits_trans: "same_limits a b \<Longrightarrow> same_limits b c \<Longrightarrow> same_limits a c"
  by (simp add: same_limits_def)

lemma restore_rows_limits: "restore_rows w d now rows st kn c = (st', kn', c') \<Longrightarrow> same_limits c c'"
  by (induction w d now rows st kn c rule: restore_rows.induct)
    (auto simp: same_limits_def Let_def split: if_splits option.splits)

lemma fold_db_delete_limits: "same_limits c (fold (db_delete w) ks c)"
  by (induction ks arbitrary: c) (simp_all add: same_limits_def)

lemma scan_items_limits: "same_limits c (scan_items w d kn items c)"
  by (induction w d kn items c rule: scan_items.induct) (simp_all add: same_limits_def)

lemma recover_limits:
  assumes "recover w d now q c = Inr c'"
  shows "same_limits c c'"
proof -
  obtain kn c1 where db: "restore_db w d now q c = (kn, c1)"
    and scan: "c' = scan_items w d kn (dir_items d (c_dir c1) (c_files c1)) c1"
    using assms by (rule recover_result)
  have "same_limits c c1"
    using db restore_rows_limits fold_db_delete_limits
    by (auto simp: restore_db_def same_limits_def split: option.splits if_splits prod.splits)
  then show ?thesis unfolding scan using scan_items_limits by (rule same_limits_trans)
qed

lemma new_cache_limits:
  "new_cache w d now st cfg = Inr c \<Longrightarrow> c_dir c = cf_dir cfg \<and> c_maxSize c = cf_maxSize cfg
     \<and> c_ttl c = cf_ttl cfg \<and> c_softEvictPercent c = cf_softEvictPercent cfg"
  by (auto simp: new_cache_def same_limits_def dest!: recover_limits split: if_splits)

section \<open>Hosts and credentials\<close>

lemma check_hosts_None:
  "check_hosts i hosts = None \<longleftrightarrow> list_all (\<lambda>h. trim_space h \<noteq> [] \<and> plain_host h) hosts"
  by (induction i hosts rule: check_hosts.induct) auto

lemma space_not_name: "is_space c \<Longrightarrow> \<not> is_upper c \<and> \<not> is_lower c \<and> c \<noteq> CHR ''_''"
  by (auto simp: is_space_def is_upper_def is_lower_def)

lemma env_var_name_trim: "env_var_name s \<Longrightarrow> trim_space s \<noteq> []"
  by (cases s) (auto simp: env_var_name_def trim_space_def trim_def trim_left_def trim_right_def dropWhile_eq_Nil_conv
      dest: space_not_name)

definition cred_ok :: "host_credential \<Rightarrow> bool" where
  "cred_ok c \<longleftrightarrow> trim_space (hc_host c) \<noteq> [] \<and> plain_host (hc_host c) \<and> env_var_name (hc_envVar c)"

lemma check_credentials_None:
  "check_credentials i seen creds = None \<longleftrightarrow>
     list_all cred_ok creds \<and> distinct (map (to_lower \<circ> hc_host) creds)
     \<and> (\<forall>c\<in>set creds. to_lower (hc_host c) \<notin> fst ` set seen)"
proof (induction creds arbitrary: i seen)
  case (Cons c creds)
  let ?h = "to_lower (hc_host c)"
  show ?case
  proof (cases "map_of seen ?h")
    case None
    moreover from None have "?h \<notin> fst ` set seen" by (simp add: map_of_eq_None_iff)
    ultimately show ?thesis
      by (auto simp: Cons.IH cred_ok_def env_var_name_trim) (metis image_eqI)
  next
    case (Some p)
    moreover from Some have "?h \<in> fst ` set seen" by (force dest: map_of_SomeD)
    ultimately show ?thesis by (auto simp: cred_ok_def)
  qed
qed simp

section \<open>Base64\<close>

text \<open>The reading of RFC 4648, as a receiver of the header decodes it.\<close>

definition b64_val :: "char \<Rightarrow> nat option" where
  "b64_val c = index_of base64_alphabet [c]"

definition is_b64 :: "char \<Rightarrow> bool" where
  "is_b64 c = (is_alnum c \<or> c \<in> {CHR ''+'', CHR ''/'', CHR ''=''})"

fun unbase64 :: "string \<Rightarrow> bytes option" where
  "unbase64 [] = Some []"
| "unbase64 (a # b # c # d # xs) =
     (case (b64_val a, b64_val b) of
        (Some x, Some y) \<Rightarrow>
          if c = CHR ''='' \<and> d = CHR ''='' \<and> xs = [] then Some [char_of (x * 4 + y div 16)]
          else (case b64_val c of
            None \<Rightarrow> None
          | Some z \<Rightarrow>
              if d = CHR ''='' \<and> xs = []
              then Some [char_of (x * 4 + y div 16), char_of (y mod 16 * 16 + z div 4)]
              else (case (b64_val d, unbase64 xs) of
                (Some v, Some rest) \<Rightarrow>
                  Some (char_of (x * 4 + y div 16) # char_of (y mod 16 * 16 + z div 4)
                    # char_of (z mod 4 * 64 + v) # rest)
              | _ \<Rightarrow> None))
      | _ \<Rightarrow> None)"
| "unbase64 _ = None"

lemma b64_table: "list_all (\<lambda>n. b64_val (b64 n) = Some n \<and> b64 n \<noteq> CHR ''='' \<and> is_b64 (b64 n)) [0..<64]"
  by code_simp

lemma b64_spec [simp]:
  "n < 64 \<Longrightarrow> b64_val (b64 n) = Some n" "n < 64 \<Longrightarrow> b64 n \<noteq> CHR ''=''" "n < 64 \<Longrightarrow> is_b64 (b64 n)"
  using b64_table by (auto simp: list_all_iff)

lemma digits_apart:
  fixes a b :: nat
  shows "b < 16 \<Longrightarrow> (a * 16 + b) div 16 = a" "b < 16 \<Longrightarrow> (a * 16 + b) mod 16 = b"
    "b < 4 \<Longrightarrow> (a * 4 + b) div 4 = a" "b < 4 \<Longrightarrow> (a * 4 + b) mod 4 = b"
  by simp_all

lemma byte_parts:
  fixes x :: nat
  assumes "x < 256"
  shows "x div 4 < 64" "x div 16 < 16" "x div 64 < 4" "x mod 4 < 4" "x mod 16 < 16" "x mod 64 < 64"
  using assms by (simp_all add: less_mult_imp_div_less)

lemma sextets:
  fixes x y :: nat
  assumes "x < 256" "y < 256"
  shows "x div 4 < 64" "x mod 4 * 16 + y div 16 < 64" "x mod 16 * 4 + y div 64 < 64" "x mod 64 < 64"
    "x mod 4 * 16 < 64" "x mod 16 * 4 < 64"
  using byte_parts [OF assms(1)] byte_parts [OF assms(2)] by linarith+

lemma octets:
  fixes x y z :: nat
  assumes "x < 256" "y < 256" "z < 256"
  shows "x div 4 * 4 + (x mod 4 * 16 + y div 16) div 16 = x"
    "(x mod 4 * 16 + y div 16) mod 16 * 16 + (y mod 16 * 4 + z div 64) div 4 = y"
    "(y mod 16 * 4 + z div 64) mod 4 * 64 + z mod 64 = z"
    "x div 4 * 4 + (x mod 4 * 16) div 16 = x"
    "(x mod 4 * 16 + y div 16) mod 16 * 16 + (y mod 16 * 4) div 4 = y"
  using byte_parts [OF assms(2)] byte_parts [OF assms(3)] by (simp_all add: digits_apart)

lemma unbase64_base64 [simp]: "unbase64 (base64 s) = Some s"
proof (induction s rule: base64.induct)
  case (2 a)
  show ?case using of_char_less [of a] sextets [of "of_char a" 0] octets(4) [of "of_char a" 0 0]
    by (simp add: Let_def)
next
  case (3 a b)
  show ?case
    using sextets [OF of_char_less [of a] of_char_less [of b]] sextets [OF of_char_less [of b] of_char_less [of a]]
      octets [OF of_char_less [of a] of_char_less [of b] of_char_less [of a]]
    by (simp add: Let_def)
next
  case (4 a b c xs)
  then show ?case
    using sextets [OF of_char_less [of a] of_char_less [of b]] sextets [OF of_char_less [of b] of_char_less [of c]]
      sextets [OF of_char_less [of c] of_char_less [of a]]
      octets [OF of_char_less [of a] of_char_less [of b] of_char_less [of c]]
    by (simp add: Let_def)
qed simp

lemma base64_chars: "list_all is_b64 (base64 s)"
proof -
  have "is_b64 CHR ''=''" by (simp add: is_b64_def)
  then show ?thesis
    by (induction s rule: base64.induct) (simp_all add: Let_def sextets byte_parts(1) of_char_less)
qed

section \<open>The section of a host\<close>

lemma host_section_starts:
  assumes "trim_space (hc_host cred) \<noteq> []" "map_of env (hc_envVar cred) = Some token" "token \<noteq> []"
  shows "\<exists>rest. host_section quoted env cred
      = nl @ ''# '' @ rule_chars @ '' '' @ trim_space (hc_host cred) @ '' '' @ rest"
  using assms by (simp add: host_section_def Let_def)

section \<open>Properties\<close>

text \<open>C33: A validated configuration starts well-formed. When \<open>Validate\<close> accepts a configuration and
  \<open>New\<close> succeeds, the lifetime of references is positive and at most a day, the request limit
  is positive, the caches have the configured directories (two different ones) and sizes, the
  pack cache never has a negative lifetime (a negative \<open>PacksTTL\<close> means none) and starts its
  soft eviction at 80 percent, and every host of the list is a plain host name.\<close>

theorem validated_config_starts:
  assumes "git_validate pe cfg = None" "git_new w d now refs_start packs_start cfg = Inr (cfg', refs, packs)"
  shows "0 < gc_refsTTL cfg' \<and> gc_refsTTL cfg' \<le> 24 * 3600 * 10 ^ 9 \<and> 0 < gc_maxUpload cfg'
    \<and> c_dir refs = cc_dir (gc_refsCache cfg) \<and> c_dir packs = cc_dir (gc_packsCache cfg) \<and> c_dir refs \<noteq> c_dir packs
    \<and> c_maxSize refs = cc_maxSize (gc_refsCache cfg) \<and> c_maxSize packs = cc_maxSize (gc_packsCache cfg)
    \<and> c_ttl refs = gc_refsTTL cfg' \<and> c_softEvictPercent refs = 0
    \<and> c_ttl packs = (if gc_packsTTL cfg < 0 then 0 else gc_packsTTL cfg') \<and> 0 \<le> c_ttl packs
    \<and> c_softEvictPercent packs = f64_round (8 / 10)
    \<and> gc_upstreamScheme cfg' \<in> {[], ''http'', ''https''}
    \<and> list_all (\<lambda>h. trim_space h \<noteq> [] \<and> plain_host h) (gc_allowedHosts cfg')"
proof -
  have valid: "0 \<le> gc_refsTTL cfg" "gc_refsTTL cfg \<le> 24 * 3600 * 10 ^ 9" "0 \<le> gc_maxUpload cfg"
    "cc_dir (gc_refsCache cfg) \<noteq> cc_dir (gc_packsCache cfg)" "validateUpstreamScheme (gc_upstreamScheme cfg)"
    "list_all (\<lambda>h. trim_space h \<noteq> [] \<and> plain_host h) (gc_allowedHosts cfg)"
    using assms(1) by (auto simp: git_validate_def Let_def check_hosts_None split: if_splits option.splits)
  have cfg': "cfg' = git_defaults cfg"
    and refs: "c_dir refs = cc_dir (gc_refsCache cfg')" "c_maxSize refs = cc_maxSize (gc_refsCache cfg')"
      "c_ttl refs = gc_refsTTL cfg'" "c_softEvictPercent refs = 0"
    and packs: "c_dir packs = cc_dir (gc_packsCache cfg')" "c_maxSize packs = cc_maxSize (gc_packsCache cfg')"
      "c_ttl packs = max (gc_packsTTL cfg') 0" "c_softEvictPercent packs = f64_round (8 / 10)"
    using assms(2) by (auto simp: git_new_def Let_def dest!: new_cache_limits split: if_splits sum.splits)
  have same: "gc_refsCache cfg' = gc_refsCache cfg" "gc_packsCache cfg' = gc_packsCache cfg"
    "gc_upstreamScheme cfg' = gc_upstreamScheme cfg" "gc_allowedHosts cfg' = gc_allowedHosts cfg"
    "gc_refsTTL cfg' = (if gc_refsTTL cfg = 0 then defaultRefsTTL else gc_refsTTL cfg)"
    "gc_maxUpload cfg' = (if gc_maxUpload cfg = 0 then defaultMaxUpload else gc_maxUpload cfg)"
    "gc_packsTTL cfg' = (if gc_packsTTL cfg = 0 then defaultPacksTTL else gc_packsTTL cfg)"
    by (simp_all add: cfg' git_defaults_def Let_def)
  show ?thesis
    using valid refs packs
    by (auto simp: same validateUpstreamScheme_def defaultRefsTTL_def defaultMaxUpload_def defaultPacksTTL_def)
qed

definition demo_paths :: path_env where
  "demo_paths = \<lparr>pe_abs = Some, pe_evalSymlinks = Some, pe_clean = id, pe_mkdir = (\<lambda>_. True), pe_write = (\<lambda>_. True)\<rparr>"

definition demo_config :: git_config where
  "demo_config = (git_default_config (\<lambda>a b. a @ ''/'' @ b) (\<lambda>_. None) ''c'')\<lparr>gc_refsTTL := 0, gc_packsTTL := -1\<rparr>"

theorem validated_config_starts_witness:
  "\<exists>cfg' refs packs. git_new demo_world demo_disk 20 demo_startup demo_startup demo_config = Inr (cfg', refs, packs)
     \<and> c_ttl refs = gc_refsTTL cfg' \<and> c_ttl packs = 0"
proof -
  have valid: "git_validate demo_paths demo_config = None"
    by (simp add: git_validate_def demo_paths_def demo_config_def git_default_config_def Let_def canonicalizePath_def
        validateUpstreamScheme_def defaultMaxUpload_def defaultMaxReceive_def)
  define made where "made = (\<lambda>cf. projr (new_cache demo_world demo_disk 20 demo_startup cf))"
  have new: "new_cache demo_world demo_disk 20 demo_startup cf = Inr (made cf)" if "cf_dir cf \<noteq> []" for cf
    using that by (simp add: made_def new_cache_def demo_startup_def recover_def demo_disk_def case_prod_unfold Let_def)
  have "\<exists>cfg' refs packs. git_new demo_world demo_disk 20 demo_startup demo_startup demo_config = Inr (cfg', refs, packs)"
    by (simp add: git_new_def Let_def demo_config_def git_default_config_def git_defaults_def
        validateUpstreamScheme_def new)
  then obtain cfg' refs packs where
    run: "git_new demo_world demo_disk 20 demo_startup demo_startup demo_config = Inr (cfg', refs, packs)" by blast
  show ?thesis
    using validated_config_starts [OF valid run] run by (auto simp: demo_config_def)
qed

text \<open>Which credentials are accepted: those whose hosts are plain, non-blank and distinct up to
  letter case and whose variable names are shell identifiers.\<close>

theorem credentials_accepted_iff:
  "validate_credentials (Some hosts) = None \<longleftrightarrow>
     list_all (\<lambda>c. trim_space (hc_host c) \<noteq> [] \<and> plain_host (hc_host c) \<and> env_var_name (hc_envVar c)) hosts
     \<and> distinct (map (to_lower \<circ> hc_host) hosts)"
  by (simp add: validate_credentials_def check_credentials_None cred_ok_def [abs_def] fun_eq_iff)

text \<open>C34: Credentials survive the generated configuration. For every host with a token the
  configuration has, in the section of the host's URL, one header line whose value decodes
  to user name and token; whatever bytes the token has, the line holds only letters, digits
  and the three other characters of Base64.\<close>

theorem credential_reads_back:
  assumes "cred \<in> set hosts" "trim_space (hc_host cred) \<noteq> []" "map_of env (hc_envVar cred) = Some token" "token \<noteq> []"
  shows "\<exists>pre x post. generateGitConfig quoted ca (Some hosts) env
      = pre @ ''[http '' @ quoted (''https://'' @ trim_space (hc_host cred)) @ '']'' @ nl
          @ tab @ ''extraHeader = Authorization: Basic '' @ x @ nl @ post
    \<and> list_all is_b64 x
    \<and> unbase64 x = Some ((if hc_username cred = [] then ''x'' else hc_username cred) @ '':'' @ token)"
proof -
  obtain before after where hosts: "hosts = before @ cred # after" using assms(1) by (meson split_list)
  let ?host = "trim_space (hc_host cred)" and ?user = "if hc_username cred = [] then ''x'' else hc_username cred"
  let ?pre = "generateStaticGitConfig ca @ concat (map (host_section quoted env) before)
    @ nl @ ''# '' @ rule_chars @ '' '' @ ?host @ '' '' @ rule_chars @ nl @ nl"
  let ?post = "nl @ (if hc_sshRewrite cred
      then ''[url '' @ quoted (''https://'' @ ?host @ ''/'') @ '']'' @ nl @ tab @ ''insteadOf = git@'' @ ?host @ '':'' @ nl @ nl
      else []) @ concat (map (host_section quoted env) after)"
  have "generateGitConfig quoted ca (Some hosts) env
      = ?pre @ ''[http '' @ quoted (''https://'' @ ?host) @ '']'' @ nl
          @ tab @ ''extraHeader = Authorization: Basic '' @ base64 (?user @ '':'' @ token) @ nl @ ?post"
    using assms(2-4) by (simp add: generateGitConfig_def hosts host_section_def Let_def)
  then show ?thesis using base64_chars unbase64_base64 by blast
qed

definition demo_cred :: host_credential where
  "demo_cred = \<lparr>hc_host = ''git.io'' @ nl @ ''[core]'', hc_envVar = ''TOKEN'', hc_username = [], hc_sshRewrite = True\<rparr>"

lemma demo_cred_host: "trim_space (hc_host demo_cred) = hc_host demo_cred"
  by (simp add: demo_cred_def nl_def trim_space_def trim_self is_space_def)

theorem credential_reads_back_witness:
  "\<exists>pre x post. generateGitConfig id [] (Some [demo_cred]) [(''TOKEN'', ''t0'')]
      = pre @ ''[http '' @ (''https://'' @ hc_host demo_cred) @ '']'' @ nl
          @ tab @ ''extraHeader = Authorization: Basic '' @ x @ nl @ post
    \<and> unbase64 x = Some ''x:t0''"
  using credential_reads_back [of demo_cred "[demo_cred]" "[(''TOKEN'', ''t0'')]" "''t0''" id "[]"]
  by (simp add: demo_cred_host) (force simp: demo_cred_def)

text \<open>A host name can carry configuration. \<open>Validate\<close> forbids slashes and colons in a host but
  not line breaks, and the generated file has the host in a comment line: what follows a
  line break becomes a line of the configuration.\<close>

theorem host_newline_injects:
  assumes "hc_host cred = name @ nl @ line" "trim_space (hc_host cred) = hc_host cred" "plain_host (hc_host cred)"
    "name \<noteq> []" "env_var_name (hc_envVar cred)" "map_of env (hc_envVar cred) = Some token" "token \<noteq> []"
  shows "validate_credentials (Some [cred]) = None
    \<and> contains (generateGitConfig quoted ca (Some [cred]) env) (nl @ line @ '' '')"
proof
  show "validate_credentials (Some [cred]) = None"
    using assms(1-5) by (simp add: validate_credentials_def env_var_name_trim)
  obtain rest where "host_section quoted env cred = nl @ ''# '' @ rule_chars @ '' '' @ (name @ nl @ line) @ '' '' @ rest"
    using host_section_starts [of cred env token quoted] assms by auto
  then have "generateGitConfig quoted ca (Some [cred]) env
      = (generateStaticGitConfig ca @ nl @ ''# '' @ rule_chars @ '' '' @ name) @ (nl @ line @ '' '') @ rest"
    by (simp add: generateGitConfig_def)
  then show "contains (generateGitConfig quoted ca (Some [cred]) env) (nl @ line @ '' '')"
    unfolding contains_iff by blast
qed

theorem host_newline_injects_witness:
  "validate_credentials (Some [demo_cred]) = None
    \<and> contains (generateGitConfig id [] (Some [demo_cred]) [(''TOKEN'', ''t0'')]) (nl @ ''[core]'' @ '' '')"
  by (rule host_newline_injects [where name = "''git.io''" and token = "''t0''", OF _ demo_cred_host])
    (simp_all add: demo_cred_def nl_def plain_host_def contains_def env_var_name_def is_upper_def is_lower_def
      is_alnum_def)

end
