(* ===== verification/Spec2Isabelle.thy ===== *)
theory Spec2Isabelle
  imports Prelude Go_Strings Go_Float Glob Pktline Cache_Invalidation Server_Lifecycle Cache_Mirror Cache_Recovery
    Coalesce S3_Answers Npm_Properties Apt_Properties Git_Properties Git_Config_Properties
begin

text \<open>
  proxykit is a set of caching HTTP proxies for package managers and object stores: npm
  (\<^verbatim>\<open>src/npm\<close>), APT (\<^verbatim>\<open>src/apt\<close>), Git over smart HTTP (\<^verbatim>\<open>src/git\<close>) and S3
  (\<^verbatim>\<open>src/s3\<close>), all on one disk cache (\<^verbatim>\<open>src/cache\<close>). A handler takes a request, works
  out a cache key, and either answers from a file of the cache or sends a request of its own
  to the upstream, streams the answer to the client and keeps it. Requests for one key share
  one fetch. This development models the cache, the four handlers with their configuration,
  keys, parsers and security checks, and the lifecycles of the eviction and the servers.

  \<^bold>\<open>The library below the program.\<close> \<open>Prelude\<close>: association lists, sums over them, sorted
  insertion, separators, and the collections \<open>wf_intros\<close> and \<open>cache_upd\<close>. \<open>Go_Strings\<close> and
  \<open>Go_Http\<close>: what the source uses of Go's \<^verbatim>\<open>strings\<close>, \<^verbatim>\<open>strconv\<close>, \<^verbatim>\<open>net/http\<close> and
  \<^verbatim>\<open>net/url\<close> (trimming, cutting, letter case of ASCII, canonical headers, escaping,
  queries, the response writer). \<open>Go_Float\<close>: \<open>float64\<close> as rationals with correct rounding.
  Strings and bytes are lists of characters; times and durations are \<open>int\<close> nanoseconds,
  with the wrap-around to 64 bits written out where the source can overflow.

  \<^bold>\<open>The disk cache.\<close> \<open>Disk_Cache\<close> models \<^verbatim>\<open>cache/cache.go\<close>: the record \<open>cache\<close> has the
  index, the size account, the rows of the database and the files; \<open>get\<close>, \<open>put\<close>, \<open>getOrFetch\<close>,
  \<open>registerAfterStream\<close>, \<open>remove\<close>, \<open>removeByPrefix\<close>, \<open>removeMatching\<close>, \<open>clear\<close>, \<open>stop\<close> and the
  evictions are the operations of these names. What the operating system, SQLite and the sort
  of the standard library do is the record \<open>world\<close>. \<open>Cache_Invariants\<close> shows that every
  operation keeps the account exact, and how the two evictions choose (one locale,
  \<open>eviction_order\<close>, interpreted for both orders); \<open>Cache_Properties\<close> the size bound and what
  \<open>getOrFetch\<close> delivers; \<open>Cache_Invalidation\<close> what a prefix reaches in the index and in the
  database; \<open>Cache_Mirror\<close> that rows describe live entries; \<open>Cache_Recovery\<close> models \<open>New\<close>,
  \<open>recover\<close>, \<open>ParseSize\<close> and the default sizes, and shows what a restart restores.
  \<open>Cache_Lifecycle\<close> is the background eviction (\<open>StartEviction\<close>, \<open>evictionLoop\<close>, \<open>Stop\<close>) as a
  step relation, and \<open>Server_Lifecycle\<close> the \<open>Start\<close> and \<open>Stop\<close> of the npm, APT and S3 servers
  above it, with requests in progress. \<open>Coalesce\<close> models the three uses of a \<open>sync.Map\<close> to
  share a fetch (\<open>GetOrFetch\<close>, \<open>serveCacheable\<close>, the pack flights) as one step relation over the
  atomic operations, and shows who may fetch and that waiters are woken. \<open>Fetch_Store\<close> states
  the contract of \<open>getOrFetch\<close> towards the handlers as the locale \<open>fetch_store\<close> and interprets it
  on the model of the cache.

  \<^bold>\<open>The proxies.\<close> \<open>Glob\<close> is \<^verbatim>\<open>internal/glob\<close> with a matcher for the regular expressions it
  builds. \<open>Npm\<close> models \<^verbatim>\<open>npm/registries.go\<close>, \<^verbatim>\<open>npm/lockfile_rewrite.go\<close> and
  \<^verbatim>\<open>npm/npm.go\<close>; \<open>Npm_Properties\<close> shows which hosts are fetched from and that rewritten
  tarball URLs are routed back. \<open>Apt\<close> and \<open>Apt_Properties\<close> are \<^verbatim>\<open>apt/apt.go\<close>: allowed hosts,
  refused addresses, and packages fetched once. \<open>Pktline\<close> is \<^verbatim>\<open>git/pktline.go\<close>: the scanner,
  both request parsers, which requests count as fresh clones, termination and round trip.
  \<open>Git_Keys\<close> (\<^verbatim>\<open>git/detect.go\<close>, \<^verbatim>\<open>git/cache.go\<close>, the headers of
  \<^verbatim>\<open>git/handler.go\<close>), \<open>Git_Config\<close> (\<^verbatim>\<open>git/git.go\<close>, \<^verbatim>\<open>git/gitconfig.go\<close>) and
  \<open>Git_Handler\<close> (\<^verbatim>\<open>git/handler.go\<close>) are the Git proxy; \<open>Git_Flow\<close> has the effect of each
  handler on the contents of the two caches, \<open>Git_Properties\<close> their properties over histories
  of requests (the locale \<open>recorder\<close>, interpreted for references and for packs), and
  \<open>Git_Config_Properties\<close> those of configuration and credentials. \<open>S3_Keys\<close>
  (\<^verbatim>\<open>s3/config.go\<close>, \<^verbatim>\<open>s3/signer.go\<close>, keys and security of \<^verbatim>\<open>s3/server.go\<close>),
  \<open>S3_Entry\<close> (\<^verbatim>\<open>s3/entry.go\<close>) and \<open>S3_Server\<close> (the handler of \<^verbatim>\<open>s3/server.go\<close>) are the
  S3 proxy; \<open>S3_Key_Properties\<close>, \<open>S3_Properties\<close> and \<open>S3_Answers\<close> show the isolation of
  tenants, the invalidation by mutations, that objects are fetched once, and what clients
  get.

  \<^bold>\<open>How code becomes definitions.\<close> A handler is a function from an environment, a server, a
  request, a response writer and a state to the writer and the state; the environment
  (\<open>npm_env\<close>, \<open>apt_env\<close>, \<open>git_env\<close>, \<open>s3_env\<close>) holds the time and what is not part of the
  program: the answers of the HTTP client, \<open>url.Parse\<close>, \<open>net.ParseIP\<close>, SHA-256, gzip, JSON, the
  SigV4 signer and the faults of the file system. The state has the requests sent so far, so
  that ``without the upstream'' is a statement about it. Errors are constructors of the
  handler's error type on the left of a sum. Logging is left out. Loops are structural or end
  by a measure, and no function takes fuel. One request runs at a time except in
  \<open>Coalesce\<close>, \<open>Cache_Lifecycle\<close> and \<open>Server_Lifecycle\<close>, whose steps interleave.

  \<^bold>\<open>Not modelled.\<close> The package facade \<^verbatim>\<open>proxykit.go\<close> (aliases and forwarding functions),
  the test harness \<^verbatim>\<open>cmd/proxytest\<close> and the tests; sockets, \<open>http.ServeMux\<close>, time limits and
  the transports of the HTTP clients; accessors that return a field (\<open>Addr\<close>, \<open>CacheSize\<close>,
  \<open>MaxSize\<close>, \<open>Dir\<close>); letter case outside ASCII. A panic of a \<open>fetch\<close> function is modelled, a
  crash of the process is not.
\<close>

section \<open>From one server to the next\<close>

text \<open>C13: Objects survive the S3 server. Whatever requests and evictions ran before a graceful \<open>Stop\<close>,
  a cache that is started on the files and rows it left answers a lookup of every entry that
  has not expired with the entry's file (entries have files of their own, the key is the
  primary key of the table, and the query and the inspection of the file succeed).\<close>

theorem s3_restart_restores:
  assumes "server_reach s3_stop w c s" "sv_todo s = Some []" "\<not> sv_failed s"
    "world_ok w" "sql_all w" "mirror True c" "cache_inv u c"
    "sv_rows s = Some t" "distinct (keys t)" "inj_on (\<lambda>p. e_path (snd p)) (set (c_entries (server_cache s)))"
    "map_of (c_entries (server_cache s)) k = Some e" "\<not> expired now e" "0 < now"
    "map_of (c_files (server_cache s)) (e_path e) = Some data"
    "scan_ok w k" "stat_ok d (e_path e)" "query_ok st" "db_opens st"
    "db_rows st = t" "disk_files st = c_files (server_cache s)" "new_cache w d now st cfg = Inr c'"
  shows "fst (get w now k c') = Some (e_path e)"
proof -
  let ?c = "(server_cache s)\<lparr>c_db := Some t\<rparr>"
  have "mirror True ?c"
    using drained_reach [OF assms(1,5,6)] assms(2,3,8) by (auto simp: drained_inv_def s3_stop_def)
  moreover have "cache_inv u ?c"
    using cache_inv_server [OF assms(1,4,7)] by (simp add: cache_inv_def)
  ultimately show ?thesis
    using restart_finds [of ?c u t now k e data w d st cfg c'] assms(9-) by simp
qed

theorem s3_restart_restores_witness:
  "\<exists>s c'. server_reach s3_stop demo_world demo_cache s
     \<and> new_cache demo_world demo_disk 20 demo_startup \<lparr>cf_dir = ''d'', cf_maxSize = 10, cf_ttl = 0,
        cf_softEvictPercent = 0\<rparr> = Inr c'
     \<and> fst (get demo_world 20 ''k2'' c') = Some ''d/aa/aak2''"
proof -
  let ?cfg = "\<lparr>cf_dir = ''d'', cf_maxSize = 10, cf_ttl = 0, cf_softEvictPercent = 0\<rparr>"
  obtain s where s: "server_reach s3_stop demo_world demo_cache s" "sv_todo s = Some []" "\<not> sv_failed s"
    "sv_rows s = c_db demo_cache" "server_cache s = stop demo_cache" using demo_stopped by blast
  obtain c' where c': "new_cache demo_world demo_disk 20 demo_startup ?cfg = Inr c'"
    by (simp add: new_cache_def demo_startup_def recover_def demo_disk_def case_prod_unfold Let_def)
  have "fst (get demo_world 20 ''k2'' c') = Some (e_path (demo_entry ''k2'' 3 2 (Some 50)))"
    by (rule s3_restart_restores [where t = "the (c_db demo_cache)" and d = demo_disk and st = demo_startup
          and cfg = "?cfg" and data = "''xyz''", OF s(1-3) demo_world_ok demo_sql_all mirror_demo demo_cache_inv])
      (use c' s(4,5) in \<open>simp_all add: demo_cache_def demo_startup_def demo_disk_def demo_entry_def expired_def
         demo_world_def calm_world_def stop_def\<close>)
  with s(1) c' show ?thesis by (simp add: demo_entry_def) blast
qed

end
